(* ===== verification/Prelude.thy ===== *)
theory Prelude
  imports Main "HOL-Library.Word" "HOL-Library.Multiset"
begin

text \<open>
  The shared vocabulary of the development.

  \<^item> Machine types of the Go sources: \<open>uint8\<close>, \<open>uint64\<close>, \<open>common.Address\<close> (20 bytes),
    \<open>common.Hash\<close> (32 bytes), \<open>big.Int\<close> (\<open>int\<close>) and its truncating conversions.
  \<^item> Go's \<open>error\<close> values, and the result of a call: a value, a returned error, a panic, the end
    of the process (\<open>log.Fatalln\<close>, or a panic no \<open>recover\<close> catches), or a loop that has used up
    its fuel.
  \<^item> A world-passing monad over such results, with one rewrite rule per combinator in the
    collection \<open>io_simps\<close>, and inversion rules for successful runs in \<open>io_elims\<close>.
  \<^item> Go's \<open>sort.Slice\<close> and the substring test of \<open>strings.Contains\<close>.
\<close>

named_theorems io_simps "one-step evaluation of the combinators of the io monad"
named_theorems io_elims "inversion of successful runs of the combinators of the io monad"

section \<open>Machine types\<close>

type_synonym u8 = "8 word"
type_synonym u64 = "64 word"
type_synonym address = "160 word"
type_synonym hash = "256 word"
type_synonym bytes = "u8 list"

text \<open>
  \<open>big.Int.Uint64\<close> and \<open>big.Int.SetUint64\<close>: the low 64 bits of the absolute value, and the
  embedding back. \<open>big.NewInt(int64(x))\<close> on a \<open>uint64\<close> reinterprets it as two's complement.
\<close>

definition big_Uint64 :: "int \<Rightarrow> u64" where
  "big_Uint64 x = word_of_int \<bar>x\<bar>"

definition big_SetUint64 :: "u64 \<Rightarrow> int" where
  "big_SetUint64 x = uint x"

definition big_NewInt_int64 :: "u64 \<Rightarrow> int" where
  "big_NewInt_int64 x = sint x"

lemma big_Uint64_SetUint64 [simp]: "big_Uint64 (big_SetUint64 x) = x"
  by (simp add: big_Uint64_def big_SetUint64_def)

lemma uint_big_Uint64: "0 \<le> x \<Longrightarrow> x < 2 ^ 64 \<Longrightarrow> uint (big_Uint64 x) = x"
  by (simp add: big_Uint64_def uint_word_of_int)

text \<open>The signed reading agrees with the unsigned one exactly below \<open>2 ^ 63\<close>.\<close>

lemma big_NewInt_int64_eq_iff: "big_NewInt_int64 x = big_SetUint64 x \<longleftrightarrow> uint x < 2 ^ 63"
proof
  assume "big_NewInt_int64 x = big_SetUint64 x"
  then have "uint x = sint x" by (simp add: big_NewInt_int64_def big_SetUint64_def)
  moreover have "sint x < 2 ^ 63" using sint_lt [of x] by simp
  ultimately show "uint x < 2 ^ 63" by simp
next
  assume "uint x < 2 ^ 63"
  then show "big_NewInt_int64 x = big_SetUint64 x"
    by (simp add: big_NewInt_int64_def big_SetUint64_def sint_uint)
      (rule signed_take_bit_int_eq_self, simp_all add: order_trans [OF _ uint_ge_0])
qed

section \<open>Errors and results\<close>

text \<open>
  Go error values. \<open>ErrorNew\<close> is \<open>errors.New\<close> and \<open>errors.Errorf\<close> (the formatted message),
  \<open>Wrapped\<close> is \<open>errors.Wrap\<close> on an error that is not nil; the next three are the
  sentinel values the code compares by identity. \<open>PanicValue\<close> is not an error: it is the value of
  a \<open>panic\<close> that is called with a string.
\<close>

datatype goerr =
    ErrorNew string
  | Wrapped string goerr
  | ErrGracefulStop
  | ErrNotFound
  | ErrInsufficientVotingPowerToPass
  | PanicValue string

fun err_text :: "goerr \<Rightarrow> string" where
  "err_text (ErrorNew s) = s"
| "err_text (Wrapped s e) = s @ '': '' @ err_text e"
| "err_text ErrGracefulStop = ''stop''"
| "err_text ErrNotFound = ''not found''"
| "err_text ErrInsufficientVotingPowerToPass = ''insufficient voting power''"
| "err_text (PanicValue s) = s"

text \<open>
  The outcome of a call. \<open>Diverge\<close> stands for a loop that has not returned when its fuel is
  used up; every other constructor is an outcome of the running program.
\<close>

datatype 'a res = Ok 'a | Err goerr | Panic goerr | Exit | Diverge

type_synonym ('w, 'a) io = "'w \<Rightarrow> 'a res \<times> 'w"

section \<open>The world-passing monad\<close>

definition ret :: "'a \<Rightarrow> ('w, 'a) io" where
  "ret x = (\<lambda>w. (Ok x, w))"

definition throw :: "goerr \<Rightarrow> ('w, 'a) io" where
  "throw e = (\<lambda>w. (Err e, w))"

definition panic :: "goerr \<Rightarrow> ('w, 'a) io" where
  "panic e = (\<lambda>w. (Panic e, w))"

definition fatal :: "('w, 'a) io" where
  "fatal = (\<lambda>w. (Exit, w))"

text \<open>\<open>x, err := m(); if err != nil { return err }; f(x)\<close>\<close>

definition bindE :: "('w, 'a) io \<Rightarrow> ('a \<Rightarrow> ('w, 'b) io) \<Rightarrow> ('w, 'b) io" where
  "bindE m f = (\<lambda>w. case m w of
      (Ok x, w') \<Rightarrow> f x w'
    | (Err e, w') \<Rightarrow> (Err e, w')
    | (Panic e, w') \<Rightarrow> (Panic e, w')
    | (Exit, w') \<Rightarrow> (Exit, w')
    | (Diverge, w') \<Rightarrow> (Diverge, w'))"

text \<open>\<open>x, err := m()\<close>, with the error kept as a value for the code that follows.\<close>

definition attempt :: "('w, 'a) io \<Rightarrow> ('w, goerr + 'a) io" where
  "attempt m = (\<lambda>w. case m w of
      (Ok x, w') \<Rightarrow> (Ok (Inr x), w')
    | (Err e, w') \<Rightarrow> (Ok (Inl e), w')
    | (Panic e, w') \<Rightarrow> (Panic e, w')
    | (Exit, w') \<Rightarrow> (Exit, w')
    | (Diverge, w') \<Rightarrow> (Diverge, w'))"

text \<open>\<open>errors.Wrap(err, s)\<close> on the error path of a call.\<close>

definition wrapE :: "string \<Rightarrow> ('w, 'a) io \<Rightarrow> ('w, 'a) io" where
  "wrapE s m = (\<lambda>w. case m w of (Err e, w') \<Rightarrow> (Err (Wrapped s e), w') | r \<Rightarrow> r)"

text \<open>A call that returns no error (a plain Go call with an effect on the world).\<close>

definition call :: "('w \<Rightarrow> 'a \<times> 'w) \<Rightarrow> ('w, 'a) io" where
  "call f = (\<lambda>w. case f w of (x, w') \<Rightarrow> (Ok x, w'))"

text \<open>A call into a library that returns a value or an error.\<close>

definition ext_call :: "('w \<Rightarrow> (goerr + 'a) \<times> 'w) \<Rightarrow> ('w, 'a) io" where
  "ext_call f = (\<lambda>w. case f w of (Inl e, w') \<Rightarrow> (Err e, w') | (Inr x, w') \<Rightarrow> (Ok x, w'))"

text \<open>A pure computation that may fail.\<close>

definition pure_call :: "'a res \<Rightarrow> ('w, 'a) io" where
  "pure_call r = (\<lambda>w. (r, w))"

text \<open>Dereferencing a pointer: nil panics.\<close>

definition deref :: "'a option \<Rightarrow> ('w, 'a) io" where
  "deref p = (case p of None \<Rightarrow> panic (ErrorNew ''nil pointer dereference'') | Some x \<Rightarrow> ret x)"

text \<open>\<open>for _, x := range xs { if err := f(x); err != nil { return err } }\<close>\<close>

fun forE :: "'a list \<Rightarrow> ('a \<Rightarrow> ('w, unit) io) \<Rightarrow> ('w, unit) io" where
  "forE [] f = ret ()"
| "forE (x # xs) f = bindE (f x) (\<lambda>_. forE xs f)"

lemma ret_simp [io_simps]: "ret x w = (Ok x, w)"
  by (simp add: ret_def)

lemma throw_simp [io_simps]: "throw e w = (Err e, w)"
  by (simp add: throw_def)

lemma panic_simp [io_simps]: "panic e w = (Panic e, w)"
  by (simp add: panic_def)

lemma fatal_simp [io_simps]: "fatal w = (Exit, w)"
  by (simp add: fatal_def)

lemma bindE_simp [io_simps]: "bindE m f w = (case m w of
      (Ok x, w') \<Rightarrow> f x w' | (Err e, w') \<Rightarrow> (Err e, w') | (Panic e, w') \<Rightarrow> (Panic e, w')
    | (Exit, w') \<Rightarrow> (Exit, w') | (Diverge, w') \<Rightarrow> (Diverge, w'))"
  by (simp add: bindE_def)

lemma attempt_simp [io_simps]: "attempt m w = (case m w of
      (Ok x, w') \<Rightarrow> (Ok (Inr x), w') | (Err e, w') \<Rightarrow> (Ok (Inl e), w')
    | (Panic e, w') \<Rightarrow> (Panic e, w') | (Exit, w') \<Rightarrow> (Exit, w') | (Diverge, w') \<Rightarrow> (Diverge, w'))"
  by (simp add: attempt_def)

lemma wrapE_simp [io_simps]:
  "wrapE s m w = (case m w of (Err e, w') \<Rightarrow> (Err (Wrapped s e), w') | r \<Rightarrow> r)"
  by (simp add: wrapE_def)

lemma call_simp [io_simps]: "call f w = (case f w of (x, w') \<Rightarrow> (Ok x, w'))"
  by (simp add: call_def)

lemma ext_call_simp [io_simps]:
  "ext_call f w = (case f w of (Inl e, w') \<Rightarrow> (Err e, w') | (Inr x, w') \<Rightarrow> (Ok x, w'))"
  by (simp add: ext_call_def)

lemma pure_call_simp [io_simps]: "pure_call r w = (r, w)"
  by (simp add: pure_call_def)

lemma pure_call_Ok_iff [simp]: "pure_call r w = (Ok x, w') \<longleftrightarrow> r = Ok x \<and> w' = w"
  by (auto simp: pure_call_def)

lemma deref_simp [io_simps]:
  "deref p w = (case p of None \<Rightarrow> (Panic (ErrorNew ''nil pointer dereference''), w)
     | Some x \<Rightarrow> (Ok x, w))"
  by (simp add: deref_def io_simps split: option.splits)

text \<open>The monad laws.\<close>

lemma bindE_ret [simp]: "bindE (ret x) f = f x"
  by (rule ext) (simp add: io_simps)

lemma bindE_throw [simp]: "bindE (throw e) f = throw e"
  by (rule ext) (simp add: io_simps)

lemma bindE_deref_Some [simp]: "bindE (deref (Some x)) f = f x"
  by (rule ext) (simp add: io_simps)

lemma bindE_assoc: "bindE (bindE m f) g = bindE m (\<lambda>x. bindE (f x) g)"
  by (rule ext) (simp add: io_simps split: prod.splits res.splits)

text \<open>Inversion of successful runs.\<close>

lemma bindE_OkE [io_elims]:
  assumes "bindE m f w = (Ok y, w'')"
  obtains x w' where "m w = (Ok x, w')" "f x w' = (Ok y, w'')"
  using assms by (auto simp: io_simps split: prod.splits res.splits)

lemma wrapE_Ok_iff [simp]: "wrapE s m w = (Ok x, w') \<longleftrightarrow> m w = (Ok x, w')"
  by (auto simp: io_simps split: prod.splits res.splits)

lemma ret_Ok_iff [simp]: "ret x w = (Ok y, w') \<longleftrightarrow> y = x \<and> w' = w"
  by (auto simp: io_simps)

lemma throw_not_Ok [simp]: "throw e w \<noteq> (Ok y, w')"
  by (simp add: io_simps)

lemma deref_Ok_iff [simp]: "deref p w = (Ok x, w') \<longleftrightarrow> p = Some x \<and> w' = w"
  by (auto simp: io_simps split: option.splits)

lemma attempt_OkE [io_elims]:
  assumes "attempt m w = (Ok r, w')"
  obtains x where "m w = (Ok x, w')" "r = Inr x" | e where "m w = (Err e, w')" "r = Inl e"
  using assms by (auto simp: io_simps split: prod.splits res.splits)

section \<open>What a computation keeps\<close>

text \<open>
  \<open>keeps P m\<close>: running \<open>m\<close> leaves the world related by \<open>P\<close> to the one it started in, whatever
  the outcome. For a reflexive and transitive \<open>P\<close> this composes through every combinator, so
  that a frame condition on the primitive calls lifts to whole handlers.
\<close>

definition keeps :: "('w \<Rightarrow> 'w \<Rightarrow> bool) \<Rightarrow> ('w, 'a) io \<Rightarrow> bool" where
  "keeps P m \<longleftrightarrow> (\<forall>w. P w (snd (m w)))"

named_theorems keeps_intros "frame rules for the io combinators"

lemma keepsD: "keeps P m \<Longrightarrow> m w = (r, w') \<Longrightarrow> P w w'"
  by (metis keeps_def snd_conv)

lemma keepsI: "(\<And>w r w'. m w = (r, w') \<Longrightarrow> P w w') \<Longrightarrow> keeps P m"
  by (metis keeps_def prod.collapse)

locale frame =
  fixes P :: "'w \<Rightarrow> 'w \<Rightarrow> bool"
  assumes P_refl: "P w w"
    and P_trans: "P w w' \<Longrightarrow> P w' w'' \<Longrightarrow> P w w''"
begin

lemma keeps_ret: "keeps P (ret x)"
  by (rule keepsI) (simp add: io_simps P_refl)

lemma keeps_throw: "keeps P (throw e)"
  by (rule keepsI) (simp add: io_simps P_refl)

lemma keeps_panic: "keeps P (panic e)"
  by (rule keepsI) (simp add: io_simps P_refl)

lemma keeps_fatal: "keeps P fatal"
  by (rule keepsI) (simp add: io_simps P_refl)

lemma keeps_deref: "keeps P (deref p)"
  by (rule keepsI) (auto simp add: io_simps P_refl split: option.splits)

lemma keeps_pure_call: "keeps P (pure_call r)"
  by (rule keepsI) (simp add: io_simps P_refl)

text \<open>
  The rule with the outcome of the first computation at hand: what the rest keeps may depend on
  the value it is given.
\<close>

lemma keeps_bindE_Ok:
  assumes "keeps P m" "\<And>x w w'. m w = (Ok x, w') \<Longrightarrow> keeps P (f x)"
  shows "keeps P (bindE m f)"
proof (rule keepsI)
  fix w r w'
  assume *: "bindE m f w = (r, w')"
  obtain r1 w1 where m: "m w = (r1, w1)" by (cases "m w")
  have "P w w1" using keepsD [OF assms(1) m] .
  moreover have "r1 = Ok x \<Longrightarrow> P w1 w'" for x
    using * m keepsD [OF assms(2) [of w x w1]] by (simp add: io_simps)
  ultimately show "P w w'" using * m by (cases r1) (auto simp: io_simps intro: P_trans)
qed

text \<open>A run of a sequence, when the first computation stays within the frame.\<close>

lemma bindE_frameE:
  assumes "bindE m f w = (r, w')" "keeps P m"
  obtains (stopped) "P w w'" "\<And>y. r \<noteq> Ok y" | (went_on) x w1 where "m w = (Ok x, w1)" "P w w1" "f x w1 = (r, w')"
proof -
  obtain r1 w1 where m: "m w = (r1, w1)" by (cases "m w")
  have "P w w1" using keepsD [OF assms(2) m] .
  with assms(1) m show thesis using that by (cases r1) (auto simp: io_simps)
qed

lemma keeps_bindE:
  assumes "keeps P m" "\<And>x. keeps P (f x)"
  shows "keeps P (bindE m f)"
proof (rule keepsI)
  fix w r w'
  assume "bindE m f w = (r, w')"
  then show "P w w'"
    using keepsD [OF assms(1), of w] keepsD [OF assms(2)]
    by (auto simp: io_simps split: prod.splits res.splits intro: P_trans)
qed

lemma keeps_wrapE: "keeps P m \<Longrightarrow> keeps P (wrapE s m)"
  by (rule keepsI) (auto simp: io_simps dest: keepsD split: prod.splits res.splits)

lemma keeps_attempt: "keeps P m \<Longrightarrow> keeps P (attempt m)"
  by (rule keepsI) (auto simp: io_simps dest: keepsD split: prod.splits res.splits)

lemma keeps_forE: "(\<And>x. x \<in> set xs \<Longrightarrow> keeps P (f x)) \<Longrightarrow> keeps P (forE xs f)"
  by (induction xs) (simp_all add: keeps_ret keeps_bindE)

lemma keeps_if: "(b \<Longrightarrow> keeps P m) \<Longrightarrow> (\<not> b \<Longrightarrow> keeps P n) \<Longrightarrow> keeps P (if b then m else n)"
  by simp

lemma keeps_case_option:
  "(p = None \<Longrightarrow> keeps P m) \<Longrightarrow> (\<And>x. p = Some x \<Longrightarrow> keeps P (f x)) \<Longrightarrow>
   keeps P (case p of None \<Rightarrow> m | Some x \<Rightarrow> f x)"
  by (cases p) simp_all

lemma keeps_case_sum:
  "(\<And>e. s = Inl e \<Longrightarrow> keeps P (f e)) \<Longrightarrow> (\<And>x. s = Inr x \<Longrightarrow> keeps P (g x)) \<Longrightarrow>
   keeps P (case s of Inl e \<Rightarrow> f e | Inr x \<Rightarrow> g x)"
  by (cases s) simp_all

lemma keeps_case_prod: "(\<And>x y. p = (x, y) \<Longrightarrow> keeps P (f x y)) \<Longrightarrow> keeps P (case p of (x, y) \<Rightarrow> f x y)"
  by (cases p) simp

lemmas keeps_rules = keeps_ret keeps_throw keeps_panic keeps_fatal keeps_deref keeps_pure_call keeps_bindE
  keeps_wrapE keeps_attempt keeps_forE keeps_if keeps_case_option keeps_case_sum keeps_case_prod

end

section \<open>Sorting and strings of the standard library\<close>

text \<open>
  \<open>sort.Slice(xs, lt)\<close>: a permutation of the slice in which no element is less than one
  before it. Go leaves the order of elements that \<open>lt\<close> does not tell apart unspecified; the
  insertion sort below is what the library runs on slices of at most twelve elements, and
  \<open>sort_slice_unique\<close> shows that every admissible result is the same one when \<open>lt\<close> is total
  on the elements.
\<close>

fun insert_slice :: "('a \<Rightarrow> 'a \<Rightarrow> bool) \<Rightarrow> 'a \<Rightarrow> 'a list \<Rightarrow> 'a list" where
  "insert_slice lt x [] = [x]"
| "insert_slice lt x (y # ys) = (if lt y x then y # insert_slice lt x ys else x # y # ys)"

fun sort_slice :: "('a \<Rightarrow> 'a \<Rightarrow> bool) \<Rightarrow> 'a list \<Rightarrow> 'a list" where
  "sort_slice lt [] = []"
| "sort_slice lt (x # xs) = insert_slice lt x (sort_slice lt xs)"

lemma mset_insert_slice [simp]: "mset (insert_slice lt x xs) = {#x#} + mset xs"
  by (induction xs) auto

lemma mset_sort_slice [simp]: "mset (sort_slice lt xs) = mset xs"
  by (induction xs) auto

lemma set_sort_slice [simp]: "set (sort_slice lt xs) = set xs"
  by (metis mset_sort_slice set_mset_mset)

lemma length_sort_slice [simp]: "length (sort_slice lt xs) = length xs"
  by (metis mset_sort_slice size_mset)

lemma set_insert_slice [simp]: "set (insert_slice lt x xs) = insert x (set xs)"
  by (induction xs) auto

lemma sort_slice_eq_Nil_iff [simp]: "sort_slice lt xs = [] \<longleftrightarrow> xs = []"
  by (metis length_0_conv length_sort_slice)

locale strict_weak =
  fixes lt :: "'a \<Rightarrow> 'a \<Rightarrow> bool"
  assumes lt_asym: "lt x y \<Longrightarrow> \<not> lt y x"
    and not_lt_trans: "\<not> lt y x \<Longrightarrow> \<not> lt z y \<Longrightarrow> \<not> lt z x"
begin

lemma sorted_insert_slice:
  "sorted_wrt (\<lambda>x y. \<not> lt y x) xs \<Longrightarrow> sorted_wrt (\<lambda>x y. \<not> lt y x) (insert_slice lt x xs)"
  by (induction xs) (auto dest: lt_asym not_lt_trans)

lemma sorted_sort_slice: "sorted_wrt (\<lambda>x y. \<not> lt y x) (sort_slice lt xs)"
  by (induction xs) (simp_all add: sorted_insert_slice)

lemma sort_slice_unique:
  assumes total: "\<And>x y. x \<in> set xs \<Longrightarrow> y \<in> set xs \<Longrightarrow> x \<noteq> y \<Longrightarrow> lt x y \<or> lt y x"
    and perm: "mset ys = mset xs"
    and sorted: "sorted_wrt (\<lambda>x y. \<not> lt y x) ys"
  shows "ys = sort_slice lt xs"
proof -
  let ?R = "\<lambda>x y. \<not> lt y x"
  have "zs = ys" if "mset zs = mset ys" "sorted_wrt ?R zs" "sorted_wrt ?R ys"
    "\<forall>x\<in>set ys. \<forall>y\<in>set ys. x \<noteq> y \<longrightarrow> lt x y \<or> lt y x" for ys zs
    using that
  proof (induction ys arbitrary: zs)
    case Nil
    then show ?case by simp
  next
    case (Cons y ys)
    then obtain z zs' where zs: "zs = z # zs'" by (cases zs) auto
    have "z \<in> set (y # ys)" "y \<in> set zs" using Cons.prems(1) zs
      by (metis list.set_intros(1) set_mset_mset)+
    with Cons.prems zs have "z = y" by (auto dest: lt_asym)
    with Cons zs show ?case by auto
  qed
  from this [of "sort_slice lt xs" ys] show ?thesis
    using perm sorted sorted_sort_slice total
    by (metis mset_sort_slice mset_eq_setD)
qed

end

text \<open>\<open>strings.Contains\<close>, \<open>strings.HasPrefix\<close> and \<open>strings.HasSuffix\<close>.\<close>

fun has_prefix :: "string \<Rightarrow> string \<Rightarrow> bool" where
  "has_prefix s [] = True"
| "has_prefix [] (p # ps) = False"
| "has_prefix (c # cs) (p # ps) = (c = p \<and> has_prefix cs ps)"

fun contains_str :: "string \<Rightarrow> string \<Rightarrow> bool" where
  "contains_str [] p = (p = [])"
| "contains_str (c # cs) p = (has_prefix (c # cs) p \<or> contains_str cs p)"

definition has_suffix :: "string \<Rightarrow> string \<Rightarrow> bool" where
  "has_suffix s p = has_prefix (rev s) (rev p)"

lemma has_prefix_iff: "has_prefix s p \<longleftrightarrow> (\<exists>t. s = p @ t)"
  by (induction s p rule: has_prefix.induct) auto

lemma contains_str_iff: "contains_str s p \<longleftrightarrow> (\<exists>a b. s = a @ p @ b)"
proof (induction s)
  case Nil
  then show ?case by auto
next
  case (Cons c cs)
  have "(\<exists>a b. c # cs = a @ p @ b) \<longleftrightarrow> (\<exists>b. c # cs = p @ b) \<or> (\<exists>a b. cs = a @ p @ b)"
    by (metis (no_types, opaque_lifting) append_Cons append_Nil list.inject neq_Nil_conv)
  then show ?case using Cons by (simp add: has_prefix_iff)
qed

lemma has_suffix_iff: "has_suffix s p \<longleftrightarrow> (\<exists>t. s = t @ p)"
  unfolding has_suffix_def has_prefix_iff by (metis rev_append rev_rev_ident)

end
