(* ===== verification/BridgeTypes.thy ===== *)
theory BridgeTypes
  imports Prelude
begin

text \<open>
  The data the components exchange.

  \<^item> The events of the Peggy contract, as the generated bindings declare them
    (\<open>solidity/wrappers/Peggy.sol/wrapper.go\<close>). Of the raw log of an event the code reads the
    block number only, so that is the field kept.
  \<^item> The messages and query results of the Injective peggy module. Their Go types come from the
    chain's SDK and are not part of the repository: the records have the fields the code reads
    or writes. A pointer whose nil value the code tests for, or that a response leaves nil when
    there is no entry, is an \<open>option\<close>; the elements of a list and the token and fee of a transfer
    are present in every decoded response.
  \<^item> The helpers of go-ethereum's \<open>common\<close> package, as a record of functions the definitions
    take as an argument, and the laws of theirs that some properties need.
\<close>

section \<open>Events of the Peggy contract\<close>

record PeggySendToCosmosEvent =
  sc_TokenContract :: address
  sc_Sender :: address
  sc_Destination :: bytes
  sc_Amount :: int
  sc_EventNonce :: int
  sc_BlockNumber :: u64

record PeggySendToInjectiveEvent =
  si_TokenContract :: address
  si_Sender :: address
  si_Destination :: bytes
  si_Amount :: int
  si_EventNonce :: int
  si_Data :: string
  si_BlockNumber :: u64

record PeggyTransactionBatchExecutedEvent =
  be_BatchNonce :: int
  be_Token :: address
  be_EventNonce :: int
  be_BlockNumber :: u64

record PeggyERC20DeployedEvent =
  ed_CosmosDenom :: string
  ed_TokenContract :: address
  ed_Name :: string
  ed_Symbol :: string
  ed_Decimals :: u8
  ed_EventNonce :: int
  ed_BlockNumber :: u64

record PeggyValsetUpdatedEvent =
  vu_NewValsetNonce :: int
  vu_EventNonce :: int
  vu_RewardAmount :: int
  vu_RewardToken :: address
  vu_Validators :: "address list"
  vu_Powers :: "int list"
  vu_BlockNumber :: u64

section \<open>Data of the Injective peggy module\<close>

record BridgeValidator =
  bv_Power :: u64
  bv_EthereumAddress :: string

record Valset =
  vs_Nonce :: u64
  vs_Members :: "BridgeValidator list"
  vs_Height :: u64
  vs_RewardAmount :: "int option"
  vs_RewardToken :: string

record OutgoingTransferTx =
  tx_DestAddress :: string
  tx_Erc20TokenAmount :: int
  tx_Erc20FeeAmount :: int

record OutgoingTxBatch =
  ob_BatchNonce :: u64
  ob_BatchTimeout :: u64
  ob_Transactions :: "OutgoingTransferTx list"
  ob_TokenContract :: string
  ob_Block :: u64

record LastClaimEvent =
  lc_EthereumEventNonce :: u64
  lc_EthereumEventHeight :: u64

record BatchFees =
  bf_Token :: string
  bf_TotalFees :: int

record PeggyParams =
  pp_BridgeEthereumAddress :: string
  pp_BridgeContractStartHeight :: u64
  pp_CosmosCoinErc20Contract :: string

record MsgValsetConfirm =
  vc_Orchestrator :: string
  vc_EthAddress :: string
  vc_Nonce :: u64
  vc_Signature :: string

record MsgConfirmBatch =
  cb_Orchestrator :: string
  cb_Nonce :: u64
  cb_Signature :: string
  cb_EthSigner :: string
  cb_TokenContract :: string

record MsgDepositClaim =
  dc_EventNonce :: u64
  dc_BlockHeight :: u64
  dc_TokenContract :: string
  dc_Amount :: int
  dc_EthereumSender :: string
  dc_CosmosReceiver :: string
  dc_Orchestrator :: string
  dc_Data :: string

record MsgWithdrawClaim =
  wc_EventNonce :: u64
  wc_BatchNonce :: u64
  wc_BlockHeight :: u64
  wc_TokenContract :: string
  wc_Orchestrator :: string

record MsgValsetUpdatedClaim =
  uc_EventNonce :: u64
  uc_ValsetNonce :: u64
  uc_BlockHeight :: u64
  uc_RewardAmount :: int
  uc_RewardToken :: string
  uc_Members :: "BridgeValidator list"
  uc_Orchestrator :: string

record MsgERC20DeployedClaim =
  ec_EventNonce :: u64
  ec_BlockHeight :: u64
  ec_CosmosDenom :: string
  ec_TokenContract :: string
  ec_Name :: string
  ec_Symbol :: string
  ec_Decimals :: u64
  ec_Orchestrator :: string

record Coin =
  coin_Denom :: string
  coin_Amount :: int

datatype cosmos_msg =
    SetOrchestratorAddresses (msg_sender: string) (msg_eth_address: string) (msg_orchestrator_addr: string)
  | ValsetConfirm MsgValsetConfirm
  | ConfirmBatch MsgConfirmBatch
  | SendToEth (msg_sender: string) (msg_eth_dest: string) (msg_amount: Coin) (msg_bridge_fee: Coin)
  | RequestBatch (msg_denom: string) (msg_orchestrator_addr: string)
  | DepositClaim MsgDepositClaim
  | WithdrawClaim MsgWithdrawClaim
  | ValsetUpdatedClaim MsgValsetUpdatedClaim
  | ERC20DeployedClaim MsgERC20DeployedClaim

text \<open>The event nonce a claim message carries.\<close>

fun claim_nonce :: "cosmos_msg \<Rightarrow> u64 option" where
  "claim_nonce (DepositClaim m) = Some (dc_EventNonce m)"
| "claim_nonce (WithdrawClaim m) = Some (wc_EventNonce m)"
| "claim_nonce (ValsetUpdatedClaim m) = Some (uc_EventNonce m)"
| "claim_nonce (ERC20DeployedClaim m) = Some (ec_EventNonce m)"
| "claim_nonce _ = None"

section \<open>The helpers of go-ethereum's \<open>common\<close> package\<close>

record geth_lib =
  HexToAddress :: "string \<Rightarrow> address"
  AddressHex :: "address \<Rightarrow> string"
  FromHex :: "string \<Rightarrow> bytes"
  BytesToHash :: "bytes \<Rightarrow> hash"
  Bytes2Hex :: "bytes \<Rightarrow> string"

text \<open>Printing an address and parsing it back gives the address (EIP-55 changes letter case only).\<close>

definition geth_hex_roundtrip :: "geth_lib \<Rightarrow> bool" where
  "geth_hex_roundtrip G \<longleftrightarrow> (\<forall>a. HexToAddress G (AddressHex G a) = a)"

text \<open>
  An instance for concrete runs: an address is printed in unary, and a string of hexadecimal
  digits is taken character by character.
\<close>

definition unary_geth :: geth_lib where
  "unary_geth =
     \<lparr>HexToAddress = (\<lambda>s. of_nat (length s)), AddressHex = (\<lambda>a. replicate (unat a) CHR ''1''),
      FromHex = map of_char, BytesToHash = foldl (\<lambda>h b. push_bit 8 h + ucast b) 0,
      Bytes2Hex = map (\<lambda>b. char_of (unat b))\<rparr>"

lemma unary_geth_roundtrip: "geth_hex_roundtrip unary_geth"
  by (simp add: geth_hex_roundtrip_def unary_geth_def)

end
