(* ===== verification/NonceCache.thy ===== *)
theory NonceCache
  imports BridgeTypes
begin

text \<open>
  \<open>orchestrator/ethereum/util/noncecache.go\<close>: the cache of account nonces the committer draws
  from. \<open>nonces\<close> is the \<open>sync.Map\<close> of nonces (\<open>int64\<close>, kept as 64-bit words so that increment
  and decrement wrap as in Go); \<open>locks\<close> and \<open>guard\<close> are the accounts for which a mutex has been
  created. The interface \<open>NonceCache\<close> is the locale \<open>nonce_cache\<close>, in terms of the nonce each
  account currently has; the operations of \<open>nonceCache\<close> interpret it.
\<close>

type_synonym i64 = "64 word"

record nonceCache =
  nonces :: "address \<rightharpoonup> i64"
  locks :: "address set"
  guard :: "address set"

definition NewNonceCache :: nonceCache where
  "NewNonceCache = \<lparr>nonces = Map.empty, locks = {}, guard = {}\<rparr>"

definition take_lock :: "address \<Rightarrow> nonceCache \<Rightarrow> nonceCache" where
  "take_lock account n = n\<lparr>locks := insert account (locks n)\<rparr>"

text \<open>\<open>LoadOrStore(account, int64(0))\<close>: the nonce, and whether it was there before.\<close>

definition load_or_store :: "address \<Rightarrow> nonceCache \<Rightarrow> (i64 \<times> bool) \<times> nonceCache" where
  "load_or_store account n = (case nonces n account of
      Some v \<Rightarrow> ((v, True), n)
    | None \<Rightarrow> ((0, False), n\<lparr>nonces := (nonces n)(account \<mapsto> 0)\<rparr>))"

definition nc_Get :: "address \<Rightarrow> nonceCache \<Rightarrow> (i64 \<times> bool) \<times> nonceCache" where
  "nc_Get account n = load_or_store account (take_lock account n)"

definition nc_Set :: "address \<Rightarrow> i64 \<Rightarrow> nonceCache \<Rightarrow> nonceCache" where
  "nc_Set account nonce n =
     (let n1 = take_lock account n in n1\<lparr>nonces := (nonces n1)(account \<mapsto> nonce)\<rparr>)"

definition nc_Incr :: "address \<Rightarrow> nonceCache \<Rightarrow> i64 \<times> nonceCache" where
  "nc_Incr account n = (case load_or_store account (take_lock account n) of
      ((v, _), n1) \<Rightarrow> (let nonce = v + 1 in (nonce, n1\<lparr>nonces := (nonces n1)(account \<mapsto> nonce)\<rparr>)))"

definition nc_Decr :: "address \<Rightarrow> nonceCache \<Rightarrow> i64 \<times> nonceCache" where
  "nc_Decr account n = (case load_or_store account (take_lock account n) of
      ((v, _), n1) \<Rightarrow> (let nonce = v - 1 in (nonce, n1\<lparr>nonces := (nonces n1)(account \<mapsto> nonce)\<rparr>)))"

text \<open>
  \<open>Sync\<close> stores the nonce the callback returns, unless the callback fails. The argument is the
  callback's result: it runs before the store, under the account's lock.
\<close>

definition nc_Sync :: "address \<Rightarrow> goerr + u64 \<Rightarrow> nonceCache \<Rightarrow> nonceCache" where
  "nc_Sync account r n = (let n1 = take_lock account n in
     (case r of Inl _ \<Rightarrow> n1 | Inr nonce \<Rightarrow> n1\<lparr>nonces := (nonces n1)(account \<mapsto> nonce)\<rparr>))"

text \<open>
  \<open>Serialize\<close> creates the account's guard and runs the function while holding it; the
  function \<open>upd\<close> applies a change of the cache to the caller's state.
\<close>

definition nc_Serialize ::
  "((nonceCache \<Rightarrow> nonceCache) \<Rightarrow> 'w \<Rightarrow> 'w) \<Rightarrow> address \<Rightarrow> ('w, 'a) io \<Rightarrow> ('w, 'a) io" where
  "nc_Serialize upd account fn =
     (\<lambda>w. fn (upd (\<lambda>n. n\<lparr>guard := insert account (guard n)\<rparr>) w))"

section \<open>The contract of the cache\<close>

locale nonce_cache =
  fixes current :: "'c \<Rightarrow> address \<Rightarrow> i64"
    and get :: "address \<Rightarrow> 'c \<Rightarrow> (i64 \<times> bool) \<times> 'c"
    and put :: "address \<Rightarrow> i64 \<Rightarrow> 'c \<Rightarrow> 'c"
    and incr :: "address \<Rightarrow> 'c \<Rightarrow> i64 \<times> 'c"
    and decr :: "address \<Rightarrow> 'c \<Rightarrow> i64 \<times> 'c"
    and resync :: "address \<Rightarrow> goerr + u64 \<Rightarrow> 'c \<Rightarrow> 'c"
  assumes get_value: "fst (fst (get a c)) = current c a"
    and get_current: "current (snd (get a c)) = current c"
    and put_current: "current (put a v c) = (current c)(a := v)"
    and incr_value: "fst (incr a c) = current c a + 1"
    and incr_current: "current (snd (incr a c)) = (current c)(a := current c a + 1)"
    and decr_value: "fst (decr a c) = current c a - 1"
    and decr_current: "current (snd (decr a c)) = (current c)(a := current c a - 1)"
    and resync_ok: "current (resync a (Inr v) c) = (current c)(a := v)"
    and resync_err: "current (resync a (Inl e) c) = current c"
begin

lemmas specs = get_value get_current put_current incr_value incr_current decr_value decr_current
  resync_ok resync_err

text \<open>A submission that is taken back leaves every nonce as it was.\<close>

lemma incr_decr: "current (snd (decr a (snd (incr a c)))) = current c"
  by (simp add: specs)

text \<open>After a successful synchronisation the next nonce drawn is the one the node reported.\<close>

lemma resync_get: "fst (fst (get a (resync a (Inr v) c))) = v"
  by (simp add: specs)

lemma resync_frame: "b \<noteq> a \<Longrightarrow> current (resync a r c) b = current c b"
  by (cases r) (simp_all add: specs)

text \<open>\<open>k\<close> increments advance the nonce by \<open>k\<close>, modulo \<open>2 ^ 64\<close>, and draw \<open>k\<close> consecutive values.\<close>

lemma incr_iterate:
  "current (((snd \<circ> incr a) ^^ k) c) = (current c)(a := current c a + of_nat k)"
  by (induction k) (auto simp: specs fun_eq_iff add.assoc add.commute)

end

text \<open>The nonce an account has: zero until one is stored.\<close>

definition nonce_of :: "nonceCache \<Rightarrow> address \<Rightarrow> i64" where
  "nonce_of n a = (case nonces n a of None \<Rightarrow> 0 | Some v \<Rightarrow> v)"

lemmas nonce_cache_defs = nc_Get_def nc_Set_def nc_Incr_def nc_Decr_def nc_Sync_def
  load_or_store_def take_lock_def nonce_of_def

interpretation nc: nonce_cache nonce_of nc_Get nc_Set nc_Incr nc_Decr nc_Sync
  by unfold_locales
    (auto simp: nonce_cache_defs Let_def fun_eq_iff split: option.splits)

section \<open>Properties\<close>

text \<open>A nonce is reported as loaded exactly when one was stored before, and reading stores zero.\<close>

lemma nc_Get_loaded:
  "snd (fst (nc_Get a n)) \<longleftrightarrow> a \<in> dom (nonces n)"
  "a \<in> dom (nonces (snd (nc_Get a n)))"
  by (auto simp: nonce_cache_defs split: option.splits)

end
