(* ===== verification/PendingTxs.thy ===== *)
theory PendingTxs
  imports BridgeTypes
begin

text \<open>
  \<open>orchestrator/ethereum/peggy/pending_transactions.go\<close>: the window of pending transactions of the
  Peggy contract seen in the mempool. The selectors of \<open>submitBatch\<close> and \<open>updateValset\<close> come from
  the parsed contract ABI and are arguments. Times are nanoseconds.
\<close>

record PendingTxInput =
  InputData :: bytes
  ReceivedTime :: int

record abi_selectors =
  submitBatchID :: bytes
  updateValsetID :: bytes

text \<open>
  \<open>inputData[:4]\<close> on a decoded byte slice shorter than four bytes is a run-time panic: its
  capacity is its length.
\<close>

definition IsBatchOrValsetUpdateTx :: "abi_selectors \<Rightarrow> bytes \<Rightarrow> bool res" where
  "IsBatchOrValsetUpdateTx ids inputData =
     (if length inputData < 4 then Panic (ErrorNew ''slice bounds out of range'')
      else Ok (submitBatchID ids = take 4 inputData \<or> updateValsetID ids = take 4 inputData))"

definition AddPendingTxInput ::
  "abi_selectors \<Rightarrow> int \<Rightarrow> bytes \<Rightarrow> PendingTxInput list \<Rightarrow> PendingTxInput list res" where
  "AddPendingTxInput ids now input p =
     (case IsBatchOrValsetUpdateTx ids input of
        Ok False \<Rightarrow> Ok p
      | Ok True \<Rightarrow>
          (let p' = p @ [\<lparr>InputData = input, ReceivedTime = now\<rparr>]
           in Ok (if length p' > 100 then drop 1 p' else p'))
      | Panic e \<Rightarrow> Panic e
      | Err e \<Rightarrow> Err e | Exit \<Rightarrow> Exit | Diverge \<Rightarrow> Diverge)"

fun IsPendingTxInput :: "PendingTxInput list \<Rightarrow> bytes \<Rightarrow> int \<Rightarrow> int \<Rightarrow> bool" where
  "IsPendingTxInput [] txInput wait now = False"
| "IsPendingTxInput (p # ps) txInput wait now =
     (if InputData p = txInput then now < ReceivedTime p + wait
      else IsPendingTxInput ps txInput wait now)"

text \<open>
  The receive loop of \<open>SubscribeToPendingTxs\<close> over the transactions delivered so far (their input
  and arrival time). It runs in a goroutine with no \<open>recover\<close>, so a panic ends the process.
\<close>

fun SubscribeToPendingTxs ::
  "abi_selectors \<Rightarrow> (bytes \<times> int) list \<Rightarrow> PendingTxInput list \<Rightarrow> PendingTxInput list res" where
  "SubscribeToPendingTxs ids [] p = Ok p"
| "SubscribeToPendingTxs ids ((input, now) # txs) p =
     (case AddPendingTxInput ids now input p of
        Ok p' \<Rightarrow> SubscribeToPendingTxs ids txs p'
      | Panic e \<Rightarrow> Exit
      | Err e \<Rightarrow> Err e | Exit \<Rightarrow> Exit | Diverge \<Rightarrow> Diverge)"

section \<open>Properties\<close>

definition relevant :: "abi_selectors \<Rightarrow> bytes \<Rightarrow> bool" where
  "relevant ids input \<longleftrightarrow> take 4 input = submitBatchID ids \<or> take 4 input = updateValsetID ids"

lemma IsBatchOrValsetUpdateTx_cases:
  "IsBatchOrValsetUpdateTx ids input =
     (if length input < 4 then Panic (ErrorNew ''slice bounds out of range'')
      else Ok (relevant ids input))"
  by (auto simp: IsBatchOrValsetUpdateTx_def relevant_def)

lemma AddPendingTxInput_Ok:
  assumes "4 \<le> length input"
  shows "AddPendingTxInput ids now input p = Ok
    (if relevant ids input then
       (if 100 \<le> length p then drop 1 (p @ [\<lparr>InputData = input, ReceivedTime = now\<rparr>])
        else p @ [\<lparr>InputData = input, ReceivedTime = now\<rparr>])
     else p)"
  using assms by (auto simp: AddPendingTxInput_def IsBatchOrValsetUpdateTx_cases split: bool.splits)

text \<open>The window after a run: the last hundred of the relevant transactions.\<close>

definition window :: "abi_selectors \<Rightarrow> (bytes \<times> int) list \<Rightarrow> PendingTxInput list" where
  "window ids txs =
     map (\<lambda>(input, now). \<lparr>InputData = input, ReceivedTime = now\<rparr>)
       (filter (\<lambda>(input, now). relevant ids input) txs)"

definition last_n :: "nat \<Rightarrow> 'a list \<Rightarrow> 'a list" where
  "last_n n xs = drop (length xs - n) xs"

lemma last_n_snoc_step:
  "length (last_n n xs) \<le> n \<and>
   last_n n (xs @ [x]) = (if n \<le> length (last_n n xs) then drop 1 (last_n n xs @ [x])
                          else last_n n xs @ [x])" if "0 < n"
  using that by (auto simp: last_n_def Suc_diff_le)

text \<open>One delivery moves the window of the past relevant transactions one step.\<close>

lemma AddPendingTxInput_window:
  assumes "4 \<le> length input"
  shows "AddPendingTxInput ids now input (last_n 100 ps) =
    Ok (last_n 100 (ps @ window ids [(input, now)]))"
  using assms last_n_snoc_step [of 100 ps "\<lparr>InputData = input, ReceivedTime = now\<rparr>"]
  by (simp add: AddPendingTxInput_Ok window_def)

lemma SubscribeToPendingTxs_window:
  assumes "\<forall>(input, now) \<in> set txs. 4 \<le> length input"
  shows "SubscribeToPendingTxs ids txs (last_n 100 ps) = Ok (last_n 100 (ps @ window ids txs))"
  using assms
proof (induction txs arbitrary: ps)
  case Nil
  then show ?case by (simp add: window_def)
next
  case (Cons tx txs)
  then show ?case
    by (cases tx) (simp add: AddPendingTxInput_window, simp add: window_def)
qed

text \<open>C33. As long as every delivered transaction carries at least a four-byte selector, the list
  holds exactly the last hundred \<open>submitBatch\<close> and \<open>updateValset\<close> transactions, oldest first.\<close>

theorem pending_window:
  assumes "\<forall>(input, now) \<in> set txs. 4 \<le> length input"
  shows "SubscribeToPendingTxs ids txs [] = Ok (last_n 100 (window ids txs))"
  using SubscribeToPendingTxs_window [OF assms, of ids "[]"] by (simp add: last_n_def)

theorem pending_window_witness:
  "SubscribeToPendingTxs \<lparr>submitBatchID = [1, 2, 3, 4], updateValsetID = [5, 6, 7, 8]\<rparr>
     [([1, 2, 3, 4, 9], 10), ([0, 0, 0, 0], 11), ([5, 6, 7, 8], 12)] [] =
   Ok [\<lparr>InputData = [1, 2, 3, 4, 9], ReceivedTime = 10\<rparr>, \<lparr>InputData = [5, 6, 7, 8], ReceivedTime = 12\<rparr>]"
  by (subst pending_window) (simp_all add: window_def relevant_def last_n_def)

text \<open>A pending transaction with fewer than four bytes of input ends the process, wherever it
  comes in the stream: the slice expression panics in a goroutine that nothing recovers.\<close>

theorem short_input_exits:
  assumes "\<forall>(input, now) \<in> set txs. 4 \<le> length input" "length input < 4"
  shows "SubscribeToPendingTxs ids (txs @ (input, now) # rest) [] = Exit"
proof -
  have "SubscribeToPendingTxs ids (txs @ ys) p =
      (case SubscribeToPendingTxs ids txs p of Ok q \<Rightarrow> SubscribeToPendingTxs ids ys q | r \<Rightarrow> r)"
    for ys p
    by (induction txs arbitrary: p) (auto split: res.splits)
  with SubscribeToPendingTxs_window [OF assms(1), of ids "[]"] assms(2) show ?thesis
    by (simp add: last_n_def AddPendingTxInput_def IsBatchOrValsetUpdateTx_def)
qed

theorem short_input_exits_witness:
  "SubscribeToPendingTxs \<lparr>submitBatchID = [1, 2, 3, 4], updateValsetID = [5, 6, 7, 8]\<rparr>
     ([([1, 2, 3, 4], 10)] @ ([], 11) # []) [] = Exit"
  by (rule short_input_exits) simp_all

text \<open>
  The answer of \<open>IsPendingTxInput\<close>: the oldest entry with the same input decides, whatever newer
  entries there are.
\<close>

lemma IsPendingTxInput_find:
  "IsPendingTxInput ps input wait now =
     (case List.find (\<lambda>p. InputData p = input) ps of
        None \<Rightarrow> False | Some p \<Rightarrow> now < ReceivedTime p + wait)"
  by (induction ps) auto

end
