(* ===== verification/World.thy ===== *)
theory World
  imports NonceCache PendingTxs
begin

text \<open>
  The state every operation runs in. \<open>outside\<close> is everything beyond the process (the two chains,
  the node endpoints, the clock, files); the library functions the process calls act on it and
  are arguments of the definitions. \<open>cache\<close> and \<open>pendingTxInputList\<close> are the mutable memory of
  the Ethereum side of the process. \<open>broadcasts\<close> and \<open>submitted\<close> record what the process hands to
  its libraries: the messages broadcast to Injective and the transactions submitted to
  Ethereum, in order, each with the verdict of the node.
\<close>

record eth_tx =
  et_Nonce :: u64
  et_To :: address
  et_GasLimit :: u64
  et_GasPrice :: int
  et_Data :: bytes

record 'e world =
  outside :: 'e
  cache :: nonceCache
  pendingTxInputList :: "PendingTxInput list"
  broadcasts :: "(cosmos_msg \<times> bool) list"
  submitted :: "(eth_tx \<times> bool) list"

text \<open>A library call acts on \<open>outside\<close> only.\<close>

type_synonym ('e, 'a) libfun = "'e \<Rightarrow> (goerr + 'a) \<times> 'e"

definition lib :: "('e, 'a) libfun \<Rightarrow> ('e world, 'a) io" where
  "lib f = (\<lambda>w. case f (outside w) of
      (Inl e, o') \<Rightarrow> (Err e, w\<lparr>outside := o'\<rparr>)
    | (Inr x, o') \<Rightarrow> (Ok x, w\<lparr>outside := o'\<rparr>))"

text \<open>The current time: \<open>time.Now()\<close>.\<close>

definition time_Now :: "('e \<Rightarrow> int \<times> 'e) \<Rightarrow> ('e world, int) io" where
  "time_Now now = (\<lambda>w. case now (outside w) of (t, o') \<Rightarrow> (Ok t, w\<lparr>outside := o'\<rparr>))"

text \<open>An operation on the nonce cache.\<close>

definition with_cache :: "(nonceCache \<Rightarrow> 'a \<times> nonceCache) \<Rightarrow> ('e world, 'a) io" where
  "with_cache f = (\<lambda>w. case f (cache w) of (x, c) \<Rightarrow> (Ok x, w\<lparr>cache := c\<rparr>))"

lemma lib_simp [io_simps]: "lib f w = (case f (outside w) of
      (Inl e, o') \<Rightarrow> (Err e, w\<lparr>outside := o'\<rparr>) | (Inr x, o') \<Rightarrow> (Ok x, w\<lparr>outside := o'\<rparr>))"
  by (simp add: lib_def)

lemma time_Now_simp [io_simps]:
  "time_Now now w = (case now (outside w) of (t, o') \<Rightarrow> (Ok t, w\<lparr>outside := o'\<rparr>))"
  by (simp add: time_Now_def)

lemma with_cache_simp [io_simps]:
  "with_cache f w = (case f (cache w) of (x, c) \<Rightarrow> (Ok x, w\<lparr>cache := c\<rparr>))"
  by (simp add: with_cache_def)

section \<open>Frame conditions\<close>

text \<open>No message to Injective, and no transaction to Ethereum, is sent.\<close>

definition same_broadcasts :: "'e world \<Rightarrow> 'e world \<Rightarrow> bool" where
  "same_broadcasts w w' \<longleftrightarrow> broadcasts w' = broadcasts w"

definition same_submitted :: "'e world \<Rightarrow> 'e world \<Rightarrow> bool" where
  "same_submitted w w' \<longleftrightarrow> submitted w' = submitted w"

interpretation same_broadcasts: frame same_broadcasts
  by unfold_locales (simp_all add: same_broadcasts_def)

interpretation same_submitted: frame same_submitted
  by unfold_locales (simp_all add: same_submitted_def)

lemma lib_keeps:
  "keeps same_broadcasts (lib f)" "keeps same_submitted (lib f)"
  by (rule keepsI, auto simp: same_broadcasts_def same_submitted_def io_simps
      split: prod.splits sum.splits)+

lemma time_Now_keeps:
  "keeps same_broadcasts (time_Now now)" "keeps same_submitted (time_Now now)"
  by (rule keepsI, auto simp: same_broadcasts_def same_submitted_def io_simps
      split: prod.splits sum.splits)+

lemma with_cache_keeps:
  "keeps same_broadcasts (with_cache f)" "keeps same_submitted (with_cache f)"
  by (rule keepsI, auto simp: same_broadcasts_def same_submitted_def io_simps
      split: prod.splits sum.splits)+

end
