(* ===== verification/GoFloat.thy ===== *)
theory GoFloat
  imports Prelude Complex_Main "HOL-Library.Log_Nat"
begin

text \<open>
  Floating point values as the rationals they denote, with Go's rounding (IEEE 754 round to
  nearest, ties to even) to a mantissa of \<open>p\<close> bits. \<open>p = 24\<close> is a conversion to \<open>float32\<close>,
  \<open>p = 53\<close> one to \<open>float64\<close> and the result of \<open>big.Float\<close> arithmetic on a receiver made by
  \<open>big.NewFloat\<close>. Infinities, NaN and the subnormal range do not occur in the amounts the
  code handles.
\<close>

definition floor_log2 :: "rat \<Rightarrow> int" where
  "floor_log2 q = (case quotient_of q of (a, b) \<Rightarrow>
     (let k = int (floorlog 2 (nat a)) - int (floorlog 2 (nat b))
      in if 2 powi k \<le> q then k else k - 1))"

definition round_half_even :: "rat \<Rightarrow> int" where
  "round_half_even q = (let f = \<lfloor>q\<rfloor>; d = q - of_int f in
     if d < 1 / 2 then f else if d > 1 / 2 then f + 1 else if even f then f else f + 1)"

definition round_float :: "nat \<Rightarrow> rat \<Rightarrow> rat" where
  "round_float p q = (if q = 0 then 0 else
     (let u = 2 powi (floor_log2 \<bar>q\<bar> - int (p - 1))
      in sgn q * of_int (round_half_even (\<bar>q\<bar> / u)) * u))"

text \<open>\<open>big.Float.Int\<close>: truncation towards zero.\<close>

definition trunc_rat :: "rat \<Rightarrow> int" where
  "trunc_rat q = (if 0 \<le> q then \<lfloor>q\<rfloor> else - \<lfloor>- q\<rfloor>)"

lemma round_half_even_int [simp]: "round_half_even (of_int n) = n"
  by (simp add: round_half_even_def)

lemma round_half_even_near: "\<bar>of_int (round_half_even q) - q\<bar> \<le> 1 / 2"
  unfolding round_half_even_def Let_def
  using floor_correct [of q] by (auto simp: abs_le_iff field_simps)

lemma round_half_even_ge: "of_int n \<le> q \<Longrightarrow> n \<le> round_half_even q"
  unfolding round_half_even_def Let_def using le_floor_iff [of n q] by auto

lemma floorlog_powi:
  assumes "0 < n"
  defines "l \<equiv> int (floorlog 2 (nat n))"
  shows "(2::rat) powi (l - 1) \<le> of_int n" "(of_int n :: rat) < 2 powi l"
proof -
  let ?k = "floorlog 2 (nat n)"
  have k: "0 < ?k" "2 ^ (?k - 1) \<le> nat n" "nat n < 2 ^ ?k"
    using assms floorlog_bounds [of "nat n" 2] by (auto simp: floorlog_def)
  then have n: "2 ^ (?k - 1) \<le> n" "n < 2 ^ ?k"
    using assms by (simp_all add: le_nat_iff nat_less_iff)
  have "(2::rat) powi (l - 1) = of_int (2 ^ (?k - 1))" "(2::rat) powi l = of_int (2 ^ ?k)"
    using k(1) by (simp_all add: l_def power_int_def nat_diff_distrib)
  with n show "(2::rat) powi (l - 1) \<le> of_int n" "(of_int n :: rat) < 2 powi l"
    by (simp_all only: of_int_le_iff of_int_less_iff)
qed

lemma floor_log2_bounds:
  assumes "0 < q"
  shows "2 powi floor_log2 q \<le> q" "q < 2 powi (floor_log2 q + 1)"
proof -
  obtain a b where ab: "quotient_of q = (a, b)" by (cases "quotient_of q")
  have b: "0 < b" and q: "q = of_int a / of_int b"
    using ab quotient_of_denom_pos quotient_of_div by blast+
  with assms have a: "0 < a" by (simp add: zero_less_divide_iff)
  let ?la = "int (floorlog 2 (nat a))" and ?lb = "int (floorlog 2 (nat b))"
  note fa = floorlog_powi [OF a] and fb = floorlog_powi [OF b]
  have "2 powi (?la - 1) / 2 powi ?lb < q"
    unfolding q using fa fb b by (intro frac_less2) auto
  then have lower: "2 powi (?la - ?lb - 1) < q"
    by (simp add: power_int_diff)
  have "q < 2 powi ?la / 2 powi (?lb - 1)"
    unfolding q using fa fb a b by (intro frac_less) auto
  then have upper: "q < 2 powi (?la - ?lb + 1)"
    by (simp add: power_int_diff power_int_add)
  from lower upper show "2 powi floor_log2 q \<le> q" "q < 2 powi (floor_log2 q + 1)"
    by (auto simp: floor_log2_def ab Let_def)
qed

text \<open>Rounding moves a value by at most half a unit in the last place.\<close>

lemma round_float_near:
  assumes "0 < q"
  shows "\<bar>round_float p q - q\<bar> \<le> 2 powi (floor_log2 q - int (p - 1)) / 2"
proof -
  let ?u = "2 powi (floor_log2 q - int (p - 1)) :: rat"
  have u: "0 < ?u" by simp
  have "round_float p q - q = (of_int (round_half_even (q / ?u)) - q / ?u) * ?u"
    using assms by (simp add: round_float_def Let_def field_simps)
  then have "\<bar>round_float p q - q\<bar> = \<bar>of_int (round_half_even (q / ?u)) - q / ?u\<bar> * ?u"
    by (simp add: abs_mult)
  also have "\<dots> \<le> 1 / 2 * ?u"
    using round_half_even_near u by (intro mult_right_mono) auto
  finally show ?thesis by simp
qed

text \<open>
  A value that is a multiple of the unit in the last place of \<open>q\<close> is not crossed by rounding.
\<close>

lemma round_float_ge:
  assumes "0 < q" "r = of_int m * 2 powi (floor_log2 q - int (p - 1))" "r \<le> q"
  shows "r \<le> round_float p q"
proof -
  let ?u = "2 powi (floor_log2 q - int (p - 1)) :: rat"
  have u: "0 < ?u" by simp
  have "of_int m \<le> q / ?u" using assms u by (simp add: field_simps)
  then have "m \<le> round_half_even (q / ?u)" by (rule round_half_even_ge)
  then have "of_int m * ?u \<le> of_int (round_half_even (q / ?u)) * ?u"
    using u by (intro mult_right_mono) auto
  with assms show ?thesis by (simp add: round_float_def Let_def)
qed

lemma floor_log2_eqI:
  assumes "2 powi k \<le> q" "q < 2 powi (k + 1)"
  shows "floor_log2 q = k"
proof -
  have "0 < q" using assms(1) by (metis order_less_le_trans zero_less_numeral zero_less_power_int)
  note b = floor_log2_bounds [OF this]
  have mono: "m < n" if "(2::rat) powi m < 2 powi n" for m n
    using that power_int_increasing [of n m "2::rat"] by force
  have "floor_log2 q < k + 1" "k < floor_log2 q + 1"
    by (rule mono, use assms b in linarith)+
  then show ?thesis by simp
qed

text \<open>Integers that fit the mantissa are exact.\<close>

lemma round_float_of_int:
  assumes "0 < n" "n < 2 ^ p"
  shows "round_float p (of_int n) = of_int n"
proof -
  let ?q = "of_int n :: rat"
  let ?l = "floor_log2 ?q"
  have p: "0 < p" using assms by (cases p) auto
  have q: "1 \<le> ?q" "?q < 2 ^ p"
    using assms by (simp, metis of_int_less_iff of_int_numeral of_int_power)
  note b = floor_log2_bounds [of ?q]
  have "(2::rat) powi int p = 2 ^ p" by (simp add: power_int_def)
  with b(1) q have "2 powi ?l < (2::rat) powi int p" by linarith
  then have l: "?l < int p" using power_int_increasing [of "int p" ?l "2::rat"] by force
  define k where "k = nat (int p - 1 - ?l)"
  have u: "2 powi (?l - int (p - 1)) = (1 / 2 ^ k :: rat)"
    using l p by (simp add: k_def power_int_def of_nat_diff nat_diff_distrib field_simps)
  have "?q / (1 / 2 ^ k) = of_int (n * 2 ^ k)" by simp
  then have r: "round_half_even (?q / (1 / 2 ^ k)) = n * 2 ^ k"
    by (metis round_half_even_int)
  have a: "\<bar>?q\<bar> = ?q" "sgn ?q = 1" "(?q = 0) = False" using q by auto
  show ?thesis
    by (simp only: round_float_def Let_def a u r if_False) simp
qed

text \<open>Rounding does not cross an integer that fits the mantissa.\<close>

lemma round_float_ge_int:
  assumes "0 < n" "n < 2 ^ p" "of_int n \<le> q"
  shows "of_int n \<le> round_float p q"
proof -
  have q: "0 < q" using assms(1,3) by (metis of_int_0_less_iff order_less_le_trans)
  have p: "0 < p" using assms by (cases p) auto
  let ?l = "floor_log2 q"
  show ?thesis
  proof (cases "?l < int p")
    case True
    define k where "k = nat (int p - 1 - ?l)"
    have u: "2 powi (?l - int (p - 1)) = (1 / 2 ^ k :: rat)"
      using True p by (simp add: k_def power_int_def of_nat_diff nat_diff_distrib field_simps)
    show ?thesis
      by (rule round_float_ge [where m = "n * 2 ^ k", OF q _ assms(3)], unfold u) simp
  next
    case False
    have "(2::rat) powi ?l = 2 powi (int (p - 1) + (?l - int (p - 1)))" by simp
    also have "\<dots> = 2 powi int (p - 1) * 2 powi (?l - int (p - 1))"
      by (rule power_int_add) simp
    finally have "2 powi ?l = (of_int (2 ^ (p - 1)) :: rat) * 2 powi (?l - int (p - 1))" by simp
    then have "2 powi ?l \<le> round_float p q"
      by (rule round_float_ge [OF q]) (rule floor_log2_bounds(1) [OF q])
    moreover have "(2::rat) powi int p \<le> 2 powi ?l"
      using False by (intro power_int_increasing) auto
    moreover have "of_int n < (2::rat) powi int p"
      using assms(2) by (metis of_int_less_iff of_int_numeral of_int_power power_int_of_nat)
    ultimately show ?thesis by linarith
  qed
qed

text \<open>A value rounded up to \<open>c\<close> was at most half a unit below it.\<close>

lemma round_float_geD:
  assumes "0 \<le> q" "c \<le> round_float p q" "0 < c" "c < 2 powi (k + 1)"
  shows "c - 2 powi (k - int (p - 1)) / 2 \<le> q"
proof (cases "c \<le> q")
  case True
  have "(0::rat) < 2 powi (k - int (p - 1))" by simp
  with True show ?thesis by linarith
next
  case False
  have "q \<noteq> 0" using assms by (auto simp: round_float_def)
  with assms(1) have q: "0 < q" by simp
  have "2 powi floor_log2 q < (2::rat) powi (k + 1)"
    using floor_log2_bounds(1) [OF q] False assms(4) by linarith
  then have "floor_log2 q \<le> k"
    using power_int_increasing [of "k + 1" "floor_log2 q" "2::rat"] by force
  then have "(2::rat) powi (floor_log2 q - int (p - 1)) \<le> 2 powi (k - int (p - 1))"
    by (intro power_int_increasing) auto
  with round_float_near [OF q, of p] assms(2) show ?thesis by linarith
qed

section \<open>Decimals\<close>

text \<open>
  The functions of \<open>shopspring/decimal\<close> the code calls, as arguments: a decimal is the rational
  it denotes.
\<close>

record decimal_lib =
  dec_NewFromString :: "string \<Rightarrow> goerr + rat"
  dec_NewFromBigInt :: "int \<Rightarrow> int \<Rightarrow> rat"
  dec_NewFromFloat :: "rat \<Rightarrow> rat"
  dec_NewFromInt :: "int \<Rightarrow> rat"
  dec_Shift :: "rat \<Rightarrow> int \<Rightarrow> rat"
  dec_Mul :: "rat \<Rightarrow> rat \<Rightarrow> rat"
  dec_Div :: "rat \<Rightarrow> rat \<Rightarrow> rat"
  dec_LessThan :: "rat \<Rightarrow> rat \<Rightarrow> bool"
  dec_IntPart :: "rat \<Rightarrow> 64 word"
  dec_Float64 :: "rat \<Rightarrow> rat"

text \<open>
  What the package documents of them: conversions from integers, shifts and products are exact,
  \<open>Div\<close> rounds to the nearest multiple of \<open>10 ^ -16\<close> (\<open>DivisionPrecision\<close>), \<open>Float64\<close> to the
  nearest double, and \<open>LessThan\<close> compares.
\<close>

definition decimal_laws :: "decimal_lib \<Rightarrow> bool" where
  "decimal_laws D \<longleftrightarrow>
     (\<forall>n. dec_NewFromInt D n = of_int n) \<and>
     (\<forall>n e. dec_NewFromBigInt D n e = of_int n * 10 powi e) \<and>
     (\<forall>d e. dec_Shift D d e = d * 10 powi e) \<and>
     (\<forall>a b. dec_Mul D a b = a * b) \<and>
     (\<forall>a b. b \<noteq> 0 \<longrightarrow> (\<exists>k. dec_Div D a b = of_int k / 10 ^ 16 \<and>
        \<bar>of_int k / 10 ^ 16 - a / b\<bar> \<le> 1 / (2 * 10 ^ 16))) \<and>
     (\<forall>d. dec_Float64 D d = round_float 53 d) \<and>
     (\<forall>a b. dec_LessThan D a b \<longleftrightarrow> a < b)"

lemma decimal_laws_Div:
  assumes "decimal_laws D" "b \<noteq> 0"
  obtains k where "dec_Div D a b = of_int k / 10 ^ 16"
    "\<bar>of_int k / 10 ^ 16 - a / b\<bar> \<le> 1 / (2 * 10 ^ 16)"
  using assms unfolding decimal_laws_def by blast

lemma decimal_laws_eq:
  assumes "decimal_laws D"
  shows "dec_NewFromBigInt D n e = of_int n * 10 powi e" "dec_Mul D a b = a * b" "dec_LessThan D a b \<longleftrightarrow> a < b"
proof -
  note laws = assms [unfolded decimal_laws_def]
  show "dec_NewFromBigInt D n e = of_int n * 10 powi e" using laws [THEN conjunct2, THEN conjunct1] by (elim allE)
  show "dec_Mul D a b = a * b"
    using laws [THEN conjunct2, THEN conjunct2, THEN conjunct2, THEN conjunct1] by (elim allE)
  show "dec_LessThan D a b \<longleftrightarrow> a < b"
    using laws [THEN conjunct2, THEN conjunct2, THEN conjunct2, THEN conjunct2, THEN conjunct2, THEN conjunct2]
    by (elim allE)
qed

text \<open>An instance that computes, for concrete runs. It reads non-negative integers only.\<close>

definition digit :: "char \<Rightarrow> int option" where
  "digit c = (let n = of_char c :: int in if 48 \<le> n \<and> n \<le> 57 then Some (n - 48) else None)"

fun read_digits :: "int \<Rightarrow> string \<Rightarrow> int option" where
  "read_digits acc [] = Some acc"
| "read_digits acc (c # cs) = (case digit c of None \<Rightarrow> None | Some d \<Rightarrow> read_digits (10 * acc + d) cs)"

definition exact_decimals :: decimal_lib where
  "exact_decimals =
     \<lparr>dec_NewFromString = (\<lambda>s. case read_digits 0 s of
        None \<Rightarrow> Inl (ErrorNew ''can't convert to decimal'') | Some n \<Rightarrow> Inr (of_int n)),
      dec_NewFromBigInt = (\<lambda>n e. of_int n * 10 powi e), dec_NewFromFloat = (\<lambda>q. q),
      dec_NewFromInt = of_int, dec_Shift = (\<lambda>d e. d * 10 powi e), dec_Mul = (*),
      dec_Div = (\<lambda>a b. of_int (round_half_even (a / b * 10 ^ 16)) / 10 ^ 16),
      dec_LessThan = (<), dec_IntPart = (\<lambda>d. word_of_int (trunc_rat d)),
      dec_Float64 = round_float 53\<rparr>"

lemma exact_decimals_laws: "decimal_laws exact_decimals"
proof -
  have "\<bar>of_int (round_half_even (a / b * 10 ^ 16)) / 10 ^ 16 - a / b\<bar> \<le> (1 / (2 * 10 ^ 16) :: rat)"
    for a b :: rat
  proof -
    let ?r = "of_int (round_half_even (a / b * 10 ^ 16)) :: rat"
    have "?r / 10 ^ 16 - a / b = (?r - a / b * 10 ^ 16) / 10 ^ 16" by (simp add: field_simps)
    then have "\<bar>?r / 10 ^ 16 - a / b\<bar> = \<bar>?r - a / b * 10 ^ 16\<bar> / 10 ^ 16"
      by (simp only: abs_divide) simp
    also have "\<dots> \<le> (1 / 2) / 10 ^ 16"
      by (rule divide_right_mono [OF round_half_even_near]) simp
    finally show ?thesis by simp
  qed
  then show ?thesis by (auto simp: decimal_laws_def exact_decimals_def)
qed

section \<open>String helpers of the standard library\<close>

definition is_space :: "char \<Rightarrow> bool" where
  "is_space c \<longleftrightarrow> of_char c \<in> {9, 10, 11, 12, 13, 32 :: nat}"

definition TrimSpace :: "string \<Rightarrow> string" where
  "TrimSpace s = rev (dropWhile is_space (rev (dropWhile is_space s)))"

definition lower_char :: "char \<Rightarrow> char" where
  "lower_char c = (if 65 \<le> (of_char c :: nat) \<and> (of_char c :: nat) \<le> 90
     then char_of ((of_char c :: nat) + 32) else c)"

definition ToLower :: "string \<Rightarrow> string" where
  "ToLower s = map lower_char s"

definition TrimSuffix :: "string \<Rightarrow> string \<Rightarrow> string" where
  "TrimSuffix s p = (if has_suffix s p then take (length s - length p) s else s)"

definition TrimPrefix :: "string \<Rightarrow> string \<Rightarrow> string" where
  "TrimPrefix s p = (if has_prefix s p then drop (length p) s else s)"

end
