(* ===== verification/Committer.thy ===== *)
theory Committer
  imports World GoFloat
begin

text \<open>
  \<open>orchestrator/ethereum/committer\<close> and \<open>orchestrator/ethereum/provider\<close>: options, the maximal gas
  price, and \<open>SendTx\<close>, which prices, signs and submits a transaction under the account's nonce
  guard. The Ethereum client and the signer are arguments. The submission loop has no bound in
  the source: it runs on fuel here, \<open>Diverge\<close> being "has not returned yet", and the lemmas say
  when a small amount of fuel is enough and when no amount is.
\<close>

section \<open>Options\<close>

record options =
  op_GasPrice :: rat
  op_GasLimit :: u64
  op_RPCTimeout :: int

type_synonym EVMCommitterOption = "options \<Rightarrow> goerr + options"

definition second :: int where
  "second = 1000000000"

text \<open>The value of the constant \<open>decimal.NewFromString("20")\<close>, whose error is dropped, is an argument.\<close>

definition defaultOptions :: "decimal_lib \<Rightarrow> rat \<Rightarrow> options" where
  "defaultOptions D v =
     \<lparr>op_GasPrice = dec_Shift D v 9, op_GasLimit = 1000000, op_RPCTimeout = 10 * second\<rparr>"

fun applyOptions :: "options \<Rightarrow> EVMCommitterOption list \<Rightarrow> goerr + options" where
  "applyOptions o1 [] = Inr o1"
| "applyOptions o1 (oo # opts) = (case oo o1 of
      Inl e \<Rightarrow> Inl (Wrapped ''failed to apply option to EVMCommitter'' e)
    | Inr o2 \<Rightarrow> applyOptions o2 opts)"

definition OptionGasPriceFromString :: "decimal_lib \<Rightarrow> string \<Rightarrow> EVMCommitterOption" where
  "OptionGasPriceFromString D str = (\<lambda>o1. case dec_NewFromString D str of
      Inl e \<Rightarrow> Inl (Wrapped ''unable to parse gas price from string to decimal'' e)
    | Inr gasPrice \<Rightarrow> Inr (o1\<lparr>op_GasPrice := gasPrice\<rparr>))"

definition OptionGasPriceFromDecimal :: "rat \<Rightarrow> EVMCommitterOption" where
  "OptionGasPriceFromDecimal gasPrice = (\<lambda>o1. Inr (o1\<lparr>op_GasPrice := gasPrice\<rparr>))"

definition OptionGasPriceFromBigInt :: "decimal_lib \<Rightarrow> int \<Rightarrow> EVMCommitterOption" where
  "OptionGasPriceFromBigInt D i = (\<lambda>o1. Inr (o1\<lparr>op_GasPrice := dec_NewFromBigInt D i 0\<rparr>))"

definition OptionGasLimit :: "u64 \<Rightarrow> EVMCommitterOption" where
  "OptionGasLimit limit = (\<lambda>o1. Inr (o1\<lparr>op_GasLimit := limit\<rparr>))"

definition TxBroadcastTimeout :: "int \<Rightarrow> EVMCommitterOption" where
  "TxBroadcastTimeout dur = (\<lambda>o1. Inr (o1\<lparr>op_RPCTimeout := dur\<rparr>))"

definition ParseMaxGasPrice :: "decimal_lib \<Rightarrow> string \<Rightarrow> i64 res" where
  "ParseMaxGasPrice D str0 =
     (let str1 = ToLower (TrimSpace str0);
          isGwei = has_suffix str1 ''gwei'';
          str2 = TrimSpace (if isGwei then TrimSuffix str1 ''gwei'' else str1)
      in (case dec_NewFromString D str2 of
            Inl e \<Rightarrow> Panic (Wrapped ''unable to parse max gas price. max_gas_price should be in gwei'' e)
          | Inr maxGasPrice \<Rightarrow>
              Ok (dec_IntPart D (if isGwei then dec_Shift D maxGasPrice 9 else maxGasPrice))))"

section \<open>The provider\<close>

record signed_tx =
  st_Tx :: eth_tx
  st_Sig :: bytes

record call_msg =
  cm_From :: address
  cm_To :: address
  cm_GasPrice :: int
  cm_Value :: int
  cm_Data :: bytes

text \<open>The calls of the Ethereum client, and the RLP encoder.\<close>

record 'e evm_client =
  SuggestGasPrice :: "('e, int) libfun"
  EstimateGas :: "call_msg \<Rightarrow> ('e, u64) libfun"
  PendingNonceAt :: "address \<Rightarrow> ('e, u64) libfun"
  rlp_EncodeToBytes :: "signed_tx \<Rightarrow> goerr + bytes"
  eth_sendRawTransaction :: "bytes \<Rightarrow> ('e, hash) libfun"

text \<open>
  \<open>provider.SendTransactionWithRet\<close>. The submission is recorded with the node's verdict; a
  transaction that cannot be encoded never reaches the node.
\<close>

definition SendTransactionWithRet :: "'e evm_client \<Rightarrow> signed_tx \<Rightarrow> ('e world, hash) io" where
  "SendTransactionWithRet p tx = (\<lambda>w. case rlp_EncodeToBytes p tx of
      Inl e \<Rightarrow> (Err e, w)
    | Inr data \<Rightarrow> (case lib (eth_sendRawTransaction p data) w of
          (Ok h, w') \<Rightarrow> (Ok h, w'\<lparr>submitted := submitted w' @ [(st_Tx tx, True)]\<rparr>)
        | (r, w') \<Rightarrow> (r, w'\<lparr>submitted := submitted w' @ [(st_Tx tx, False)]\<rparr>)))"

section \<open>The committer\<close>

text \<open>A \<open>bind.SignerFn\<close> may be nil; calling it then panics.\<close>

type_synonym SignerFn = "(address \<Rightarrow> eth_tx \<Rightarrow> goerr + signed_tx) option"

record 'e ethCommitter =
  committerOpts :: options
  fromAddress :: address
  fromSigner :: SignerFn
  ethGasPriceAdjustment :: rat
  ethMaxGasPrice :: i64
  evmProvider :: "'e evm_client"

text \<open>\<open>resyncNonces\<close>, and the synchronisation done by the constructor.\<close>

definition resyncNonces :: "'e ethCommitter \<Rightarrow> address \<Rightarrow> ('e world, unit) io" where
  "resyncNonces c from = bindE (attempt (lib (PendingNonceAt (evmProvider c) from)))
     (\<lambda>r. with_cache (\<lambda>n. ((), nc_Sync from r n)))"

definition NewEthCommitter ::
  "decimal_lib \<Rightarrow> rat \<Rightarrow> address \<Rightarrow> rat \<Rightarrow> string \<Rightarrow> SignerFn \<Rightarrow> 'e evm_client \<Rightarrow>
     EVMCommitterOption list \<Rightarrow> ('e world, 'e ethCommitter) io" where
  "NewEthCommitter D v from adjustment maxGasPrice signer provider opts =
     (case ParseMaxGasPrice D maxGasPrice of
        Ok maxPrice \<Rightarrow>
          (case applyOptions (defaultOptions D v) opts of
             Inl e \<Rightarrow> throw e
           | Inr o1 \<Rightarrow>
               (let c = \<lparr>committerOpts = o1, fromAddress = from, fromSigner = signer,
                         ethGasPriceAdjustment = adjustment, ethMaxGasPrice = maxPrice,
                         evmProvider = provider\<rparr>
                in bindE (with_cache (\<lambda>_. ((), NewNonceCache)))
                     (\<lambda>_. bindE (resyncNonces c from) (\<lambda>_. ret c))))
      | Panic e \<Rightarrow> panic e | Err e \<Rightarrow> throw e | Exit \<Rightarrow> fatal | Diverge \<Rightarrow> (\<lambda>w. (Diverge, w)))"

text \<open>
  \<open>big.NewFloat(0).Mul(suggested, adjustment)\<close> is rounded to the receiver's 53 bits, then
  truncated to an integer.
\<close>

definition adjustedGasPrice :: "int \<Rightarrow> rat \<Rightarrow> int" where
  "adjustedGasPrice suggested adjustment = trunc_rat (round_float 53 (of_int suggested * adjustment))"

definition nonce_error :: "string \<Rightarrow> bool" where
  "nonce_error s \<longleftrightarrow> contains_str s ''nonce too low'' \<or> contains_str s ''nonce too high'' \<or>
     contains_str s ''the tx doesn't have the correct nonce''"

text \<open>
  The loop inside \<open>Serialize\<close>. \<open>nonce\<close> and \<open>resyncUsed\<close> are its variables; in the
  "known transaction" branch the source assigns the incremented nonce to a variable of the
  inner block, so the loop goes on with the nonce it had.
\<close>

fun send_loop ::
  "'e ethCommitter \<Rightarrow> address \<Rightarrow> u64 \<Rightarrow> int \<Rightarrow> bytes \<Rightarrow> nat \<Rightarrow> i64 \<Rightarrow> bool \<Rightarrow> ('e world, hash) io" where
  "send_loop c recipient gasLimit gasPrice txData 0 nonce resyncUsed = (\<lambda>w. (Diverge, w))"
| "send_loop c recipient gasLimit gasPrice txData (Suc fuel) nonce resyncUsed =
     (let tx = \<lparr>et_Nonce = big_Uint64 (sint nonce), et_To = recipient, et_GasLimit = gasLimit,
                et_GasPrice = gasPrice, et_Data = txData\<rparr>
      in (case fromSigner c of
        None \<Rightarrow> panic (ErrorNew ''nil pointer dereference'')
      | Some signer \<Rightarrow> (case signer (fromAddress c) tx of
          Inl e \<Rightarrow> throw (Wrapped ''failed to sign transaction'' e)
        | Inr signedTx \<Rightarrow>
            bindE (attempt (SendTransactionWithRet (evmProvider c) signedTx)) (\<lambda>r. case r of
              Inr txHashRet \<Rightarrow> bindE (with_cache (nc_Incr (fromAddress c))) (\<lambda>_. ret txHashRet)
            | Inl err \<Rightarrow>
                (if contains_str (err_text err) ''invalid sender'' then
                   bindE (with_cache (nc_Incr (fromAddress c)))
                     (\<lambda>_. throw (ErrorNew ''failed to sign transaction''))
                 else if nonce_error (err_text err) then
                   (if resyncUsed then throw (Wrapped ''nonce mismatch'' err)
                    else bindE (resyncNonces c (fromAddress c)) (\<lambda>_.
                         bindE (with_cache (nc_Get (fromAddress c))) (\<lambda>(nonce', _).
                         send_loop c recipient gasLimit gasPrice txData fuel nonce' True)))
                 else if contains_str (err_text err) ''known transaction'' then
                   bindE (with_cache (nc_Incr (fromAddress c))) (\<lambda>_.
                     send_loop c recipient gasLimit gasPrice txData fuel nonce resyncUsed)
                 else if contains_str (err_text err) ''VM Exception'' then
                   bindE (with_cache (nc_Incr (fromAddress c))) (\<lambda>_. throw err)
                 else throw err)))))"

declare send_loop.simps(2) [simp del]

definition upd_cache :: "(nonceCache \<Rightarrow> nonceCache) \<Rightarrow> 'e world \<Rightarrow> 'e world" where
  "upd_cache f w = w\<lparr>cache := f (cache w)\<rparr>"

definition SendTx ::
  "nat \<Rightarrow> 'e ethCommitter \<Rightarrow> address \<Rightarrow> bytes \<Rightarrow> ('e world, hash) io" where
  "SendTx fuel c recipient txData =
     bindE (wrapE ''failed to suggest gas price'' (lib (SuggestGasPrice (evmProvider c))))
       (\<lambda>suggestedGasPrice.
     (let gasPrice = adjustedGasPrice suggestedGasPrice (ethGasPriceAdjustment c);
          maxGasPrice = sint (ethMaxGasPrice c)
      in if gasPrice > maxGasPrice then
           throw (ErrorNew ''Suggested gas price is greater than max gas price'')
         else
           (let msg = \<lparr>cm_From = fromAddress c, cm_To = recipient, cm_GasPrice = gasPrice,
                       cm_Value = 0, cm_Data = txData\<rparr>
            in bindE (wrapE ''failed to estimate gas'' (lib (EstimateGas (evmProvider c) msg)))
                 (\<lambda>gasLimit. nc_Serialize upd_cache (fromAddress c)
                    (bindE (with_cache (nc_Get (fromAddress c))) (\<lambda>(nonce, _).
                       send_loop c recipient gasLimit gasPrice txData fuel nonce False))))))"

section \<open>What is submitted\<close>

text \<open>The transactions submitted by a step all satisfy \<open>Q\<close>.\<close>

definition submits :: "(eth_tx \<Rightarrow> bool) \<Rightarrow> 'e world \<Rightarrow> 'e world \<Rightarrow> bool" where
  "submits Q w w' \<longleftrightarrow>
     (\<exists>xs. submitted w' = submitted w @ xs \<and> (\<forall>x \<in> set xs. Q (fst x)))"

interpretation submits: frame "submits Q" for Q
proof
  show "submits Q w w" for w :: "'e world" by (simp add: submits_def)
  show "submits Q w w''" if "submits Q w w'" "submits Q w' w''" for w w' w'' :: "'e world"
    using that by (auto simp: submits_def)
qed

lemma same_submitted_submits: "keeps same_submitted m \<Longrightarrow> keeps (submits Q) m"
  by (auto simp: keeps_def same_submitted_def submits_def)

lemma SendTransactionWithRet_submits:
  "Q (st_Tx tx) \<Longrightarrow> keeps (submits Q) (SendTransactionWithRet p tx)"
  by (rule keepsI)
    (auto simp: SendTransactionWithRet_def submits_def io_simps split: sum.splits prod.splits)

text \<open>Signing changes nothing of the transaction: the documented behaviour of a \<open>bind.SignerFn\<close>.\<close>

definition signer_faithful :: "SignerFn \<Rightarrow> bool" where
  "signer_faithful s \<longleftrightarrow>
     (\<forall>f from tx stx. s = Some f \<longrightarrow> f from tx = Inr stx \<longrightarrow> st_Tx stx = tx)"

lemma resyncNonces_same_submitted: "keeps same_submitted (resyncNonces c a)"
  unfolding resyncNonces_def
  by (intro same_submitted.keeps_rules lib_keeps with_cache_keeps)

lemmas committer_keeps = resyncNonces_same_submitted [THEN same_submitted_submits]
  lib_keeps(2) [THEN same_submitted_submits] with_cache_keeps(2) [THEN same_submitted_submits]

lemma send_loop_submits:
  assumes "signer_faithful (fromSigner c)"
    and "\<And>n. Q \<lparr>et_Nonce = n, et_To = recipient, et_GasLimit = gasLimit, et_GasPrice = gasPrice,
                et_Data = txData\<rparr>"
  shows "keeps (submits Q) (send_loop c recipient gasLimit gasPrice txData fuel nonce resyncUsed)"
proof (induction fuel arbitrary: nonce resyncUsed)
  case 0
  then show ?case by (rule keepsI) (simp add: submits.P_refl)
next
  case (Suc fuel)
  have Q: "Q (st_Tx stx)" if "fromSigner c = Some f"
    "f a \<lparr>et_Nonce = n, et_To = recipient, et_GasLimit = gasLimit, et_GasPrice = gasPrice,
          et_Data = txData\<rparr> = Inr stx" for f a n stx
    using assms that by (metis signer_faithful_def)
  show ?case
    unfolding send_loop.simps Let_def
    by (intro submits.keeps_rules committer_keeps Suc SendTransactionWithRet_submits Q) assumption+
qed

lemma Serialize_submits:
  assumes "keeps (submits Q) m"
  shows "keeps (submits Q) (nc_Serialize upd_cache a m)"
proof (rule keepsI)
  fix w r w'
  assume "nc_Serialize upd_cache a m w = (r, w')"
  then have "submits Q (upd_cache (\<lambda>n. n\<lparr>guard := insert a (guard n)\<rparr>) w) w'"
    unfolding nc_Serialize_def by (rule keepsD [OF assms])
  then show "submits Q w w'" by (simp add: submits_def upd_cache_def)
qed

lemma SendTx_keeps_submits:
  assumes "signer_faithful (fromSigner c)"
  shows "keeps (submits (\<lambda>tx. et_To tx = recipient \<and> et_Data tx = txData \<and>
           et_GasPrice tx \<le> sint (ethMaxGasPrice c))) (SendTx fuel c recipient txData)"
proof -
  let ?Q = "\<lambda>tx. et_To tx = recipient \<and> et_Data tx = txData \<and>
    et_GasPrice tx \<le> sint (ethMaxGasPrice c)"
  show ?thesis
    unfolding SendTx_def Let_def
    by (intro submits.keeps_rules committer_keeps Serialize_submits send_loop_submits [OF assms]) auto
qed

section \<open>Properties\<close>

text \<open>C14. Whatever the node answers and however the call ends, every transaction \<open>SendTx\<close> submits goes
  to the given recipient with the given data, and its gas price does not exceed the configured
  maximum.\<close>

theorem SendTx_gas_price_capped:
  assumes "signer_faithful (fromSigner c)"
    and "SendTx fuel c recipient txData w = (r, w')"
  shows "\<exists>xs. submitted w' = submitted w @ xs \<and>
    (\<forall>(tx, ok) \<in> set xs. et_To tx = recipient \<and> et_Data tx = txData \<and>
       et_GasPrice tx \<le> sint (ethMaxGasPrice c))"
  using keepsD [OF SendTx_keeps_submits [OF assms(1)] assms(2)]
  by (auto simp: submits_def case_prod_beta)

text \<open>A node that accepts, and one that objects to the nonce, for the witnesses.\<close>

definition plain_signer :: SignerFn where
  "plain_signer = Some (\<lambda>from tx. Inr \<lparr>st_Tx = tx, st_Sig = []\<rparr>)"

lemma plain_signer_faithful: "signer_faithful plain_signer"
  by (simp add: signer_faithful_def plain_signer_def)

definition sample_client :: "(nat \<Rightarrow> goerr + hash) \<Rightarrow> nat evm_client" where
  "sample_client answer =
     \<lparr>SuggestGasPrice = (\<lambda>k. (Inr 100, k)), EstimateGas = (\<lambda>_ k. (Inr 21000, k)),
      PendingNonceAt = (\<lambda>_ k. (Inr 7, k)), rlp_EncodeToBytes = (\<lambda>stx. Inr (et_Data (st_Tx stx))),
      eth_sendRawTransaction = (\<lambda>_ k. (answer k, Suc k))\<rparr>"

definition sample_committer :: "(nat \<Rightarrow> goerr + hash) \<Rightarrow> nat ethCommitter" where
  "sample_committer answer =
     \<lparr>committerOpts = \<lparr>op_GasPrice = 20, op_GasLimit = 1000000, op_RPCTimeout = 10\<rparr>,
      fromAddress = 1, fromSigner = plain_signer, ethGasPriceAdjustment = 3 / 2,
      ethMaxGasPrice = 500, evmProvider = sample_client answer\<rparr>"

definition sample_world :: "'e \<Rightarrow> 'e world" where
  "sample_world e = \<lparr>outside = e, cache = NewNonceCache, pendingTxInputList = [],
     broadcasts = [], submitted = []\<rparr>"

lemmas sample_defs = sample_client_def sample_committer_def sample_world_def plain_signer_def
  NewNonceCache_def

text \<open>The rounding is exact on the sample price.\<close>

lemma sample_price: "adjustedGasPrice 100 (3 / 2) = 150"
  using round_float_of_int [of 150 53] by (simp add: adjustedGasPrice_def trunc_rat_def)

lemma sample_send:
  "SendTx (Suc n) (sample_committer answer) 5 [1] (sample_world k) =
     send_loop (sample_committer answer) 5 21000 150 [1] (Suc n) 0 False
       (sample_world k\<lparr>cache := \<lparr>nonces = [1 \<mapsto> 0], locks = {1}, guard = {1}\<rparr>\<rparr>)"
  by (simp add: SendTx_def sample_defs io_simps Let_def sample_price nc_Serialize_def upd_cache_def
      nonce_cache_defs)

theorem SendTx_gas_price_capped_witness:
  "\<exists>w'. SendTx 2 (sample_committer (\<lambda>_. Inr 9)) 5 [1] (sample_world 0) = (Ok 9, w') \<and>
     (\<exists>xs. submitted w' = submitted (sample_world (0::nat)) @ xs \<and>
        (\<forall>(tx, ok) \<in> set xs. et_To tx = 5 \<and> et_Data tx = [1] \<and> et_GasPrice tx \<le> 500))"
proof -
  let ?c = "sample_committer (\<lambda>_. Inr 9)"
  obtain w' where run: "SendTx 2 ?c 5 [1] (sample_world 0) = (Ok 9, w')"
    unfolding numeral_2_eq_2 sample_send
    by (simp add: send_loop.simps(2) sample_defs io_simps SendTransactionWithRet_def nonce_cache_defs)
  have "signer_faithful (fromSigner ?c)" "ethMaxGasPrice ?c = 500"
    by (simp_all add: sample_committer_def plain_signer_faithful)
  with SendTx_gas_price_capped [OF this(1) run] run show ?thesis by auto
qed

subsection \<open>The nonce used, and what the cache holds afterwards\<close>

text \<open>The steps before the loop, for a node that quotes an acceptable price.\<close>

lemma SendTx_priced:
  assumes "SuggestGasPrice (evmProvider c) (outside w) = (Inr g, o1)"
    and "adjustedGasPrice g (ethGasPriceAdjustment c) = price" "price \<le> sint (ethMaxGasPrice c)"
    and "EstimateGas (evmProvider c) \<lparr>cm_From = fromAddress c, cm_To = recipient,
           cm_GasPrice = price, cm_Value = 0, cm_Data = txData\<rparr> o1 = (Inr gasLimit, o2)"
  obtains w1 where
    "SendTx fuel c recipient txData w = send_loop c recipient gasLimit price txData fuel
        (nonce_of (cache w) (fromAddress c)) False w1"
    "outside w1 = o2" "submitted w1 = submitted w" "nonce_of (cache w1) = nonce_of (cache w)"
proof -
  let ?g = "\<lambda>n. n\<lparr>guard := insert (fromAddress c) (guard n)\<rparr>"
  obtain v b n1 where get: "nc_Get (fromAddress c) (?g (cache w)) = ((v, b), n1)"
    by (metis prod.collapse)
  have guard: "nonce_of (?g (cache w)) = nonce_of (cache w)" by (simp add: nonce_of_def fun_eq_iff)
  have "v = nonce_of (cache w) (fromAddress c)" "nonce_of n1 = nonce_of (cache w)"
    using get guard nc.get_value [of "fromAddress c" "?g (cache w)"]
      nc.get_current [of "fromAddress c" "?g (cache w)"] by simp_all
  with assms get show thesis
    by (intro that [of "w\<lparr>outside := o2, cache := n1\<rparr>"])
      (simp_all add: SendTx_def io_simps Let_def nc_Serialize_def upd_cache_def)
qed

text \<open>C25. When the node accepts the first submission, exactly one transaction is submitted, under the
  cached nonce, the node's hash is returned, and the cached nonce of the account is one higher while
  those of other accounts are unchanged.\<close>

theorem SendTx_accepted:
  assumes "SuggestGasPrice (evmProvider c) (outside w) = (Inr g, o1)"
    and "adjustedGasPrice g (ethGasPriceAdjustment c) \<le> sint (ethMaxGasPrice c)"
    and "EstimateGas (evmProvider c) \<lparr>cm_From = fromAddress c, cm_To = recipient,
           cm_GasPrice = adjustedGasPrice g (ethGasPriceAdjustment c), cm_Value = 0,
           cm_Data = txData\<rparr> o1 = (Inr gasLimit, o2)"
    and "fromSigner c = Some signer"
    and "tx = \<lparr>et_Nonce = big_Uint64 (sint (nonce_of (cache w) (fromAddress c))), et_To = recipient,
           et_GasLimit = gasLimit, et_GasPrice = adjustedGasPrice g (ethGasPriceAdjustment c),
           et_Data = txData\<rparr>"
    and "signer (fromAddress c) tx = Inr \<lparr>st_Tx = tx, st_Sig = sg\<rparr>"
    and "rlp_EncodeToBytes (evmProvider c) \<lparr>st_Tx = tx, st_Sig = sg\<rparr> = Inr data"
    and "eth_sendRawTransaction (evmProvider c) data o2 = (Inr h, o3)"
  shows "\<exists>w'. SendTx (Suc fuel) c recipient txData w = (Ok h, w') \<and>
    submitted w' = submitted w @ [(tx, True)] \<and>
    nonce_of (cache w') = (nonce_of (cache w))
       (fromAddress c := nonce_of (cache w) (fromAddress c) + 1)"
proof -
  obtain w1 where w1: "SendTx (Suc fuel) c recipient txData w =
      send_loop c recipient gasLimit (adjustedGasPrice g (ethGasPriceAdjustment c)) txData (Suc fuel)
        (nonce_of (cache w) (fromAddress c)) False w1"
    "outside w1 = o2" "submitted w1 = submitted w" "nonce_of (cache w1) = nonce_of (cache w)"
    using SendTx_priced [OF assms(1) refl assms(2,3), of "Suc fuel"] by blast
  let ?w' = "w1\<lparr>outside := o3, submitted := submitted w @ [(tx, True)],
    cache := snd (nc_Incr (fromAddress c) (cache w1))\<rparr>"
  have "SendTx (Suc fuel) c recipient txData w = (Ok h, ?w')"
    using w1 assms(4-)
    by (simp add: send_loop.simps(2) io_simps Let_def SendTransactionWithRet_def split: prod.splits)
  moreover have "nonce_of (cache ?w') = (nonce_of (cache w))
       (fromAddress c := nonce_of (cache w) (fromAddress c) + 1)"
    by (simp add: nc.incr_current w1)
  ultimately show ?thesis by (intro exI [of _ ?w']) simp
qed

theorem SendTx_accepted_witness:
  "\<exists>w'. SendTx (Suc 0) (sample_committer (\<lambda>_. Inr 9)) 5 [1] (sample_world 0) = (Ok 9, w') \<and>
     submitted w' = submitted (sample_world (0::nat)) @
       [(\<lparr>et_Nonce = 0, et_To = 5, et_GasLimit = 21000, et_GasPrice = 150, et_Data = [1]\<rparr>, True)] \<and>
     nonce_of (cache w') = (nonce_of (cache (sample_world (0::nat))))
       (1 := nonce_of (cache (sample_world (0::nat))) 1 + 1)"
  using SendTx_accepted [of "sample_committer (\<lambda>_. Inr 9)" "sample_world 0" 100 0 5 "[1]" 21000 0
      "\<lambda>from tx. Inr \<lparr>st_Tx = tx, st_Sig = []\<rparr>" _ "[]" "[1]" 9 1 0]
  by (simp add: sample_defs sample_price nonce_of_def big_Uint64_def)

subsection \<open>Rejected nonces\<close>

text \<open>One round of the loop, by what the submission came to.\<close>

lemma send_loop_rejected:
  assumes "fromSigner c = Some signer"
    and "tx = \<lparr>et_Nonce = big_Uint64 (sint nonce), et_To = recipient, et_GasLimit = gasLimit,
                et_GasPrice = gasPrice, et_Data = txData\<rparr>"
    and "signer (fromAddress c) tx = Inr stx"
    and "SendTransactionWithRet (evmProvider c) stx w = (Err err, w1)"
  shows "send_loop c recipient gasLimit gasPrice txData (Suc fuel) nonce resyncUsed w =
     (if contains_str (err_text err) ''invalid sender'' then
        (Err (ErrorNew ''failed to sign transaction''),
         w1\<lparr>cache := snd (nc_Incr (fromAddress c) (cache w1))\<rparr>)
      else if nonce_error (err_text err) then
        (if resyncUsed then (Err (Wrapped ''nonce mismatch'' err), w1)
         else (case PendingNonceAt (evmProvider c) (fromAddress c) (outside w1) of (r, o2) \<Rightarrow>
           (let c1 = nc_Sync (fromAddress c) r (cache w1); g = nc_Get (fromAddress c) c1
            in send_loop c recipient gasLimit gasPrice txData fuel (fst (fst g)) True
                 (w1\<lparr>outside := o2, cache := snd g\<rparr>))))
      else if contains_str (err_text err) ''known transaction'' then
        send_loop c recipient gasLimit gasPrice txData fuel nonce resyncUsed
          (w1\<lparr>cache := snd (nc_Incr (fromAddress c) (cache w1))\<rparr>)
      else if contains_str (err_text err) ''VM Exception'' then
        (Err err, w1\<lparr>cache := snd (nc_Incr (fromAddress c) (cache w1))\<rparr>)
      else (Err err, w1))"
  using assms
  by (auto simp: send_loop.simps(2) io_simps Let_def resyncNonces_def split: prod.splits sum.splits)

text \<open>A submission the node rejects because of its nonce is followed by one synchronisation with
  the node: the next submission uses the pending nonce the node reports, and if that one is rejected
  for its nonce as well the call gives up, with the reported nonce left in the cache.\<close>

theorem send_loop_resync_once:
  assumes "fromSigner c = Some signer"
    and "\<And>tx. signer (fromAddress c) tx = Inr \<lparr>st_Tx = tx, st_Sig = []\<rparr>"
    and "\<And>stx. rlp_EncodeToBytes (evmProvider c) stx = Inr (enc stx)"
    and "\<And>d s. \<exists>s'. eth_sendRawTransaction (evmProvider c) d s = (Inl (rej d), s')"
    and "\<And>d. nonce_error (err_text (rej d)) \<and> \<not> contains_str (err_text (rej d)) ''invalid sender''"
    and "\<And>a s. \<exists>s'. PendingNonceAt (evmProvider c) a s = (Inr n, s')"
  shows "\<exists>e w'. send_loop c recipient gasLimit gasPrice txData (Suc (Suc fuel)) nonce False w = (Err e, w') \<and>
    map (et_Nonce \<circ> fst) (submitted w') = map (et_Nonce \<circ> fst) (submitted w) @
      [big_Uint64 (sint nonce), big_Uint64 (sint n)] \<and>
    nonce_of (cache w') = (nonce_of (cache w))(fromAddress c := n)"
proof -
  define tx where "tx k = \<lparr>et_Nonce = big_Uint64 (sint k), et_To = recipient,
    et_GasLimit = gasLimit, et_GasPrice = gasPrice, et_Data = txData\<rparr>" for k :: i64
  define stx where "stx k = \<lparr>st_Tx = tx k, st_Sig = []\<rparr>" for k
  have send: "\<exists>o'. SendTransactionWithRet (evmProvider c) (stx k) v =
      (Err (rej (enc (stx k))), v\<lparr>outside := o', submitted := submitted v @ [(tx k, False)]\<rparr>)" for k v
    using assms(3) assms(4) [of "enc (stx k)" "outside v"]
    by (auto simp: SendTransactionWithRet_def io_simps stx_def)
  obtain o1 where s1: "SendTransactionWithRet (evmProvider c) (stx nonce) w =
      (Err (rej (enc (stx nonce))), w\<lparr>outside := o1, submitted := submitted w @ [(tx nonce, False)]\<rparr>)"
    (is "_ = (_, ?w1)") using send by blast
  obtain o2 where p: "PendingNonceAt (evmProvider c) (fromAddress c) o1 = (Inr n, o2)"
    using assms(6) by blast
  let ?g = "nc_Get (fromAddress c) (nc_Sync (fromAddress c) (Inr n) (cache w))"
  let ?w2 = "?w1\<lparr>outside := o2, cache := snd ?g\<rparr>"
  have g: "fst (fst ?g) = n" by (rule nc.resync_get)
  have gc: "nonce_of (snd ?g) = (nonce_of (cache w))(fromAddress c := n)" by (simp add: nc.specs)
  obtain o3 where s2: "SendTransactionWithRet (evmProvider c) (stx n) ?w2 =
      (Err (rej (enc (stx n))), ?w2\<lparr>outside := o3, submitted := submitted ?w2 @ [(tx n, False)]\<rparr>)"
    using send by blast
  have sg: "signer (fromAddress c) (tx k) = Inr (stx k)" for k by (simp add: assms(2) stx_def)
  note round = send_loop_rejected [OF assms(1) tx_def sg]
  show ?thesis
    using round [OF s1, of "Suc fuel" False] round [OF s2, of fuel True] p g gc assms(5)
    by (simp add: Let_def tx_def)
qed

theorem send_loop_resync_once_witness:
  "\<exists>e w'. send_loop (sample_committer (\<lambda>_. Inl (ErrorNew ''nonce too low''))) 5 21000 150 [1]
      (Suc (Suc 0)) 3 False (sample_world 0) = (Err e, w') \<and>
    map (et_Nonce \<circ> fst) (submitted w') = map (et_Nonce \<circ> fst) (submitted (sample_world (0::nat))) @
      [big_Uint64 (sint (3::i64)), big_Uint64 (sint (7::i64))] \<and>
    nonce_of (cache w') = (nonce_of (cache (sample_world (0::nat))))(1 := 7)"
  using send_loop_resync_once [of "sample_committer (\<lambda>_. Inl (ErrorNew ''nonce too low''))"
      "\<lambda>from tx. Inr \<lparr>st_Tx = tx, st_Sig = []\<rparr>" "\<lambda>stx. et_Data (st_Tx stx)"
      "\<lambda>_. ErrorNew ''nonce too low''" 7 5 21000 150 "[1]" 0 3 "sample_world 0"]
  by (simp add: sample_committer_def sample_client_def plain_signer_def nonce_error_def)

subsection \<open>Termination\<close>

text \<open>The node never answers "known transaction", and neither does the encoder.\<close>

definition no_known_transaction :: "'e evm_client \<Rightarrow> bool" where
  "no_known_transaction p \<longleftrightarrow>
     (\<forall>d s e. fst (eth_sendRawTransaction p d s) = Inl e \<longrightarrow>
        \<not> contains_str (err_text e) ''known transaction'') \<and>
     (\<forall>stx e. rlp_EncodeToBytes p stx = Inl e \<longrightarrow>
        \<not> contains_str (err_text e) ''known transaction'')"

text \<open>One submission adds at most one record, and its error is one of the node's or the encoder's.\<close>

lemma SendTransactionWithRet_outcome:
  assumes "SendTransactionWithRet p stx w = (r, w')"
  shows "(\<exists>h. r = Ok h) \<or> (\<exists>e. r = Err e \<and>
      (no_known_transaction p \<longrightarrow> \<not> contains_str (err_text e) ''known transaction''))"
    and "length (submitted w') \<le> Suc (length (submitted w))"
  using assms
  by (auto simp: SendTransactionWithRet_def io_simps no_known_transaction_def
      split: sum.splits prod.splits) (metis fst_conv)+

lemma send_loop_bounded:
  assumes nk: "no_known_transaction (evmProvider c)"
    and enough: "(if resyncUsed then 1 else 2) \<le> fuel"
    and run: "send_loop c recipient gasLimit gasPrice txData fuel nonce resyncUsed w = (r, w')"
  shows "r \<noteq> Diverge \<and>
    length (submitted w') \<le> length (submitted w) + (if resyncUsed then 1 else 2)"
  using enough run
proof (induction fuel arbitrary: nonce resyncUsed w)
  case 0
  then show ?case by (simp split: if_splits)
next
  case (Suc fuel)
  let ?tx = "\<lparr>et_Nonce = big_Uint64 (sint nonce), et_To = recipient, et_GasLimit = gasLimit,
              et_GasPrice = gasPrice, et_Data = txData\<rparr>"
  show ?case
  proof (cases "\<exists>signer stx. fromSigner c = Some signer \<and> signer (fromAddress c) ?tx = Inr stx")
    case False
    then show ?thesis using Suc.prems
      by (auto simp: send_loop.simps(2) io_simps Let_def split: option.splits sum.splits)
  next
    case True
    then obtain signer stx where sg: "fromSigner c = Some signer" "signer (fromAddress c) ?tx = Inr stx"
      by blast
    obtain r1 w1 where s: "SendTransactionWithRet (evmProvider c) stx w = (r1, w1)" by fastforce
    note out = SendTransactionWithRet_outcome [OF s]
    show ?thesis
    proof (cases r1)
      case (Err e)
      note rej = send_loop_rejected [OF sg(1) refl sg(2) s [unfolded Err], of fuel resyncUsed]
      have nkn: "\<not> contains_str (err_text e) ''known transaction''" using out(1) nk Err by simp
      show ?thesis
      proof (cases "nonce_error (err_text e) \<and> \<not> resyncUsed \<and>
          \<not> contains_str (err_text e) ''invalid sender''")
        case True
        obtain r2 o2 where p:
          "PendingNonceAt (evmProvider c) (fromAddress c) (outside w1) = (r2, o2)" by fastforce
        let ?g = "nc_Get (fromAddress c) (nc_Sync (fromAddress c) r2 (cache w1))"
        have "send_loop c recipient gasLimit gasPrice txData fuel (fst (fst ?g)) True
            (w1\<lparr>outside := o2, cache := snd ?g\<rparr>) = (r, w')"
          using Suc.prems(2) rej p True by (simp add: Let_def)
        from Suc.IH [OF _ this] True Suc.prems(1) out(2) show ?thesis by simp
      next
        case False
        then show ?thesis using Suc.prems(2) rej nkn out(2) by (auto split: if_splits)
      qed
    qed (use Suc.prems out s sg in \<open>auto simp: send_loop.simps(2) io_simps Let_def split: prod.splits\<close>)
  qed
qed

lemma SendTx_reaches_loop:
  assumes "SendTx fuel c recipient txData w = (r, w')"
  shows "(\<exists>e. r = Err e \<and> submitted w' = submitted w) \<or>
    (\<exists>gasLimit gasPrice nonce w1. submitted w1 = submitted w \<and>
       send_loop c recipient gasLimit gasPrice txData fuel nonce False w1 = (r, w'))"
  using assms unfolding SendTx_def Let_def nc_Serialize_def upd_cache_def
  by (auto simp: io_simps split: if_splits prod.splits sum.splits)

text \<open>C26. If the node never answers "known transaction", \<open>SendTx\<close> returns: two rounds of the loop are
  enough fuel, and at most two transactions are submitted.\<close>

theorem SendTx_terminates:
  assumes "no_known_transaction (evmProvider c)" "2 \<le> fuel"
    and "SendTx fuel c recipient txData w = (r, w')"
  shows "r \<noteq> Diverge \<and> length (submitted w') \<le> length (submitted w) + 2"
  using SendTx_reaches_loop [OF assms(3)]
proof (elim disjE exE conjE)
  fix gasLimit gasPrice nonce w1
  assume "submitted w1 = submitted w"
    "send_loop c recipient gasLimit gasPrice txData fuel nonce False w1 = (r, w')"
  with send_loop_bounded [OF assms(1) _ this(2)] assms(2) show ?thesis by simp
qed auto

theorem SendTx_terminates_witness:
  "fst (SendTx 2 (sample_committer (\<lambda>_. Inl (ErrorNew ''nonce too low''))) 5 [1] (sample_world 0))
     \<noteq> Diverge"
proof -
  let ?c = "sample_committer (\<lambda>_. Inl (ErrorNew ''nonce too low''))"
  have "no_known_transaction (evmProvider ?c)"
    by (simp add: no_known_transaction_def sample_defs)
  from SendTx_terminates [OF this, of 2 5 "[1]" "sample_world 0"] show ?thesis
    by (metis order_refl prod.collapse)
qed



section \<open>The contract of the committer\<close>

text \<open>
  What the clients of \<open>EVMCommitter\<close> rely on: transactions go where they are sent, with the data
  given, below the price cap, and a hash is returned only for a submission the node accepted.
\<close>

locale evm_committer =
  fixes sendTx :: "address \<Rightarrow> bytes \<Rightarrow> ('e world, hash) io"
    and faithful :: bool
    and maxPrice :: int
  assumes sends: "faithful \<Longrightarrow> keeps (submits (\<lambda>tx. et_To tx = recipient \<and> et_Data tx = txData \<and>
      et_GasPrice tx \<le> maxPrice)) (sendTx recipient txData)"
    and accepted: "sendTx recipient txData w = (Ok h, w') \<Longrightarrow>
      \<exists>xs tx. submitted w' = submitted w @ xs @ [(tx, True)]"

lemma resyncNonces_submitted: "resyncNonces c a w = (r, w') \<Longrightarrow> submitted w' = submitted w"
  using keepsD [OF resyncNonces_same_submitted] by (simp add: same_submitted_def)

lemma send_loop_Ok:
  "send_loop c recipient gasLimit gasPrice txData fuel nonce resyncUsed w = (Ok h, w') \<Longrightarrow>
     \<exists>xs tx. submitted w' = submitted w @ xs @ [(tx, True)]"
proof (induction fuel arbitrary: nonce resyncUsed w)
  case 0
  then show ?case by simp
next
  case (Suc fuel)
  let ?tx = "\<lparr>et_Nonce = big_Uint64 (sint nonce), et_To = recipient, et_GasLimit = gasLimit,
              et_GasPrice = gasPrice, et_Data = txData\<rparr>"
  obtain signer stx where sg: "fromSigner c = Some signer" "signer (fromAddress c) ?tx = Inr stx"
    using Suc.prems
    by (auto simp: send_loop.simps(2) io_simps Let_def split: option.splits sum.splits)
  obtain r1 w1 where s: "SendTransactionWithRet (evmProvider c) stx w = (r1, w1)" by fastforce
  show ?case
  proof (cases r1)
    case (Err e)
    have w1: "\<exists>ys. submitted w1 = submitted w @ ys"
      using s by (auto simp: SendTransactionWithRet_def io_simps split: sum.splits prod.splits)
    note rej = send_loop_rejected [OF sg(1) refl sg(2) s [unfolded Err], of fuel resyncUsed]
    have IH: "\<exists>xs tx. submitted w' = submitted w @ xs @ [(tx, True)]"
      if "send_loop c recipient gasLimit gasPrice txData fuel nonce' used v = (Ok h, w')"
        "submitted v = submitted w1" for nonce' used v
      using Suc.IH [OF that(1)] that(2) w1 by fastforce
    show ?thesis using Suc.prems unfolding rej Let_def
      by (auto split: if_splits prod.splits intro: IH)
  next
    case (Ok x)
    then show ?thesis using Suc.prems s sg
      by (fastforce simp: send_loop.simps(2) io_simps Let_def SendTransactionWithRet_def
          split: prod.splits sum.splits)
  qed (use s in \<open>auto simp: SendTransactionWithRet_def io_simps split: prod.splits sum.splits\<close>)
qed

lemma SendTx_Ok:
  assumes "SendTx fuel c recipient txData w = (Ok h, w')"
  shows "\<exists>xs tx. submitted w' = submitted w @ xs @ [(tx, True)]"
  using SendTx_reaches_loop [OF assms] send_loop_Ok by fastforce

interpretation eth: evm_committer "SendTx fuel c" "signer_faithful (fromSigner c)"
  "sint (ethMaxGasPrice c)" for fuel c
  by unfold_locales (simp_all add: SendTx_keeps_submits SendTx_Ok)

end
