(* ===== verification/Wrapper.thy ===== *)
theory Wrapper
  imports Committer BridgeTypes
begin

text \<open>
  \<open>solidity/wrappers/Peggy.sol/wrapper.go\<close>: the generated bindings of the contracts, as far as the program
  uses them. These are the constructors, the calls of \<open>Peggy\<close> and \<open>ERC20\<close>, and for each of the five events of the
  bridge its filter, its iterator and its parser. go-ethereum's \<open>bind.BoundContract\<close>, below them, is an argument:
  the record \<open>bind_contract\<close> has its methods, and \<open>log_channel\<close> is what its \<open>FilterLogs\<close> hands over.
\<close>

section \<open>Values of the ABI\<close>

record ValsetArgs =
  va_Validators :: "address list"
  va_Powers :: "int list"
  va_ValsetNonce :: int
  va_RewardAmount :: "int option"
  va_RewardToken :: address

datatype abi_value =
    AbiBytes32 hash
  | AbiUint "int option"
  | AbiAddress address
  | AbiUints "int list"
  | AbiAddresses "address list"
  | AbiUint8s "u8 list"
  | AbiBytes32s "hash list"
  | AbiBytes bytes
  | AbiTuple ValsetArgs
  | AbiString string

section \<open>Bound contracts\<close>

text \<open>\<open>types.Log\<close>, with what a decoded event depends on.\<close>

record types_Log =
  log_Address :: address
  log_Topics :: "hash list"
  log_Data :: bytes
  log_BlockNumber :: u64

text \<open>
  The channel of logs and the subscription beside it, as the sequence of what the process that reads them is going
  to receive. A \<open>select\<close> on both gives a log, or the end of the subscription with its error or nil, or
  waits for ever; after the end the channel may still hold logs. Which case of a \<open>select\<close> is taken when several
  are ready, and in which order the two channels are served, is part of the value. Neither needs to be finite.
\<close>

codatatype held_logs = Empty | Holds types_Log held_logs

codatatype log_channel = Waits | Sends types_Log log_channel | Ends "goerr option" held_logs

datatype received = FromLogs types_Log | FromErr "goerr option"

text \<open>A \<open>select\<close> on the channel of logs and \<open>sub.Err()\<close> (None: it waits for ever), and one on the channel of logs with a
  default.\<close>

fun select_logs :: "log_channel \<Rightarrow> (received \<times> log_channel) option" where
  "select_logs Waits = None"
| "select_logs (Sends lg ch) = Some (FromLogs lg, ch)"
| "select_logs (Ends err held) = Some (FromErr err, Ends err held)"

fun poll_logs :: "log_channel \<Rightarrow> types_Log option \<times> log_channel" where
  "poll_logs Waits = (None, Waits)"
| "poll_logs (Sends lg ch) = (Some lg, ch)"
| "poll_logs (Ends err Empty) = (None, Ends err Empty)"
| "poll_logs (Ends err (Holds lg held)) = (Some lg, Ends err held)"

text \<open>\<open>sub\<close>: only \<open>Unsubscribe\<close> is used of it.\<close>

record 'e subscription =
  Unsubscribe :: "'e \<Rightarrow> 'e"

record CallOpts =
  opts_From :: address

record FilterOpts =
  opts_Start :: u64
  opts_End :: "u64 option"

text \<open>\<open>UnpackLog\<close> fills the struct it is given; there is one field for each type of struct, and it is the call on a
  new struct: the error, and the struct as it is left.\<close>

type_synonym 'ev unpack = "string \<Rightarrow> types_Log \<Rightarrow> goerr option \<times> 'ev"

record 'e bind_contract =
  ct_Call :: "CallOpts \<Rightarrow> string \<Rightarrow> abi_value list \<Rightarrow> ('e, abi_value list) libfun"
  ct_FilterLogs :: "FilterOpts \<Rightarrow> string \<Rightarrow> abi_value list list \<Rightarrow> ('e, log_channel \<times> 'e subscription) libfun"
  UnpackLog_ERC20DeployedEvent :: "PeggyERC20DeployedEvent unpack"
  UnpackLog_SendToCosmosEvent :: "PeggySendToCosmosEvent unpack"
  UnpackLog_SendToInjectiveEvent :: "PeggySendToInjectiveEvent unpack"
  UnpackLog_TransactionBatchExecutedEvent :: "PeggyTransactionBatchExecutedEvent unpack"
  UnpackLog_ValsetUpdatedEvent :: "PeggyValsetUpdatedEvent unpack"

text \<open>The JSON constants of the file by name, the error of \<open>abi.JSON\<close> on them, and \<open>bind.NewBoundContract\<close>.\<close>

datatype contract_abi = PeggyABI | ERC20ABI

record 'e bindings =
  JSON_error :: "contract_abi \<Rightarrow> goerr option"
  NewBoundContract :: "address \<Rightarrow> contract_abi \<Rightarrow> 'e evm_client \<Rightarrow> 'e bind_contract"

definition bindPeggy :: "'e bindings \<Rightarrow> address \<Rightarrow> 'e evm_client \<Rightarrow> goerr + 'e bind_contract" where
  "bindPeggy B addr backend = (case JSON_error B PeggyABI of
     Some err \<Rightarrow> Inl err | None \<Rightarrow> Inr (NewBoundContract B addr PeggyABI backend))"

definition NewPeggy :: "'e bindings \<Rightarrow> address \<Rightarrow> 'e evm_client \<Rightarrow> goerr + 'e bind_contract" where
  "NewPeggy B addr backend = (case bindPeggy B addr backend of
     Inl err \<Rightarrow> Inl err | Inr contract \<Rightarrow> Inr contract)"

definition NewPeggyFilterer :: "'e bindings \<Rightarrow> address \<Rightarrow> 'e evm_client \<Rightarrow> goerr + 'e bind_contract" where
  "NewPeggyFilterer B addr filterer = (case bindPeggy B addr filterer of
     Inl err \<Rightarrow> Inl err | Inr contract \<Rightarrow> Inr contract)"

text \<open>The token's bindings; the backend is an argument, since it may be nil until a call is made through it.\<close>

definition bindERC20 :: "'e bindings \<Rightarrow> address \<Rightarrow> goerr + ('e evm_client \<Rightarrow> 'e bind_contract)" where
  "bindERC20 B addr = (case JSON_error B ERC20ABI of
     Some err \<Rightarrow> Inl err | None \<Rightarrow> Inr (NewBoundContract B addr ERC20ABI))"

definition NewERC20 :: "'e bindings \<Rightarrow> address \<Rightarrow> goerr + ('e evm_client \<Rightarrow> 'e bind_contract)" where
  "NewERC20 B addr = (case bindERC20 B addr of Inl err \<Rightarrow> Inl err | Inr contract \<Rightarrow> Inr contract)"

section \<open>Calls\<close>

text \<open>\<open>*abi.ConvertType(out[0], new(T)).(*T)\<close>: it panics when there is no value or when it has another type.\<close>

definition out_of_range :: goerr where
  "out_of_range = PanicValue ''index out of range [0] with length 0''"

definition bad_conversion :: goerr where
  "bad_conversion = PanicValue ''abi: cannot convert type''"

fun convert_bigInt :: "abi_value list \<Rightarrow> ('e world, int) io" where
  "convert_bigInt [] = panic out_of_range"
| "convert_bigInt (AbiUint (Some n) # out) = ret n"
| "convert_bigInt (_ # out) = panic bad_conversion"

fun convert_bytes32 :: "abi_value list \<Rightarrow> ('e world, hash) io" where
  "convert_bytes32 [] = panic out_of_range"
| "convert_bytes32 (AbiBytes32 h # out) = ret h"
| "convert_bytes32 (_ # out) = panic bad_conversion"

fun convert_string :: "abi_value list \<Rightarrow> ('e world, string) io" where
  "convert_string [] = panic out_of_range"
| "convert_string (AbiString x # out) = ret x"
| "convert_string (_ # out) = panic bad_conversion"

definition LastBatchNonce :: "'e bind_contract \<Rightarrow> CallOpts \<Rightarrow> address \<Rightarrow> ('e world, int) io" where
  "LastBatchNonce c opts erc20Address =
     bindE (lib (ct_Call c opts ''lastBatchNonce'' [AbiAddress erc20Address])) convert_bigInt"

definition StateLastValsetNonce :: "'e bind_contract \<Rightarrow> CallOpts \<Rightarrow> ('e world, int) io" where
  "StateLastValsetNonce c opts = bindE (lib (ct_Call c opts ''state_lastValsetNonce'' [])) convert_bigInt"

definition StatePeggyId :: "'e bind_contract \<Rightarrow> CallOpts \<Rightarrow> ('e world, hash) io" where
  "StatePeggyId c opts = bindE (lib (ct_Call c opts ''state_peggyId'' [])) convert_bytes32"

definition Allowance :: "'e bind_contract \<Rightarrow> CallOpts \<Rightarrow> address \<Rightarrow> address \<Rightarrow> ('e world, int) io" where
  "Allowance c opts owner spender =
     bindE (lib (ct_Call c opts ''allowance'' [AbiAddress owner, AbiAddress spender])) convert_bigInt"

text \<open>Conversions change nothing.\<close>

lemma convert_same:
  "convert_bigInt out w = (n, w1) \<Longrightarrow> w1 = w" "convert_bytes32 out w = (h, w2) \<Longrightarrow> w2 = w"
  "convert_string out w = (x, w3) \<Longrightarrow> w3 = w"
proof -
  show "convert_bigInt out w = (n, w1) \<Longrightarrow> w1 = w" by (cases out rule: convert_bigInt.cases) (simp_all add: io_simps)
  show "convert_bytes32 out w = (h, w2) \<Longrightarrow> w2 = w" by (cases out rule: convert_bytes32.cases) (simp_all add: io_simps)
  show "convert_string out w = (x, w3) \<Longrightarrow> w3 = w" by (cases out rule: convert_string.cases) (simp_all add: io_simps)
qed

section \<open>Iterators\<close>

record ('e, 'ev) iterator =
  it_Event :: "'ev option"
  it_contract :: "'e bind_contract"
  it_event :: string
  it_logs :: log_channel
  it_sub :: "'e subscription"
  it_done :: bool
  it_fail :: "goerr option"

text \<open>What distinguishes the generated types: the struct's \<open>UnpackLog\<close> and the assignment of \<open>Raw\<close>.\<close>

record ('e, 'ev) event_kind =
  ev_UnpackLog :: "'e bind_contract \<Rightarrow> 'ev unpack"
  ev_Raw :: "types_Log \<Rightarrow> 'ev \<Rightarrow> 'ev"

definition deliver ::
  "('e, 'ev) event_kind \<Rightarrow> ('e, 'ev) iterator \<Rightarrow> types_Log \<Rightarrow> bool \<times> ('e, 'ev) iterator" where
  "deliver K it lg = (case ev_UnpackLog K (it_contract it) (it_event it) lg of
     (Some err, ev) \<Rightarrow> (False, it\<lparr>it_Event := Some ev, it_fail := Some err\<rparr>)
   | (None, ev) \<Rightarrow> (True, it\<lparr>it_Event := Some (ev_Raw K lg ev)\<rparr>))"

text \<open>\<open>Next\<close>; None when it waits for ever. It calls itself at most once, with \<open>done\<close> set.\<close>

function it_Next :: "('e, 'ev) event_kind \<Rightarrow> ('e, 'ev) iterator \<Rightarrow> (bool \<times> ('e, 'ev) iterator) option" where
  "it_Next K it =
     (if it_fail it \<noteq> None then Some (False, it)
      else if it_done it then
        (case poll_logs (it_logs it) of
           (Some lg, ch) \<Rightarrow> Some (deliver K (it\<lparr>it_logs := ch\<rparr>) lg)
         | (None, ch) \<Rightarrow> Some (False, it\<lparr>it_logs := ch\<rparr>))
      else
        (case select_logs (it_logs it) of
           None \<Rightarrow> None
         | Some (FromLogs lg, ch) \<Rightarrow> Some (deliver K (it\<lparr>it_logs := ch\<rparr>) lg)
         | Some (FromErr err, ch) \<Rightarrow> it_Next K (it\<lparr>it_logs := ch, it_done := True, it_fail := err\<rparr>)))"
  by auto
termination by (relation "measure (\<lambda>(K, it). if it_done it then 0 else 1)") simp_all

declare it_Next.simps [simp del]

definition it_Error :: "('e, 'ev) iterator \<Rightarrow> goerr option" where
  "it_Error it = it_fail it"

definition it_Close :: "('e, 'ev) iterator \<Rightarrow> 'e \<Rightarrow> goerr option \<times> 'e" where
  "it_Close it s = (None, Unsubscribe (it_sub it) s)"

definition new_iterator ::
  "'e bind_contract \<Rightarrow> string \<Rightarrow> FilterOpts \<Rightarrow> abi_value list list \<Rightarrow> ('e, ('e, 'ev) iterator) libfun" where
  "new_iterator c name opts rules s = (case ct_FilterLogs c opts name rules s of
     (Inl err, s') \<Rightarrow> (Inl err, s')
   | (Inr (logs, sub), s') \<Rightarrow> (Inr \<lparr>it_Event = None, it_contract = c, it_event = name, it_logs = logs,
                             it_sub = sub, it_done = False, it_fail = None\<rparr>, s'))"

definition parse_log :: "('e, 'ev) event_kind \<Rightarrow> 'e bind_contract \<Rightarrow> string \<Rightarrow> types_Log \<Rightarrow> goerr + 'ev" where
  "parse_log K c name lg = (case ev_UnpackLog K c name lg of
     (Some err, ev) \<Rightarrow> Inl err | (None, ev) \<Rightarrow> Inr (ev_Raw K lg ev))"
section \<open>The five events\<close>

subsection \<open>\<open>ERC20DeployedEvent\<close>\<close>

definition ERC20DeployedEvent_kind :: "('e, PeggyERC20DeployedEvent) event_kind" where
  "ERC20DeployedEvent_kind = \<lparr>ev_UnpackLog = UnpackLog_ERC20DeployedEvent, ev_Raw = (\<lambda>lg ev. ev\<lparr>ed_BlockNumber := log_BlockNumber lg\<rparr>)\<rparr>"

definition FilterERC20DeployedEvent ::
  "'e bind_contract \<Rightarrow> FilterOpts \<Rightarrow> address list \<Rightarrow> ('e, ('e, PeggyERC20DeployedEvent) iterator) libfun" where
  "FilterERC20DeployedEvent c opts tokens =
     new_iterator c ''ERC20DeployedEvent'' opts [map AbiAddress tokens]"

definition ERC20DeployedEvent_Next :: "('e, PeggyERC20DeployedEvent) iterator \<Rightarrow> (bool \<times> ('e, PeggyERC20DeployedEvent) iterator) option" where
  "ERC20DeployedEvent_Next = it_Next ERC20DeployedEvent_kind"

definition ParseERC20DeployedEvent :: "'e bind_contract \<Rightarrow> types_Log \<Rightarrow> goerr + PeggyERC20DeployedEvent" where
  "ParseERC20DeployedEvent c lg = parse_log ERC20DeployedEvent_kind c ''ERC20DeployedEvent'' lg"

subsection \<open>\<open>SendToCosmosEvent\<close>\<close>

definition SendToCosmosEvent_kind :: "('e, PeggySendToCosmosEvent) event_kind" where
  "SendToCosmosEvent_kind = \<lparr>ev_UnpackLog = UnpackLog_SendToCosmosEvent, ev_Raw = (\<lambda>lg ev. ev\<lparr>sc_BlockNumber := log_BlockNumber lg\<rparr>)\<rparr>"

definition FilterSendToCosmosEvent ::
  "'e bind_contract \<Rightarrow> FilterOpts \<Rightarrow> address list \<Rightarrow> address list \<Rightarrow> hash list \<Rightarrow> ('e, ('e, PeggySendToCosmosEvent) iterator) libfun" where
  "FilterSendToCosmosEvent c opts tokens senders destinations =
     new_iterator c ''SendToCosmosEvent'' opts [map AbiAddress tokens, map AbiAddress senders, map AbiBytes32 destinations]"

definition SendToCosmosEvent_Next :: "('e, PeggySendToCosmosEvent) iterator \<Rightarrow> (bool \<times> ('e, PeggySendToCosmosEvent) iterator) option" where
  "SendToCosmosEvent_Next = it_Next SendToCosmosEvent_kind"

definition ParseSendToCosmosEvent :: "'e bind_contract \<Rightarrow> types_Log \<Rightarrow> goerr + PeggySendToCosmosEvent" where
  "ParseSendToCosmosEvent c lg = parse_log SendToCosmosEvent_kind c ''SendToCosmosEvent'' lg"

subsection \<open>\<open>SendToInjectiveEvent\<close>\<close>

definition SendToInjectiveEvent_kind :: "('e, PeggySendToInjectiveEvent) event_kind" where
  "SendToInjectiveEvent_kind = \<lparr>ev_UnpackLog = UnpackLog_SendToInjectiveEvent, ev_Raw = (\<lambda>lg ev. ev\<lparr>si_BlockNumber := log_BlockNumber lg\<rparr>)\<rparr>"

definition FilterSendToInjectiveEvent ::
  "'e bind_contract \<Rightarrow> FilterOpts \<Rightarrow> address list \<Rightarrow> address list \<Rightarrow> hash list \<Rightarrow> ('e, ('e, PeggySendToInjectiveEvent) iterator) libfun" where
  "FilterSendToInjectiveEvent c opts tokens senders destinations =
     new_iterator c ''SendToInjectiveEvent'' opts [map AbiAddress tokens, map AbiAddress senders, map AbiBytes32 destinations]"

definition SendToInjectiveEvent_Next :: "('e, PeggySendToInjectiveEvent) iterator \<Rightarrow> (bool \<times> ('e, PeggySendToInjectiveEvent) iterator) option" where
  "SendToInjectiveEvent_Next = it_Next SendToInjectiveEvent_kind"

definition ParseSendToInjectiveEvent :: "'e bind_contract \<Rightarrow> types_Log \<Rightarrow> goerr + PeggySendToInjectiveEvent" where
  "ParseSendToInjectiveEvent c lg = parse_log SendToInjectiveEvent_kind c ''SendToInjectiveEvent'' lg"

subsection \<open>\<open>TransactionBatchExecutedEvent\<close>\<close>

definition TransactionBatchExecutedEvent_kind :: "('e, PeggyTransactionBatchExecutedEvent) event_kind" where
  "TransactionBatchExecutedEvent_kind = \<lparr>ev_UnpackLog = UnpackLog_TransactionBatchExecutedEvent, ev_Raw = (\<lambda>lg ev. ev\<lparr>be_BlockNumber := log_BlockNumber lg\<rparr>)\<rparr>"

definition FilterTransactionBatchExecutedEvent ::
  "'e bind_contract \<Rightarrow> FilterOpts \<Rightarrow> int list \<Rightarrow> address list \<Rightarrow> ('e, ('e, PeggyTransactionBatchExecutedEvent) iterator) libfun" where
  "FilterTransactionBatchExecutedEvent c opts batchNonces tokens =
     new_iterator c ''TransactionBatchExecutedEvent'' opts [map (\<lambda>n. AbiUint (Some n)) batchNonces, map AbiAddress tokens]"

definition TransactionBatchExecutedEvent_Next :: "('e, PeggyTransactionBatchExecutedEvent) iterator \<Rightarrow> (bool \<times> ('e, PeggyTransactionBatchExecutedEvent) iterator) option" where
  "TransactionBatchExecutedEvent_Next = it_Next TransactionBatchExecutedEvent_kind"

definition ParseTransactionBatchExecutedEvent :: "'e bind_contract \<Rightarrow> types_Log \<Rightarrow> goerr + PeggyTransactionBatchExecutedEvent" where
  "ParseTransactionBatchExecutedEvent c lg = parse_log TransactionBatchExecutedEvent_kind c ''TransactionBatchExecutedEvent'' lg"

subsection \<open>\<open>ValsetUpdatedEvent\<close>\<close>

definition ValsetUpdatedEvent_kind :: "('e, PeggyValsetUpdatedEvent) event_kind" where
  "ValsetUpdatedEvent_kind = \<lparr>ev_UnpackLog = UnpackLog_ValsetUpdatedEvent, ev_Raw = (\<lambda>lg ev. ev\<lparr>vu_BlockNumber := log_BlockNumber lg\<rparr>)\<rparr>"

definition FilterValsetUpdatedEvent ::
  "'e bind_contract \<Rightarrow> FilterOpts \<Rightarrow> int list \<Rightarrow> ('e, ('e, PeggyValsetUpdatedEvent) iterator) libfun" where
  "FilterValsetUpdatedEvent c opts newValsetNonces =
     new_iterator c ''ValsetUpdatedEvent'' opts [map (\<lambda>n. AbiUint (Some n)) newValsetNonces]"

definition ValsetUpdatedEvent_Next :: "('e, PeggyValsetUpdatedEvent) iterator \<Rightarrow> (bool \<times> ('e, PeggyValsetUpdatedEvent) iterator) option" where
  "ValsetUpdatedEvent_Next = it_Next ValsetUpdatedEvent_kind"

definition ParseValsetUpdatedEvent :: "'e bind_contract \<Rightarrow> types_Log \<Rightarrow> goerr + PeggyValsetUpdatedEvent" where
  "ParseValsetUpdatedEvent c lg = parse_log ValsetUpdatedEvent_kind c ''ValsetUpdatedEvent'' lg"
lemmas kind_defs = ERC20DeployedEvent_kind_def SendToCosmosEvent_kind_def SendToInjectiveEvent_kind_def TransactionBatchExecutedEvent_kind_def ValsetUpdatedEvent_kind_def

lemmas parse_defs = ParseERC20DeployedEvent_def ParseSendToCosmosEvent_def ParseSendToInjectiveEvent_def ParseTransactionBatchExecutedEvent_def ParseValsetUpdatedEvent_def

lemmas filter_defs = FilterERC20DeployedEvent_def FilterSendToCosmosEvent_def FilterSendToInjectiveEvent_def FilterTransactionBatchExecutedEvent_def FilterValsetUpdatedEvent_def

lemmas next_defs = ERC20DeployedEvent_Next_def SendToCosmosEvent_Next_def SendToInjectiveEvent_Next_def TransactionBatchExecutedEvent_Next_def ValsetUpdatedEvent_Next_def

section \<open>What an iterator gives\<close>

text \<open>A subscription over finitely many logs: \<open>lgs\<close> are received before its end and \<open>rest\<close> after it.\<close>

definition channel :: "types_Log list \<Rightarrow> goerr option \<Rightarrow> types_Log list \<Rightarrow> log_channel" where
  "channel lgs err rest = foldr Sends lgs (Ends err (foldr Holds rest Empty))"

text \<open>The events before the first log that is not parsed, and the error of that log.\<close>

fun parsed :: "(goerr + 'ev) list \<Rightarrow> 'ev list" where
  "parsed [] = []"
| "parsed (Inl err # xs) = []"
| "parsed (Inr ev # xs) = ev # parsed xs"

fun parse_error :: "(goerr + 'ev) list \<Rightarrow> goerr option" where
  "parse_error [] = None"
| "parse_error (Inl err # xs) = Some err"
| "parse_error (Inr ev # xs) = parse_error xs"

lemma parsed_map_Inr [simp]: "parsed (map Inr evs) = evs" "parse_error (map Inr evs) = None"
  by (induction evs) simp_all

lemma parsed_append:
  "parsed (xs @ ys) = (if parse_error xs = None then parsed xs @ parsed ys else parsed xs)"
  "parse_error (xs @ ys) = (if parse_error xs = None then parse_error ys else parse_error xs)"
  by (induction xs rule: parsed.induct) simp_all

text \<open>What the parser makes of a log decides how the iterator goes on.\<close>

lemma deliver_parse:
  "deliver K it lg = (case parse_log K (it_contract it) (it_event it) lg of
     Inl err \<Rightarrow> (False, it\<lparr>it_Event := Some (snd (ev_UnpackLog K (it_contract it) (it_event it) lg)), it_fail := Some err\<rparr>)
   | Inr ev \<Rightarrow> (True, it\<lparr>it_Event := Some ev\<rparr>))"
  by (simp add: deliver_def parse_log_def split: prod.splits option.splits)

lemma it_Next_failed: "it_fail it \<noteq> None \<Longrightarrow> it_Next K it = Some (False, it)"
  by (subst it_Next.simps) simp

lemma it_Next_running:
  assumes "it_fail it = None" "\<not> it_done it"
  shows "it_logs it = Sends lg ch \<Longrightarrow> it_Next K it = Some (deliver K (it\<lparr>it_logs := ch\<rparr>) lg)"
    and "it_logs it = Ends err held \<Longrightarrow> it_Next K it = it_Next K (it\<lparr>it_logs := Ends err held, it_done := True, it_fail := err\<rparr>)"
    and "it_logs it = Waits \<Longrightarrow> it_Next K it = None"
  using assms by (simp_all add: it_Next.simps [of K it])

lemma it_Next_done:
  assumes "it_fail it = None" "it_done it"
  shows "it_logs it = Ends err (Holds lg held) \<Longrightarrow> it_Next K it = Some (deliver K (it\<lparr>it_logs := Ends err held\<rparr>) lg)"
    and "it_logs it = Ends err Empty \<Longrightarrow> it_Next K it = Some (False, it)"
  using assms by (simp_all add: it_Next.simps [of K it])
section \<open>A contract over lists of events\<close>

text \<open>
  A bound contract for concrete runs: its calls answer from a function, and its filters from the lists of events it
  has emitted. A log carries the position of its event in the list as the length of its data. The channel sends all
  logs before the subscription ends.
\<close>

record emitted =
  em_ERC20DeployedEvents :: "PeggyERC20DeployedEvent list"
  em_SendToCosmosEvents :: "PeggySendToCosmosEvent list"
  em_SendToInjectiveEvents :: "PeggySendToInjectiveEvent list"
  em_TransactionBatchExecutedEvents :: "PeggyTransactionBatchExecutedEvent list"
  em_ValsetUpdatedEvents :: "PeggyValsetUpdatedEvent list"

definition listed_logs :: "('ev \<Rightarrow> u64) \<Rightarrow> 'ev list \<Rightarrow> types_Log list" where
  "listed_logs height evs = map (\<lambda>i. \<lparr>log_Address = 5, log_Topics = [], log_Data = replicate i 0,
     log_BlockNumber = height (evs ! i)\<rparr>) [0..<length evs]"

definition listed_unpack :: "'ev list \<Rightarrow> 'ev unpack" where
  "listed_unpack evs = (\<lambda>_ lg. (None, evs ! length (log_Data lg)))"

definition emitted_logs :: "emitted \<Rightarrow> string \<Rightarrow> types_Log list" where
  "emitted_logs E name =
     (if name = ''ERC20DeployedEvent'' then listed_logs ed_BlockNumber (em_ERC20DeployedEvents E)
      else if name = ''SendToCosmosEvent'' then listed_logs sc_BlockNumber (em_SendToCosmosEvents E)
      else if name = ''SendToInjectiveEvent'' then listed_logs si_BlockNumber (em_SendToInjectiveEvents E)
      else if name = ''TransactionBatchExecutedEvent'' then listed_logs be_BlockNumber (em_TransactionBatchExecutedEvents E)
      else listed_logs vu_BlockNumber (em_ValsetUpdatedEvents E))"

definition height_in :: "FilterOpts \<Rightarrow> u64 \<Rightarrow> bool" where
  "height_in opts h \<longleftrightarrow> opts_Start opts \<le> h \<and> (case opts_End opts of None \<Rightarrow> True | Some e \<Rightarrow> h \<le> e)"

definition listed_contract :: "(string \<Rightarrow> abi_value list) \<Rightarrow> emitted \<Rightarrow> 'e bind_contract" where
  "listed_contract answer E = \<lparr>ct_Call = (\<lambda>_ method _ s. (Inr (answer method), s)),
     ct_FilterLogs = (\<lambda>opts name _ s.
       (Inr (channel (filter (\<lambda>lg. height_in opts (log_BlockNumber lg)) (emitted_logs E name)) None [],
             \<lparr>Unsubscribe = (\<lambda>s. s)\<rparr>), s)),
     UnpackLog_ERC20DeployedEvent = listed_unpack (em_ERC20DeployedEvents E),
     UnpackLog_SendToCosmosEvent = listed_unpack (em_SendToCosmosEvents E),
     UnpackLog_SendToInjectiveEvent = listed_unpack (em_SendToInjectiveEvents E),
     UnpackLog_TransactionBatchExecutedEvent = listed_unpack (em_TransactionBatchExecutedEvents E),
     UnpackLog_ValsetUpdatedEvent = listed_unpack (em_ValsetUpdatedEvents E)\<rparr>"

lemma parse_listed:
  assumes "ev_UnpackLog K c = listed_unpack evs"
    and "\<And>lg ev. log_BlockNumber lg = height ev \<Longrightarrow> ev_Raw K lg ev = ev"
  shows "map (parse_log K c name) (filter (\<lambda>lg. P (log_BlockNumber lg)) (listed_logs height evs)) =
    map Inr (filter (\<lambda>ev. P (height ev)) evs)"
proof -
  have "filter (\<lambda>ev. P (height ev)) evs = map ((!) evs) (filter (\<lambda>i. P (height (evs ! i))) [0..<length evs])"
    by (subst (1) map_nth [symmetric]) (simp add: filter_map comp_def del: map_nth)
  then show ?thesis
    using assms(2) by (simp add: listed_logs_def filter_map comp_def parse_log_def assms(1) listed_unpack_def)
qed

lemma emitted_logs_names:
  "emitted_logs E ''ERC20DeployedEvent'' = listed_logs ed_BlockNumber (em_ERC20DeployedEvents E)"
  "emitted_logs E ''SendToCosmosEvent'' = listed_logs sc_BlockNumber (em_SendToCosmosEvents E)"
  "emitted_logs E ''SendToInjectiveEvent'' = listed_logs si_BlockNumber (em_SendToInjectiveEvents E)"
  "emitted_logs E ''TransactionBatchExecutedEvent'' = listed_logs be_BlockNumber (em_TransactionBatchExecutedEvents E)"
  "emitted_logs E ''ValsetUpdatedEvent'' = listed_logs vu_BlockNumber (em_ValsetUpdatedEvents E)"
  by (simp_all add: emitted_logs_def)

lemma listed_events:
  "map (ParseERC20DeployedEvent (listed_contract answer E))
     (filter (\<lambda>lg. height_in opts (log_BlockNumber lg)) (emitted_logs E ''ERC20DeployedEvent'')) =
     map Inr (filter (\<lambda>ev. height_in opts (ed_BlockNumber ev)) (em_ERC20DeployedEvents E))"
  "map (ParseSendToCosmosEvent (listed_contract answer E))
     (filter (\<lambda>lg. height_in opts (log_BlockNumber lg)) (emitted_logs E ''SendToCosmosEvent'')) =
     map Inr (filter (\<lambda>ev. height_in opts (sc_BlockNumber ev)) (em_SendToCosmosEvents E))"
  "map (ParseSendToInjectiveEvent (listed_contract answer E))
     (filter (\<lambda>lg. height_in opts (log_BlockNumber lg)) (emitted_logs E ''SendToInjectiveEvent'')) =
     map Inr (filter (\<lambda>ev. height_in opts (si_BlockNumber ev)) (em_SendToInjectiveEvents E))"
  "map (ParseTransactionBatchExecutedEvent (listed_contract answer E))
     (filter (\<lambda>lg. height_in opts (log_BlockNumber lg)) (emitted_logs E ''TransactionBatchExecutedEvent'')) =
     map Inr (filter (\<lambda>ev. height_in opts (be_BlockNumber ev)) (em_TransactionBatchExecutedEvents E))"
  "map (ParseValsetUpdatedEvent (listed_contract answer E))
     (filter (\<lambda>lg. height_in opts (log_BlockNumber lg)) (emitted_logs E ''ValsetUpdatedEvent'')) =
     map Inr (filter (\<lambda>ev. height_in opts (vu_BlockNumber ev)) (em_ValsetUpdatedEvents E))"
  unfolding parse_defs emitted_logs_names by (rule parse_listed; simp add: kind_defs listed_contract_def)+

end
