(* ===== verification/Signatures.thy ===== *)
theory Signatures
  imports BridgeTypes GoFloat
begin

text \<open>
  \<open>orchestrator/ethereum/peggy/utils.go\<close> and the signature checks of \<open>valset_update.go\<close> and
  \<open>submit_batch.go\<close>: splitting a signature into \<open>v, r, s\<close>, the share of the bridge power, and
  repacking the confirmations in the order of the validator set.
\<close>

section \<open>Splitting a signature\<close>

text \<open>Indexing and slicing a signature of fewer than 65 bytes is a run-time panic.\<close>

definition sigToVRS :: "geth_lib \<Rightarrow> string \<Rightarrow> (u8 \<times> hash \<times> hash) res" where
  "sigToVRS G sigHex =
     (let signatureBytes = FromHex G sigHex
      in if length signatureBytes \<le> 64 then Panic (ErrorNew ''index out of range'')
         else
           (let vParam = signatureBytes ! 64;
                v = (if vParam = 0 then 27 else if vParam = 1 then 28 else vParam)
            in Ok (v, BytesToHash G (take 32 signatureBytes),
                   BytesToHash G (take 32 (drop 32 signatureBytes)))))"

section \<open>Power\<close>

definition totalPeggyPower :: int where
  "totalPeggyPower = 4294967295"

definition peggyPowerToPercent :: "decimal_lib \<Rightarrow> int \<Rightarrow> rat" where
  "peggyPowerToPercent D pw =
     (let d = dec_NewFromBigInt D pw 0;
          f = dec_Float64 D (dec_Shift D (dec_Div D d (dec_NewFromInt D totalPeggyPower)) 2)
      in round_float 24 f)"

section \<open>Repacking\<close>

record repacked =
  rp_validators :: "address list"
  rp_powers :: "int list"
  rp_v :: "u8 list"
  rp_r :: "hash list"
  rp_s :: "hash list"
  rp_good :: int

definition repack_start :: repacked where
  "repack_start = \<lparr>rp_validators = [], rp_powers = [], rp_v = [], rp_r = [], rp_s = [], rp_good = 0\<rparr>"

text \<open>The loop over the members; \<open>sigOf\<close> gives the signature of a member that confirmed.\<close>

fun repack_members ::
  "geth_lib \<Rightarrow> (string \<Rightarrow> string option) \<Rightarrow> BridgeValidator list \<Rightarrow> repacked \<Rightarrow> repacked res" where
  "repack_members G sigOf [] a = Ok a"
| "repack_members G sigOf (m # ms) a =
     (let mPower = big_SetUint64 (bv_Power m);
          a1 = a\<lparr>rp_validators := rp_validators a @ [HexToAddress G (bv_EthereumAddress m)],
                 rp_powers := rp_powers a @ [mPower]\<rparr>
      in (case sigOf (bv_EthereumAddress m) of
            Some sig \<Rightarrow> (case sigToVRS G sig of
                Ok (sigV, sigR, sigS) \<Rightarrow> repack_members G sigOf ms
                  (a1\<lparr>rp_good := rp_good a1 + mPower, rp_v := rp_v a1 @ [sigV],
                      rp_r := rp_r a1 @ [sigR], rp_s := rp_s a1 @ [sigS]\<rparr>)
              | Panic e \<Rightarrow> Panic e | Err e \<Rightarrow> Err e | Exit \<Rightarrow> Exit | Diverge \<Rightarrow> Diverge)
          | None \<Rightarrow> repack_members G sigOf ms
              (a1\<lparr>rp_v := rp_v a1 @ [0], rp_r := rp_r a1 @ [0], rp_s := rp_s a1 @ [0]\<rparr>)))"

text \<open>\<open>signerToSig\<close>: a later confirmation of the same signer replaces an earlier one.\<close>

definition valsetSignerToSig :: "MsgValsetConfirm list \<Rightarrow> string \<Rightarrow> string option" where
  "valsetSignerToSig confirms addr =
     (case foldl (\<lambda>m sig. m(vc_EthAddress sig \<mapsto> sig)) Map.empty confirms addr of
        Some sig \<Rightarrow> if vc_EthAddress sig = addr then Some (vc_Signature sig) else None
      | None \<Rightarrow> None)"

definition batchSignerToSig :: "MsgConfirmBatch list \<Rightarrow> string \<Rightarrow> string option" where
  "batchSignerToSig confirms addr =
     (case foldl (\<lambda>m sig. m(cb_EthSigner sig \<mapsto> sig)) Map.empty confirms addr of
        Some sig \<Rightarrow> if cb_EthSigner sig = addr then Some (cb_Signature sig) else None
      | None \<Rightarrow> None)"

definition check_power :: "decimal_lib \<Rightarrow> repacked res \<Rightarrow> repacked res" where
  "check_power D r = (case r of
      Ok a \<Rightarrow> if peggyPowerToPercent D (rp_good a) < 66 then Err ErrInsufficientVotingPowerToPass
              else Ok a
    | e \<Rightarrow> e)"

definition checkValsetSigsAndRepack ::
  "geth_lib \<Rightarrow> decimal_lib \<Rightarrow> Valset \<Rightarrow> MsgValsetConfirm list \<Rightarrow> repacked res" where
  "checkValsetSigsAndRepack G D valset confirms =
     (if confirms = [] then Err (ErrorNew ''no signatures in valset confirmation'')
      else check_power D
        (repack_members G (valsetSignerToSig confirms) (vs_Members valset) repack_start))"

definition checkBatchSigsAndRepack ::
  "geth_lib \<Rightarrow> decimal_lib \<Rightarrow> Valset \<Rightarrow> MsgConfirmBatch list \<Rightarrow> repacked res" where
  "checkBatchSigsAndRepack G D valset confirms =
     (if confirms = [] then Err (ErrorNew ''no signatures in batch confirmation'')
      else check_power D
        (repack_members G (batchSignerToSig confirms) (vs_Members valset) repack_start))"

section \<open>Lookup of confirmations\<close>

lemma foldl_upd_last:
  "foldl (\<lambda>m c. m(key c \<mapsto> c)) m0 cs k =
     (case find (\<lambda>c. key c = k) (rev cs) of Some c \<Rightarrow> Some c | None \<Rightarrow> m0 k)"
  by (induction cs rule: rev_induct) auto

lemma find_Some_holds: "find P xs = Some x \<Longrightarrow> P x"
  by (auto simp: find_Some_iff)

text \<open>A member's signature is that of its last confirmation.\<close>

lemma valsetSignerToSig_find:
  "valsetSignerToSig cs a = map_option vc_Signature (find (\<lambda>c. vc_EthAddress c = a) (rev cs))"
  unfolding valsetSignerToSig_def foldl_upd_last
  by (cases "find (\<lambda>c. vc_EthAddress c = a) (rev cs)") (auto dest: find_Some_holds)

lemma batchSignerToSig_find:
  "batchSignerToSig cs a = map_option cb_Signature (find (\<lambda>c. cb_EthSigner c = a) (rev cs))"
  unfolding batchSignerToSig_def foldl_upd_last
  by (cases "find (\<lambda>c. cb_EthSigner c = a) (rev cs)") (auto dest: find_Some_holds)

lemma sigToVRS_cases:
  "sigToVRS G s = Ok (v, r, t) \<Longrightarrow> v \<noteq> 0"
  "(\<exists>x. sigToVRS G s = Ok x) \<longleftrightarrow> 65 \<le> length (FromHex G s)"
  "\<not> 65 \<le> length (FromHex G s) \<Longrightarrow> \<exists>e. sigToVRS G s = Panic e"
  by (auto simp: sigToVRS_def Let_def split: if_splits)

section \<open>What repacking returns\<close>

text \<open>The power of the members that confirmed.\<close>

definition signed_power :: "(string \<Rightarrow> string option) \<Rightarrow> BridgeValidator list \<Rightarrow> int" where
  "signed_power sigOf ms =
     (\<Sum>m \<leftarrow> filter (\<lambda>m. sigOf (bv_EthereumAddress m) \<noteq> None) ms. uint (bv_Power m))"

definition vrs :: "geth_lib \<Rightarrow> string option \<Rightarrow> u8 \<times> hash \<times> hash" where
  "vrs G sg = (case sg of None \<Rightarrow> (0, 0, 0)
     | Some s \<Rightarrow> (case sigToVRS G s of Ok x \<Rightarrow> x | _ \<Rightarrow> (0, 0, 0)))"

text \<open>Every confirmation used has a signature of full length.\<close>

definition sigs_long :: "geth_lib \<Rightarrow> (string \<Rightarrow> string option) \<Rightarrow> BridgeValidator list \<Rightarrow> bool" where
  "sigs_long G sigOf ms \<longleftrightarrow>
     (\<forall>m \<in> set ms. \<forall>s. sigOf (bv_EthereumAddress m) = Some s \<longrightarrow> 65 \<le> length (FromHex G s))"

lemma repack_members_Ok:
  assumes "sigs_long G sigOf ms"
  shows "repack_members G sigOf ms a = Ok
    \<lparr>rp_validators = rp_validators a @ map (\<lambda>m. HexToAddress G (bv_EthereumAddress m)) ms,
     rp_powers = rp_powers a @ map (\<lambda>m. uint (bv_Power m)) ms,
     rp_v = rp_v a @ map (\<lambda>m. fst (vrs G (sigOf (bv_EthereumAddress m)))) ms,
     rp_r = rp_r a @ map (\<lambda>m. fst (snd (vrs G (sigOf (bv_EthereumAddress m))))) ms,
     rp_s = rp_s a @ map (\<lambda>m. snd (snd (vrs G (sigOf (bv_EthereumAddress m))))) ms,
     rp_good = rp_good a + signed_power sigOf ms\<rparr>"
  using assms
proof (induction ms arbitrary: a)
  case Nil
  then show ?case by (simp add: signed_power_def)
next
  case (Cons m ms)
  have long: "sigs_long G sigOf ms" using Cons.prems by (simp add: sigs_long_def)
  show ?case
  proof (cases "sigOf (bv_EthereumAddress m)")
    case None
    then show ?thesis
      by (simp add: Let_def Cons.IH [OF long] signed_power_def vrs_def big_SetUint64_def)
  next
    case (Some s)
    then obtain v r t where "sigToVRS G s = Ok (v, r, t)"
      using Cons.prems sigToVRS_cases(2) [of G s] by (auto simp: sigs_long_def)
    with Some show ?thesis
      by (simp add: Let_def Cons.IH [OF long] signed_power_def vrs_def big_SetUint64_def)
  qed
qed

text \<open>A short signature of a member panics.\<close>

lemma repack_members_short:
  "\<not> sigs_long G sigOf ms \<Longrightarrow> \<exists>e. repack_members G sigOf ms a = Panic e"
proof (induction ms arbitrary: a)
  case Nil
  then show ?case by (simp add: sigs_long_def)
next
  case (Cons m ms)
  show ?case
  proof (cases "\<exists>s. sigOf (bv_EthereumAddress m) = Some s \<and> \<not> 65 \<le> length (FromHex G s)")
    case True
    then show ?thesis using sigToVRS_cases(3) by (force simp: Let_def)
  next
    case False
    then have "\<not> sigs_long G sigOf ms" using Cons.prems by (auto simp: sigs_long_def)
    then have IH: "\<exists>e. repack_members G sigOf ms b = Panic e" for b by (rule Cons.IH)
    show ?thesis
    proof (cases "sigOf (bv_EthereumAddress m)")
      case None
      then show ?thesis using IH by (simp add: Let_def)
    next
      case (Some s)
      then obtain v r t where "sigToVRS G s = Ok (v, r, t)"
        using False sigToVRS_cases(2) [of G s] by auto
      with Some show ?thesis using IH by (simp add: Let_def)
    qed
  qed
qed

section \<open>Properties\<close>

text \<open>The arrays handed to the contract, member by member.\<close>

definition laid_out :: "geth_lib \<Rightarrow> (string \<Rightarrow> string option) \<Rightarrow> BridgeValidator list \<Rightarrow> repacked \<Rightarrow> bool" where
  "laid_out G sigOf ms a \<longleftrightarrow>
     rp_validators a = map (\<lambda>m. HexToAddress G (bv_EthereumAddress m)) ms \<and>
     rp_powers a = map (\<lambda>m. uint (bv_Power m)) ms \<and>
     length (rp_v a) = length ms \<and> length (rp_r a) = length ms \<and> length (rp_s a) = length ms \<and>
     (\<forall>i < length ms. case sigOf (bv_EthereumAddress (ms ! i)) of
        None \<Rightarrow> rp_v a ! i = 0 \<and> rp_r a ! i = 0 \<and> rp_s a ! i = 0
      | Some sig \<Rightarrow> rp_v a ! i \<noteq> 0 \<and> sigToVRS G sig = Ok (rp_v a ! i, rp_r a ! i, rp_s a ! i)) \<and>
     rp_good a = signed_power sigOf ms"

lemma repack_laid_out:
  assumes "sigs_long G sigOf ms"
  obtains a where "repack_members G sigOf ms repack_start = Ok a" "laid_out G sigOf ms a"
proof -
  have "\<exists>v r s. sigToVRS G sg = Ok (v, r, s) \<and> v \<noteq> 0"
    if "i < length ms" "sigOf (bv_EthereumAddress (ms ! i)) = Some sg" for i sg
    using assms that sigToVRS_cases(1,2) [of G sg] nth_mem
    by (fastforce simp: sigs_long_def)
  then show thesis
    by (intro that [OF repack_members_Ok [OF assms, of repack_start]])
      (force simp: laid_out_def repack_start_def vrs_def split: option.splits)
qed

lemma check_power_Ok:
  "check_power D r = Ok a \<longleftrightarrow> r = Ok a \<and> \<not> peggyPowerToPercent D (rp_good a) < 66"
  by (auto simp: check_power_def split: res.splits)

text \<open>The two checks are instances of one: look up, repack, weigh.\<close>

lemma check_cases:
  assumes "check = check_power D (repack_members G sigOf ms repack_start)"
  shows "check = Ok a \<Longrightarrow> laid_out G sigOf ms a"
    and "sigs_long G sigOf ms \<Longrightarrow>
      (\<exists>a. check = Ok a) \<longleftrightarrow> \<not> peggyPowerToPercent D (signed_power sigOf ms) < 66"
    and "sigs_long G sigOf ms \<Longrightarrow> \<not> (\<exists>a. check = Ok a) \<Longrightarrow> check = Err ErrInsufficientVotingPowerToPass"
    and "\<not> sigs_long G sigOf ms \<Longrightarrow> \<exists>e. check = Panic e"
proof -
  have long: "\<exists>a. repack_members G sigOf ms repack_start = Ok a \<and> laid_out G sigOf ms a"
    if "sigs_long G sigOf ms" using repack_laid_out [OF that] by blast
  have short: "\<exists>e. repack_members G sigOf ms repack_start = Panic e" if "\<not> sigs_long G sigOf ms"
    using repack_members_short [OF that] .
  show "check = Ok a \<Longrightarrow> laid_out G sigOf ms a"
    using long short assms by (cases "sigs_long G sigOf ms") (auto simp: check_power_Ok)
  show "sigs_long G sigOf ms \<Longrightarrow>
      (\<exists>a. check = Ok a) \<longleftrightarrow> \<not> peggyPowerToPercent D (signed_power sigOf ms) < 66"
    using long assms by (auto simp: check_power_Ok laid_out_def)
  show "sigs_long G sigOf ms \<Longrightarrow> \<not> (\<exists>a. check = Ok a) \<Longrightarrow> check = Err ErrInsufficientVotingPowerToPass"
    using long assms by (auto simp: check_power_def split: if_splits)
  show "\<not> sigs_long G sigOf ms \<Longrightarrow> \<exists>e. check = Panic e"
    using short assms by (auto simp: check_power_def)
qed

text \<open>C28. When the confirmations of a batch pass the check, the arrays for the contract follow the
  members of the validator set in order: every member's address and power is there, a member with a
  confirmation has the parts of its last signature (and \<open>v\<close> is not zero), one without has zeroes.\<close>

theorem checkBatchSigsAndRepack_layout:
  assumes "checkBatchSigsAndRepack G D valset confirms = Ok a"
  shows "laid_out G (\<lambda>addr. map_option cb_Signature
           (find (\<lambda>c. cb_EthSigner c = addr) (rev confirms))) (vs_Members valset) a"
proof -
  have "confirms \<noteq> []" using assms by (auto simp: checkBatchSigsAndRepack_def)
  then have "laid_out G (batchSignerToSig confirms) (vs_Members valset) a"
    using check_cases(1) [OF refl, of D G "batchSignerToSig confirms" "vs_Members valset" a] assms
    by (simp add: checkBatchSigsAndRepack_def)
  then show ?thesis by (simp add: batchSignerToSig_find [abs_def])
qed

text \<open>The same layout for the confirmations of a validator set update, over the members of the
  set the contract currently holds.\<close>

theorem checkValsetSigsAndRepack_layout:
  assumes "checkValsetSigsAndRepack G D valset confirms = Ok a"
  shows "laid_out G (\<lambda>addr. map_option vc_Signature
           (find (\<lambda>c. vc_EthAddress c = addr) (rev confirms))) (vs_Members valset) a"
proof -
  have "confirms \<noteq> []" using assms by (auto simp: checkValsetSigsAndRepack_def)
  then have "laid_out G (valsetSignerToSig confirms) (vs_Members valset) a"
    using check_cases(1) [OF refl, of D G "valsetSignerToSig confirms" "vs_Members valset" a] assms
    by (simp add: checkValsetSigsAndRepack_def)
  then show ?thesis by (simp add: valsetSignerToSig_find [abs_def])
qed

subsection \<open>The power threshold\<close>

lemma signed_power_nonneg: "0 \<le> signed_power sigOf ms"
  unfolding signed_power_def by (intro sum_list_nonneg) auto

lemma percent_rounded:
  assumes "decimal_laws D" "dec_Div D (of_int pw) (of_int totalPeggyPower) = q"
  shows "peggyPowerToPercent D pw = round_float 24 (round_float 53 (q * 10 powi 2))"
  using assms by (simp add: peggyPowerToPercent_def Let_def decimal_laws_def)

lemma percent_accepts:
  assumes "decimal_laws D" "66 * totalPeggyPower \<le> 100 * pw"
  shows "66 \<le> peggyPowerToPercent D pw"
proof -
  let ?T = "of_int totalPeggyPower :: rat"
  obtain k where k: "dec_Div D (of_int pw) ?T = of_int k / 10 ^ 16"
    "\<bar>of_int k / 10 ^ 16 - of_int pw / ?T\<bar> \<le> 1 / (2 * 10 ^ 16)"
    by (rule decimal_laws_Div [OF assms(1), of ?T "of_int pw"]) (simp add: totalPeggyPower_def)
  have "of_int (66 * totalPeggyPower) \<le> (of_int (100 * pw) :: rat)"
    using assms(2) by (simp only: of_int_le_iff)
  then have "66 / 100 \<le> of_int pw / ?T" by (simp add: totalPeggyPower_def field_simps)
  with k(2) have "66 / 100 - 1 / (2 * 10 ^ 16) \<le> (of_int k / 10 ^ 16 :: rat)" by linarith
  then have "of_int (66 * 10 ^ 14) \<le> (of_int k + 1 / 2 :: rat)" by (simp add: field_simps)
  then have "66 * 10 ^ 14 \<le> k" by linarith
  then have "of_int (66 * 10 ^ 14) \<le> (of_int k :: rat)" by (simp only: of_int_le_iff)
  then have q: "of_int 66 \<le> (of_int k / 10 ^ 16 * 10 powi 2 :: rat)" by (simp add: field_simps)
  have "of_int 66 \<le> round_float 24 (round_float 53 (of_int k / 10 ^ 16 * 10 powi 2))"
    by (rule round_float_ge_int, simp, simp, rule round_float_ge_int [OF _ _ q], simp_all)
  then show ?thesis unfolding percent_rounded [OF assms(1) k(1)] by simp
qed

lemma percent_accepted:
  assumes "decimal_laws D" "66 \<le> peggyPowerToPercent D pw" "0 \<le> pw"
  shows "2834678251 \<le> pw"
proof -
  let ?T = "of_int totalPeggyPower :: rat"
  obtain k where k: "dec_Div D (of_int pw) ?T = of_int k / 10 ^ 16"
    "\<bar>of_int k / 10 ^ 16 - of_int pw / ?T\<bar> \<le> 1 / (2 * 10 ^ 16)"
    by (rule decimal_laws_Div [OF assms(1), of ?T "of_int pw"]) (simp add: totalPeggyPower_def)
  define q :: rat where "q = of_int k / 10 ^ 16 * 10 powi 2"
  have "0 \<le> of_int pw / ?T" using assms(3) by (simp add: totalPeggyPower_def)
  with k(2) have "- (1 / (2 * 10 ^ 16)) \<le> (of_int k / 10 ^ 16 :: rat)" by linarith
  then have "- (1 / 2) \<le> (of_int k :: rat)" by (simp add: field_simps)
  then have "0 \<le> k" by linarith
  then have q0: "0 \<le> q" by (simp add: q_def)
  have r: "66 \<le> round_float 24 (round_float 53 q)"
    using assms(2) unfolding percent_rounded [OF assms(1) k(1)] q_def .
  have r0: "0 \<le> round_float 53 q"
    using q0 round_half_even_ge [of 0] by (auto simp: round_float_def Let_def)
  from round_float_geD [OF r0 r, of 6]
  have "66 - 1 / 262144 \<le> round_float 53 q" by (simp add: power_int_def power_divide)
  from round_float_geD [OF q0 this, of 6]
  have "66 - 1 / 262144 - 1 / 140737488355328 \<le> q" by (simp add: power_int_def power_divide)
  then have "(66 - 1 / 262144 - 1 / 140737488355328) / 100 \<le> (of_int k / 10 ^ 16 :: rat)"
    by (simp add: q_def)
  moreover have "of_int k / 10 ^ 16 - 1 / (2 * 10 ^ 16) \<le> of_int pw / ?T"
    using k(2) unfolding abs_le_iff by linarith
  ultimately have "(66 - 1 / 262144 - 1 / 140737488355328) / 100 - 1 / (2 * 10 ^ 16) \<le> of_int pw / ?T"
    by linarith
  then have "2834678250 < (of_int pw :: rat)" by (simp add: totalPeggyPower_def field_simps)
  then show ?thesis by linarith
qed

text \<open>C16. With signatures of full length, confirmations whose signers hold 66 % of the bridge power
  pass the check of a batch and of a validator set update, and confirmations that pass hold at least
  2834678251 of the 4294967295 units. The percentage is rounded to \<open>float32\<close>, so up to 164 units
  less than 66 % pass.\<close>

theorem power_threshold:
  assumes "decimal_laws D" "bcs \<noteq> []" "vcs \<noteq> []"
    and "sigs_long G (batchSignerToSig bcs) (vs_Members valset)"
    and "sigs_long G (valsetSignerToSig vcs) (vs_Members valset)"
  shows "(66 * totalPeggyPower \<le> 100 * signed_power (batchSignerToSig bcs) (vs_Members valset) \<longrightarrow>
        (\<exists>a. checkBatchSigsAndRepack G D valset bcs = Ok a)) \<and>
    (66 * totalPeggyPower \<le> 100 * signed_power (valsetSignerToSig vcs) (vs_Members valset) \<longrightarrow>
        (\<exists>a. checkValsetSigsAndRepack G D valset vcs = Ok a)) \<and>
    (\<forall>a. checkBatchSigsAndRepack G D valset bcs = Ok a \<longrightarrow> 2834678251 \<le> rp_good a) \<and>
    (\<forall>a. checkValsetSigsAndRepack G D valset vcs = Ok a \<longrightarrow> 2834678251 \<le> rp_good a)"
proof -
  note batch = check_cases(1,2) [OF refl, where D = D and G = G
      and sigOf = "batchSignerToSig bcs" and ms = "vs_Members valset"]
  note valset = check_cases(1,2) [OF refl, where D = D and G = G
      and sigOf = "valsetSignerToSig vcs" and ms = "vs_Members valset"]
  have ok: "\<not> peggyPowerToPercent D pw < 66" if "66 * totalPeggyPower \<le> 100 * pw" for pw
    using percent_accepts [OF assms(1) that] by simp
  have low: "2834678251 \<le> signed_power sigOf ms"
    if "\<not> peggyPowerToPercent D (signed_power sigOf ms) < 66" for sigOf ms
    using percent_accepted [OF assms(1) _ signed_power_nonneg] that by simp
  show ?thesis
    using ok low batch valset assms(2-)
    by (auto simp: checkBatchSigsAndRepack_def checkValsetSigsAndRepack_def laid_out_def)
qed

text \<open>A confirmation by a member whose signature decodes to fewer than 65 bytes makes the check
  panic, for a batch and for a validator set update.\<close>

theorem short_signature_panics:
  assumes "m \<in> set (vs_Members valset)"
    and "batchSignerToSig bcs (bv_EthereumAddress m) = Some sig"
    and "valsetSignerToSig vcs (bv_EthereumAddress m) = Some sig'"
    and "length (FromHex G sig) < 65" "length (FromHex G sig') < 65"
  shows "(\<exists>e. checkBatchSigsAndRepack G D valset bcs = Panic e) \<and>
    (\<exists>e. checkValsetSigsAndRepack G D valset vcs = Panic e)"
proof -
  have "bcs \<noteq> []" "vcs \<noteq> []"
    using assms by (auto simp: batchSignerToSig_find valsetSignerToSig_find)
  moreover have "\<not> sigs_long G (batchSignerToSig bcs) (vs_Members valset)"
    "\<not> sigs_long G (valsetSignerToSig vcs) (vs_Members valset)"
    using assms by (force simp: sigs_long_def)+
  ultimately show ?thesis
    using check_cases(4) [OF refl]
    by (simp add: checkBatchSigsAndRepack_def checkValsetSigsAndRepack_def)
qed

subsection \<open>Concrete runs\<close>

text \<open>A validator set with one member that holds all the power, and one that holds none.\<close>

definition sample_valset :: Valset where
  "sample_valset = \<lparr>vs_Nonce = 4,
     vs_Members = [\<lparr>bv_Power = 4294967295, bv_EthereumAddress = ''aa''\<rparr>,
                   \<lparr>bv_Power = 0, bv_EthereumAddress = ''b''\<rparr>],
     vs_Height = 9, vs_RewardAmount = Some 0, vs_RewardToken = []\<rparr>"

definition sample_sig :: string where
  "sample_sig = replicate 65 CHR ''7''"

definition sample_batch_confirms :: "string \<Rightarrow> MsgConfirmBatch list" where
  "sample_batch_confirms sig = [\<lparr>cb_Orchestrator = ''o'', cb_Nonce = 1, cb_Signature = sig,
     cb_EthSigner = ''aa'', cb_TokenContract = ''t''\<rparr>]"

definition sample_valset_confirms :: "string \<Rightarrow> MsgValsetConfirm list" where
  "sample_valset_confirms sig = [\<lparr>vc_Orchestrator = ''o'', vc_EthAddress = ''aa'', vc_Nonce = 5,
     vc_Signature = sig\<rparr>]"

lemma sample_sigOf:
  "batchSignerToSig (sample_batch_confirms sig) ''aa'' = Some sig"
  "valsetSignerToSig (sample_valset_confirms sig) ''aa'' = Some sig"
  "batchSignerToSig (sample_batch_confirms sig) ''b'' = None"
  "valsetSignerToSig (sample_valset_confirms sig) ''b'' = None"
  by (simp_all add: batchSignerToSig_def valsetSignerToSig_def sample_batch_confirms_def
      sample_valset_confirms_def)

lemma sample_sigs_long:
  "sigs_long unary_geth (batchSignerToSig (sample_batch_confirms sample_sig)) (vs_Members sample_valset)"
  "sigs_long unary_geth (valsetSignerToSig (sample_valset_confirms sample_sig)) (vs_Members sample_valset)"
  by (simp_all add: sigs_long_def sample_valset_def sample_sigOf unary_geth_def sample_sig_def)

lemma sample_signed_power:
  "signed_power (batchSignerToSig (sample_batch_confirms s)) (vs_Members sample_valset) = 4294967295"
  "signed_power (valsetSignerToSig (sample_valset_confirms s)) (vs_Members sample_valset) = 4294967295"
  by (simp_all add: signed_power_def sample_valset_def sample_sigOf)

lemma sample_confirms_ne: "sample_batch_confirms s \<noteq> []" "sample_valset_confirms s \<noteq> []"
  by (simp_all add: sample_batch_confirms_def sample_valset_confirms_def)

lemmas sample_threshold = percent_accepts [OF exact_decimals_laws, of 4294967295]

lemma sample_checks:
  "\<exists>a. checkBatchSigsAndRepack unary_geth exact_decimals sample_valset (sample_batch_confirms sample_sig) = Ok a"
  "\<exists>a. checkValsetSigsAndRepack unary_geth exact_decimals sample_valset (sample_valset_confirms sample_sig) = Ok a"
  using check_cases(2) [OF refl sample_sigs_long(1)] check_cases(2) [OF refl sample_sigs_long(2)]
    sample_threshold sample_signed_power sample_confirms_ne
  by (simp_all add: checkBatchSigsAndRepack_def checkValsetSigsAndRepack_def totalPeggyPower_def not_less)

theorem checkBatchSigsAndRepack_layout_witness:
  "\<exists>a. laid_out unary_geth (\<lambda>addr. map_option cb_Signature
      (find (\<lambda>c. cb_EthSigner c = addr) (rev (sample_batch_confirms sample_sig)))) (vs_Members sample_valset) a"
  using sample_checks(1) checkBatchSigsAndRepack_layout by blast

theorem checkValsetSigsAndRepack_layout_witness:
  "\<exists>a. laid_out unary_geth (\<lambda>addr. map_option vc_Signature
      (find (\<lambda>c. vc_EthAddress c = addr) (rev (sample_valset_confirms sample_sig)))) (vs_Members sample_valset) a"
  using sample_checks(2) checkValsetSigsAndRepack_layout by blast

theorem power_threshold_witness:
  "\<exists>a. checkBatchSigsAndRepack unary_geth exact_decimals sample_valset (sample_batch_confirms sample_sig) = Ok a \<and>
     2834678251 \<le> rp_good a"
proof -
  note T = power_threshold [OF exact_decimals_laws sample_confirms_ne sample_sigs_long]
  have "\<exists>a. checkBatchSigsAndRepack unary_geth exact_decimals sample_valset (sample_batch_confirms sample_sig) = Ok a"
    using T by (simp add: sample_signed_power totalPeggyPower_def)
  with T show ?thesis by blast
qed

theorem short_signature_panics_witness:
  "(\<exists>e. checkBatchSigsAndRepack unary_geth exact_decimals sample_valset (sample_batch_confirms ''beef'') = Panic e) \<and>
   (\<exists>e. checkValsetSigsAndRepack unary_geth exact_decimals sample_valset (sample_valset_confirms ''beef'') = Panic e)"
  by (rule short_signature_panics [of "\<lparr>bv_Power = 4294967295, bv_EthereumAddress = ''aa''\<rparr>"
        _ _ "''beef''" _ "''beef''"])
    (simp_all add: sample_sigOf sample_valset_def unary_geth_def)

end
