(* ===== verification/PeggyContract.thy ===== *)
theory PeggyContract
  imports Wrapper Signatures
begin

text \<open>
  \<open>orchestrator/ethereum/peggy\<close>: the hashes validators sign (\<open>message_signatures.go\<close>), and the calls
  of the Peggy contract (\<open>peggy_contract.go\<close>, \<open>valset_update.go\<close>, \<open>submit_batch.go\<close>,
  \<open>send_to_cosmos.go\<close>, \<open>utils.go\<close>). The ABI coder and Keccak are
  arguments; the values handed to the coder are written out.
\<close>

section \<open>Values for the ABI coder\<close>

type_synonym packer = "string \<Rightarrow> abi_value list \<Rightarrow> bytes res"

text \<open>The ABI constants, as the method name with the names and types of its inputs.\<close>

record method_abi =
  ma_name :: string
  ma_inputs :: "(string \<times> string) list"

definition ValsetCheckpointABIJSON :: method_abi where
  "ValsetCheckpointABIJSON = \<lparr>ma_name = ''checkpoint'', ma_inputs =
     [(''_peggyId'', ''bytes32''), (''_checkpoint'', ''bytes32''), (''_valsetNonce'', ''uint256''),
      (''_validators'', ''address[]''), (''_powers'', ''uint256[]''),
      (''_rewardAmount'', ''uint256''), (''_rewardToken'', ''address'')]\<rparr>"

definition OutgoingBatchTxConfirmABIJSON :: method_abi where
  "OutgoingBatchTxConfirmABIJSON = \<lparr>ma_name = ''transactionBatch'', ma_inputs =
     [(''_peggyId'', ''bytes32''), (''_methodName'', ''bytes32''), (''_amounts'', ''uint256[]''),
      (''_destinations'', ''address[]''), (''_fees'', ''uint256[]''), (''_batchNonce'', ''uint256''),
      (''_tokenContract'', ''address''), (''_batchTimeout'', ''uint256'')]\<rparr>"

text \<open>
  \<open>abi.JSON\<close> gives the packer of a parsed ABI; \<open>peggyABI\<close> and \<open>erc20ABI\<close> are parsed from the
  bindings when the package is loaded.
\<close>

record abi_lib =
  abi_JSON :: "method_abi \<Rightarrow> goerr + packer"
  peggyABI_Pack :: packer
  erc20ABI_Pack :: packer
  Keccak256Hash :: "bytes \<Rightarrow> hash"

text \<open>\<open>var x [32]uint8; copy(x[:], []uint8(s))\<close>\<close>

definition copy32 :: "string \<Rightarrow> hash" where
  "copy32 s = foldl (\<lambda>h b. push_bit 8 h + ucast b) 0
     (take 32 (map (\<lambda>c. of_char c :: u8) s @ replicate 32 0))"

section \<open>The hashes validators sign\<close>

definition hash_packed :: "abi_lib \<Rightarrow> bytes \<Rightarrow> hash res" where
  "hash_packed A b = (if length b < 4 then Panic (ErrorNew ''slice bounds out of range'')
     else Ok (Keccak256Hash A (drop 4 b)))"

definition EncodeValsetConfirm :: "geth_lib \<Rightarrow> abi_lib \<Rightarrow> hash \<Rightarrow> Valset \<Rightarrow> hash res" where
  "EncodeValsetConfirm G A peggyID valset =
     (case abi_JSON A ValsetCheckpointABIJSON of
        Inl _ \<Rightarrow> Exit
      | Inr pack \<Rightarrow>
          (let checkpoint = copy32 ''checkpoint'';
               memberAddresses = map (\<lambda>m. HexToAddress G (bv_EthereumAddress m)) (vs_Members valset);
               convertedPowers = map (\<lambda>m. big_NewInt_int64 (bv_Power m)) (vs_Members valset);
               rewardToken = HexToAddress G (vs_RewardToken valset)
           in (case vs_RewardAmount valset of
                 None \<Rightarrow> Panic (PanicValue ''Invalid reward amount passed in valset GetCheckpoint!'')
               | Some rewardAmount \<Rightarrow>
                   (case pack ''checkpoint''
                       [AbiBytes32 peggyID, AbiBytes32 checkpoint,
                        AbiUint (Some (big_NewInt_int64 (vs_Nonce valset))),
                        AbiAddresses memberAddresses, AbiUints convertedPowers,
                        AbiUint (Some rewardAmount), AbiAddress rewardToken] of
                      Err e \<Rightarrow> Panic (PanicValue (''Error packing checkpoint! '' @ err_text e @ ''/n''))
                    | Ok b \<Rightarrow> hash_packed A b
                    | Panic e \<Rightarrow> Panic e | Exit \<Rightarrow> Exit | Diverge \<Rightarrow> Diverge))))"

definition EncodeTxBatchConfirm :: "geth_lib \<Rightarrow> abi_lib \<Rightarrow> hash \<Rightarrow> OutgoingTxBatch \<Rightarrow> hash res" where
  "EncodeTxBatchConfirm G A peggyID batch =
     (case abi_JSON A OutgoingBatchTxConfirmABIJSON of
        Inl _ \<Rightarrow> Exit
      | Inr pack \<Rightarrow>
          (let batchMethodName = copy32 ''transactionBatch'';
               txAmounts = map tx_Erc20TokenAmount (ob_Transactions batch);
               txDestinations = map (\<lambda>tx. HexToAddress G (tx_DestAddress tx)) (ob_Transactions batch);
               txFees = map tx_Erc20FeeAmount (ob_Transactions batch)
           in (case pack ''transactionBatch''
                   [AbiBytes32 peggyID, AbiBytes32 batchMethodName, AbiUints txAmounts,
                    AbiAddresses txDestinations, AbiUints txFees,
                    AbiUint (Some (big_NewInt_int64 (ob_BatchNonce batch))),
                    AbiAddress (HexToAddress G (ob_TokenContract batch)),
                    AbiUint (Some (big_NewInt_int64 (ob_BatchTimeout batch)))] of
                 Err e \<Rightarrow> Ok 0
               | Ok b \<Rightarrow> hash_packed A b
               | Panic e \<Rightarrow> Panic e | Exit \<Rightarrow> Exit | Diverge \<Rightarrow> Diverge)))"

section \<open>The contract client\<close>

record 'e peggyContract =
  EVMCommitter :: "'e ethCommitter"
  ethProvider :: "'e evm_client option"
  peggyAddress :: address
  ethPeggy :: "'e bind_contract"
  pendingTxWaitDuration :: int

definition NewPeggyContract ::
  "'e bindings \<Rightarrow> 'e ethCommitter \<Rightarrow> address \<Rightarrow> PendingTxInput list \<Rightarrow> int \<Rightarrow> ('e world, 'e peggyContract) io" where
  "NewPeggyContract B c addr pending wait =
     (case NewPeggy B addr (evmProvider c) of
        Inl e \<Rightarrow> throw e
      | Inr p \<Rightarrow> (\<lambda>w. (Ok \<lparr>EVMCommitter = c, ethProvider = None, peggyAddress = addr, ethPeggy = p,
                           pendingTxWaitDuration = wait\<rparr>, w\<lparr>pendingTxInputList := pending\<rparr>)))"

definition GetTxBatchNonce :: "'e peggyContract \<Rightarrow> address \<Rightarrow> address \<Rightarrow> ('e world, int) io" where
  "GetTxBatchNonce s erc20 caller =
     wrapE ''LastBatchNonce call failed'' (LastBatchNonce (ethPeggy s) \<lparr>opts_From = caller\<rparr> erc20)"

definition GetValsetNonce :: "'e peggyContract \<Rightarrow> address \<Rightarrow> ('e world, int) io" where
  "GetValsetNonce s caller =
     wrapE ''StateLastValsetNonce call failed'' (StateLastValsetNonce (ethPeggy s) \<lparr>opts_From = caller\<rparr>)"

definition GetPeggyID :: "'e peggyContract \<Rightarrow> address \<Rightarrow> ('e world, hash) io" where
  "GetPeggyID s caller =
     wrapE ''StatePeggyId call failed'' (StatePeggyId (ethPeggy s) \<lparr>opts_From = caller\<rparr>)"

text \<open>A call through the nil provider panics.\<close>

definition GetERC20Symbol :: "'e bindings \<Rightarrow> 'e peggyContract \<Rightarrow> address \<Rightarrow> address \<Rightarrow> ('e world, string) io" where
  "GetERC20Symbol B s erc20 caller = bindE (deref (ethProvider s)) (\<lambda>p.
     bindE (wrapE ''ERC20 [symbol] call failed''
              (lib (ct_Call (NewBoundContract B erc20 ERC20ABI p) \<lparr>opts_From = caller\<rparr> ''symbol'' []))) convert_string)"

text \<open>The check against the mempool window; the clock is read only for an entry with this input.\<close>

definition pending_input :: "('e \<Rightarrow> int \<times> 'e) \<Rightarrow> bytes \<Rightarrow> int \<Rightarrow> ('e world, bool) io" where
  "pending_input now txData wait = (\<lambda>w.
     if txData \<in> set (map InputData (pendingTxInputList w)) then
       bindE (time_Now now) (\<lambda>t. ret (IsPendingTxInput (pendingTxInputList w) txData wait t)) w
     else (Ok False, w))"

text \<open>The end of both submissions: an input already in the mempool is not sent again.\<close>

definition send_unless_pending ::
  "(address \<Rightarrow> bytes \<Rightarrow> ('e world, hash) io) \<Rightarrow> ('e \<Rightarrow> int \<times> 'e) \<Rightarrow> int \<Rightarrow> address \<Rightarrow> string \<Rightarrow> bytes \<Rightarrow>
     ('e world, hash) io" where
  "send_unless_pending sendTx now wait addr msg txData =
     bindE (pending_input now txData wait) (\<lambda>pending.
       if pending then throw (ErrorNew msg) else sendTx addr txData)"

definition validatorsAndPowers :: "geth_lib \<Rightarrow> Valset \<Rightarrow> address list \<times> int list" where
  "validatorsAndPowers G valset =
     (map (\<lambda>m. HexToAddress G (bv_EthereumAddress m)) (vs_Members valset),
      map (\<lambda>m. big_SetUint64 (bv_Power m)) (vs_Members valset))"

definition getBatchCheckpointValues ::
  "geth_lib \<Rightarrow> OutgoingTxBatch \<Rightarrow> int list \<times> address list \<times> int list" where
  "getBatchCheckpointValues G batch =
     (map tx_Erc20TokenAmount (ob_Transactions batch),
      map (\<lambda>tx. HexToAddress G (tx_DestAddress tx)) (ob_Transactions batch),
      map tx_Erc20FeeAmount (ob_Transactions batch))"

text \<open>The environment of the contract client: libraries, clock and the fuel of the submission loop.\<close>

record 'e eth_env =
  ee_geth :: geth_lib
  ee_dec :: decimal_lib
  ee_abi :: abi_lib
  ee_now :: "'e \<Rightarrow> int \<times> 'e"
  ee_fuel :: nat

definition valset_args :: "geth_lib \<Rightarrow> Valset \<Rightarrow> address list \<Rightarrow> int list \<Rightarrow> ValsetArgs" where
  "valset_args G vs validators powers =
     \<lparr>va_Validators = validators, va_Powers = powers, va_ValsetNonce = big_SetUint64 (vs_Nonce vs),
      va_RewardAmount = vs_RewardAmount vs, va_RewardToken = HexToAddress G (vs_RewardToken vs)\<rparr>"

definition SendEthValsetUpdate ::
  "'e eth_env \<Rightarrow> 'e peggyContract \<Rightarrow> Valset \<Rightarrow> Valset \<Rightarrow> MsgValsetConfirm list \<Rightarrow> ('e world, hash) io" where
  "SendEthValsetUpdate E s oldValset newValset confirms =
     (let G = ee_geth E in
      if vs_Nonce newValset \<le> vs_Nonce oldValset then
        throw (ErrorNew ''new valset nonce should be greater than old valset nonce'')
      else
        (case validatorsAndPowers G newValset of (newValidators, newPowers) \<Rightarrow>
          (let newValsetArgs = valset_args G newValset newValidators newPowers
           in bindE (wrapE ''confirmations check failed''
                      (pure_call (checkValsetSigsAndRepack G (ee_dec E) oldValset confirms)))
                (\<lambda>a. let currentValsetArgs = valset_args G oldValset (rp_validators a) (rp_powers a)
                     in bindE (pure_call (peggyABI_Pack (ee_abi E) ''updateValset''
                                 [AbiTuple newValsetArgs, AbiTuple currentValsetArgs,
                                  AbiUint8s (rp_v a), AbiBytes32s (rp_r a), AbiBytes32s (rp_s a)]))
                          (send_unless_pending (SendTx (ee_fuel E) (EVMCommitter s)) (ee_now E)
                             (pendingTxWaitDuration s) (peggyAddress s)
                             ''Transaction with same valset input data is already present in mempool'')))))"

definition SendTransactionBatch ::
  "'e eth_env \<Rightarrow> 'e peggyContract \<Rightarrow> Valset \<Rightarrow> OutgoingTxBatch \<Rightarrow> MsgConfirmBatch list \<Rightarrow> ('e world, hash) io" where
  "SendTransactionBatch E s currentValset batch confirms =
     (let G = ee_geth E in
      bindE (wrapE ''confirmations check failed''
              (pure_call (checkBatchSigsAndRepack G (ee_dec E) currentValset confirms)))
        (\<lambda>a. case getBatchCheckpointValues G batch of (amounts, destinations, fees) \<Rightarrow>
          (let currentValsetArgs = valset_args G currentValset (rp_validators a) (rp_powers a)
           in bindE (pure_call (peggyABI_Pack (ee_abi E) ''submitBatch''
                       [AbiTuple currentValsetArgs, AbiUint8s (rp_v a), AbiBytes32s (rp_r a),
                        AbiBytes32s (rp_s a), AbiUints amounts, AbiAddresses destinations,
                        AbiUints fees, AbiUint (Some (big_SetUint64 (ob_BatchNonce batch))),
                        AbiAddress (HexToAddress G (ob_TokenContract batch)),
                        AbiUint (Some (big_SetUint64 (ob_BatchTimeout batch)))]))
                (send_unless_pending (SendTx (ee_fuel E) (EVMCommitter s)) (ee_now E)
                   (pendingTxWaitDuration s) (peggyAddress s)
                   ''Transaction with same batch input data is already present in mempool''))))"

definition maxUintAllowance :: int where
  "maxUintAllowance = 2 ^ 256 - 1"

definition pad_right :: "nat \<Rightarrow> bytes \<Rightarrow> bytes" where
  "pad_right n b = b @ replicate (n - length b) 0"

definition SendToCosmos ::
  "'e bindings \<Rightarrow> 'e eth_env \<Rightarrow> 'e peggyContract \<Rightarrow> address \<Rightarrow> int \<Rightarrow> bytes \<Rightarrow> address \<Rightarrow> ('e world, hash) io" where
  "SendToCosmos B E s erc20 amount cosmosAccAddress senderAddress =
     (case NewERC20 B erc20 of
        Inl e \<Rightarrow> throw (Wrapped ''failed to get ERC20 wrapper'' e)
      | Inr mk \<Rightarrow> bindE (deref (ethProvider s)) (\<lambda>p.
          bindE (wrapE ''failed to get ERC20 allowance for peggy contract''
                   (Allowance (mk p) \<lparr>opts_From = 0\<rparr> senderAddress (peggyAddress s))) (\<lambda>allowance.
          bindE (if allowance \<noteq> maxUintAllowance then
                   bindE (pure_call (erc20ABI_Pack (ee_abi E) ''approve''
                            [AbiAddress (peggyAddress s), AbiUint (Some maxUintAllowance)]))
                     (\<lambda>txData. bindE (SendTx (ee_fuel E) (EVMCommitter s) erc20 txData) (\<lambda>_. ret ()))
                 else ret ()) (\<lambda>_.
          bindE (pure_call (peggyABI_Pack (ee_abi E) ''sendToCosmos''
                   [AbiAddress erc20, AbiBytes (pad_right 32 cosmosAccAddress), AbiUint (Some amount)]))
            (SendTx (ee_fuel E) (EVMCommitter s) (peggyAddress s))))))"

section \<open>Submissions\<close>

lemma pending_input_keeps: "keeps same_submitted (pending_input now txData wait)"
  by (rule keepsI)
    (auto simp: pending_input_def io_simps same_submitted_def split: prod.splits if_splits)

context evm_committer
begin

lemma send_unless_pending_sends:
  assumes faithful
  shows "keeps (submits (\<lambda>tx. et_To tx = addr \<and> et_Data tx = txData \<and> et_GasPrice tx \<le> maxPrice))
    (send_unless_pending sendTx now wait addr msg txData)"
  unfolding send_unless_pending_def
  by (intro submits.keeps_rules pending_input_keeps [THEN same_submitted_submits] sends assms)

lemma send_unless_pending_accepted:
  assumes "send_unless_pending sendTx now wait addr msg txData w = (Ok h, w')"
  shows "\<exists>xs tx. submitted w' = submitted w @ xs @ [(tx, True)]"
proof -
  obtain w1 where "pending_input now txData wait w = (Ok False, w1)" "sendTx addr txData w1 = (Ok h, w')"
    using assms by (auto simp: send_unless_pending_def elim!: io_elims split: if_splits)
  with accepted keepsD [OF pending_input_keeps] show ?thesis
    by (fastforce simp: same_submitted_def)
qed

end

text \<open>The input is in the mempool window and its waiting time is not over: nothing is submitted.\<close>

lemma send_unless_pending_skips:
  assumes "find (\<lambda>p. InputData p = txData) (pendingTxInputList w) = Some p"
    and "now (outside w) = (t, o')" "t < ReceivedTime p + wait"
  shows "send_unless_pending sendTx now wait addr msg txData w =
    (Err (ErrorNew msg), w\<lparr>outside := o'\<rparr>)"
proof -
  have "txData \<in> InputData ` set (pendingTxInputList w)"
    using assms(1) by (force simp: find_Some_iff)
  with assms show ?thesis
    by (simp add: send_unless_pending_def pending_input_def io_simps IsPendingTxInput_find)
qed

end
