(* ===== verification/PeggySol.thy ===== *)
theory PeggySol
  imports PeggyContract
begin

text \<open>
  The other side of \<open>orchestrator/ethereum/peggy\<close>: the hashes and the checks of
  \<open>solidity/contracts/Peggy.sol\<close>, against which the hashes validators sign and the arguments the
  relayer submits are proved to agree. Solidity's \<open>abi.encode\<close>, Keccak and signature recovery are
  arguments. A \<open>uint256\<close> is an integer and the compiler's checked additions are written out: an
  addition that leaves the 256-bit range reverts.
\<close>

section \<open>Hashes of the contract\<close>

type_synonym encoder = "abi_value list \<Rightarrow> bytes"

definition makeCheckpoint :: "(bytes \<Rightarrow> hash) \<Rightarrow> encoder \<Rightarrow> ValsetArgs \<Rightarrow> hash \<Rightarrow> hash" where
  "makeCheckpoint keccak enc args peggyId = keccak (enc
     [AbiBytes32 peggyId,
      AbiBytes32 0x636865636b706f696e7400000000000000000000000000000000000000000000,
      AbiUint (Some (va_ValsetNonce args)), AbiAddresses (va_Validators args),
      AbiUints (va_Powers args), AbiUint (va_RewardAmount args), AbiAddress (va_RewardToken args)])"

record BatchArgs =
  ba_amounts :: "int list"
  ba_destinations :: "address list"
  ba_fees :: "int list"
  ba_batchNonce :: int
  ba_tokenContract :: address
  ba_batchTimeout :: int

definition batchHash :: "(bytes \<Rightarrow> hash) \<Rightarrow> encoder \<Rightarrow> BatchArgs \<Rightarrow> hash \<Rightarrow> hash" where
  "batchHash keccak enc b peggyId = keccak (enc
     [AbiBytes32 peggyId,
      AbiBytes32 0x7472616e73616374696f6e426174636800000000000000000000000000000000,
      AbiUints (ba_amounts b), AbiAddresses (ba_destinations b), AbiUints (ba_fees b),
      AbiUint (Some (ba_batchNonce b)), AbiAddress (ba_tokenContract b),
      AbiUint (Some (ba_batchTimeout b))])"

section \<open>Checks of the contract\<close>

text \<open>The storage of the contract, followed by that of its base contracts \<open>Initializable\<close>,
  \<open>OwnableUpgradeableWithExpiry\<close>, \<open>Pausable\<close> and \<open>ReentrancyGuard\<close>.\<close>

record Peggy =
  state_lastValsetCheckpoint :: hash
  state_lastBatchNonces :: "address \<Rightarrow> int"
  state_invalidationMapping :: "hash \<Rightarrow> int"
  state_lastValsetNonce :: int
  state_lastEventNonce :: int
  state_peggyId :: hash
  state_powerThreshold :: int
  isInjectiveNativeToken :: "address \<Rightarrow> bool"
  peggy_initialized :: bool
  peggy_initializing :: bool
  peggy_owner :: address
  peggy_deployTimestamp :: int
  peggy_paused :: bool
  peggy_entered :: bool

definition is_uint256 :: "int \<Rightarrow> bool" where
  "is_uint256 x \<longleftrightarrow> 0 \<le> x \<and> x < 2 ^ 256"

definition MAX_NONCE_JUMP_LIMIT :: int where
  "MAX_NONCE_JUMP_LIMIT = 10000000000000"

type_synonym verifier = "address \<Rightarrow> hash \<Rightarrow> u8 \<Rightarrow> hash \<Rightarrow> hash \<Rightarrow> bool"

fun checkValidatorSignatures ::
  "verifier \<Rightarrow> hash \<Rightarrow> int \<Rightarrow> (address \<times> int \<times> u8 \<times> hash \<times> hash) list \<Rightarrow> int \<Rightarrow> bool" where
  "checkValidatorSignatures verifySig h thr [] cum = (cum > thr)"
| "checkValidatorSignatures verifySig h thr ((a, p, v, r, s) # rest) cum =
     (if v \<noteq> 0 then
        verifySig a h v r s \<and> is_uint256 (cum + p) \<and>
        (if cum + p > thr then True else checkValidatorSignatures verifySig h thr rest (cum + p))
      else checkValidatorSignatures verifySig h thr rest cum)"

fun enough_power :: "int \<Rightarrow> int list \<Rightarrow> int \<Rightarrow> bool" where
  "enough_power thr [] cum = (cum > thr)"
| "enough_power thr (p # ps) cum = (is_uint256 (cum + p) \<and>
     (if cum + p > thr then True else enough_power thr ps (cum + p)))"

definition validateValidatorSet :: "address list \<Rightarrow> int list \<Rightarrow> int \<Rightarrow> bool" where
  "validateValidatorSet validators powers thr \<longleftrightarrow>
     length validators = length powers \<and> enough_power thr powers 0"

definition zip5 ::
  "ValsetArgs \<Rightarrow> u8 list \<Rightarrow> hash list \<Rightarrow> hash list \<Rightarrow> (address \<times> int \<times> u8 \<times> hash \<times> hash) list" where
  "zip5 cur v r s = zip (va_Validators cur) (zip (va_Powers cur) (zip v (zip r s)))"

text \<open>The requirements of \<open>updateValset\<close> and of \<open>submitBatch\<close>.\<close>

definition updateValset_checks ::
  "(bytes \<Rightarrow> hash) \<Rightarrow> encoder \<Rightarrow> verifier \<Rightarrow> Peggy \<Rightarrow> ValsetArgs \<Rightarrow> ValsetArgs \<Rightarrow>
     u8 list \<Rightarrow> hash list \<Rightarrow> hash list \<Rightarrow> bool" where
  "updateValset_checks keccak enc verifySig st new cur v r s \<longleftrightarrow>
     va_ValsetNonce new > va_ValsetNonce cur \<and>
     length (va_Validators cur) = length (va_Powers cur) \<and> length (va_Validators cur) = length v \<and>
     length (va_Validators cur) = length r \<and> length (va_Validators cur) = length s \<and>
     is_uint256 (va_ValsetNonce cur + MAX_NONCE_JUMP_LIMIT) \<and>
     va_ValsetNonce new < va_ValsetNonce cur + MAX_NONCE_JUMP_LIMIT \<and>
     makeCheckpoint keccak enc cur (state_peggyId st) = state_lastValsetCheckpoint st \<and>
     checkValidatorSignatures verifySig (makeCheckpoint keccak enc new (state_peggyId st))
       (state_powerThreshold st) (zip5 cur v r s) 0 \<and>
     validateValidatorSet (va_Validators new) (va_Powers new) (state_powerThreshold st)"

definition submitBatch_checks ::
  "(bytes \<Rightarrow> hash) \<Rightarrow> encoder \<Rightarrow> verifier \<Rightarrow> int \<Rightarrow> Peggy \<Rightarrow> ValsetArgs \<Rightarrow> u8 list \<Rightarrow> hash list \<Rightarrow>
     hash list \<Rightarrow> BatchArgs \<Rightarrow> bool" where
  "submitBatch_checks keccak enc verifySig blockNumber st cur v r s b \<longleftrightarrow>
     state_lastBatchNonces st (ba_tokenContract b) < ba_batchNonce b \<and>
     is_uint256 (state_lastBatchNonces st (ba_tokenContract b) + MAX_NONCE_JUMP_LIMIT) \<and>
     ba_batchNonce b < state_lastBatchNonces st (ba_tokenContract b) + MAX_NONCE_JUMP_LIMIT \<and>
     blockNumber < ba_batchTimeout b \<and>
     length (va_Validators cur) = length (va_Powers cur) \<and> length (va_Validators cur) = length v \<and>
     length (va_Validators cur) = length r \<and> length (va_Validators cur) = length s \<and>
     makeCheckpoint keccak enc cur (state_peggyId st) = state_lastValsetCheckpoint st \<and>
     length (ba_amounts b) = length (ba_destinations b) \<and> length (ba_amounts b) = length (ba_fees b) \<and>
     checkValidatorSignatures verifySig (batchHash keccak enc b (state_peggyId st))
       (state_powerThreshold st) (zip5 cur v r s) 0"

section \<open>The coder\<close>

text \<open>
  What go-ethereum's coder documents: arguments of the declared types are packed as the method
  selector followed by their ABI encoding. The integers are encoded modulo \<open>2 ^ 256\<close>.
\<close>

fun abi_type :: "abi_value \<Rightarrow> string" where
  "abi_type (AbiBytes32 _) = ''bytes32''"
| "abi_type (AbiUint None) = ''nil''"
| "abi_type (AbiUint (Some _)) = ''uint256''"
| "abi_type (AbiAddress _) = ''address''"
| "abi_type (AbiUints _) = ''uint256[]''"
| "abi_type (AbiAddresses _) = ''address[]''"
| "abi_type (AbiUint8s _) = ''uint8[]''"
| "abi_type (AbiBytes32s _) = ''bytes32[]''"
| "abi_type (AbiBytes _) = ''bytes''"
| "abi_type (AbiTuple _) = ''tuple''"
| "abi_type (AbiString _) = ''string''"

definition coder_laws :: "abi_lib \<Rightarrow> encoder \<Rightarrow> bool" where
  "coder_laws A enc \<longleftrightarrow>
     (\<forall>m. \<exists>pack. abi_JSON A m = Inr pack \<and>
        (\<forall>args. map abi_type args = map snd (ma_inputs m) \<longrightarrow>
           (\<exists>b. pack (ma_name m) args = Ok b \<and> 4 \<le> length b \<and> drop 4 b = enc args)))"

lemma coder_lawsE:
  assumes "coder_laws A enc" "map abi_type args = map snd (ma_inputs m)"
  obtains pack b where "abi_JSON A m = Inr pack" "pack (ma_name m) args = Ok b" "4 \<le> length b"
    "drop 4 b = enc args"
  using assms unfolding coder_laws_def by blast

lemma copy32_checkpoint:
  "copy32 ''checkpoint'' = 0x636865636b706f696e7400000000000000000000000000000000000000000000"
  by code_simp

lemma copy32_transactionBatch:
  "copy32 ''transactionBatch'' = 0x7472616e73616374696f6e426174636800000000000000000000000000000000"
  by code_simp

section \<open>What is signed is what is submitted\<close>

text \<open>The arguments of a validator set as \<open>SendEthValsetUpdate\<close> submits them, and of a batch.\<close>

definition new_valset_args :: "geth_lib \<Rightarrow> Valset \<Rightarrow> ValsetArgs" where
  "new_valset_args G vs = (case validatorsAndPowers G vs of (validators, powers) \<Rightarrow>
     valset_args G vs validators powers)"

definition batch_args :: "geth_lib \<Rightarrow> OutgoingTxBatch \<Rightarrow> BatchArgs" where
  "batch_args G batch = (case getBatchCheckpointValues G batch of (amounts, destinations, fees) \<Rightarrow>
     \<lparr>ba_amounts = amounts, ba_destinations = destinations, ba_fees = fees,
      ba_batchNonce = big_SetUint64 (ob_BatchNonce batch),
      ba_tokenContract = HexToAddress G (ob_TokenContract batch),
      ba_batchTimeout = big_SetUint64 (ob_BatchTimeout batch)\<rparr>)"

lemma hash_packed_Ok: "4 \<le> length b \<Longrightarrow> hash_packed A b = Ok (Keccak256Hash A (drop 4 b))"
  by (simp add: hash_packed_def)

lemma big_NewInt_small: "uint x < 2 ^ 63 \<Longrightarrow> big_NewInt_int64 x = uint x"
  using big_NewInt_int64_eq_iff [of x] by (simp add: big_SetUint64_def)

lemma EncodeValsetConfirm_eq:
  assumes laws: "coder_laws A enc" and reward: "vs_RewardAmount vs = Some amt"
    and nonce: "uint (vs_Nonce vs) < 2 ^ 63"
    and powers: "\<forall>m \<in> set (vs_Members vs). uint (bv_Power m) < 2 ^ 63"
  shows "EncodeValsetConfirm G A peggyID vs =
    Ok (makeCheckpoint (Keccak256Hash A) enc (new_valset_args G vs) peggyID)"
proof -
  let ?m = ValsetCheckpointABIJSON
  let ?args = "[AbiBytes32 peggyID, AbiBytes32 (copy32 ''checkpoint''),
    AbiUint (Some (uint (vs_Nonce vs))),
    AbiAddresses (map (\<lambda>m. HexToAddress G (bv_EthereumAddress m)) (vs_Members vs)),
    AbiUints (map (\<lambda>m. uint (bv_Power m)) (vs_Members vs)), AbiUint (Some amt),
    AbiAddress (HexToAddress G (vs_RewardToken vs))]"
  have m: "map abi_type ?args = map snd (ma_inputs ?m)" "ma_name ?m = ''checkpoint''"
    by (simp_all add: ValsetCheckpointABIJSON_def)
  obtain pack b where p: "abi_JSON A ?m = Inr pack" "pack (ma_name ?m) ?args = Ok b"
    "4 \<le> length b" "drop 4 b = enc ?args" by (rule coder_lawsE [OF laws m(1)])
  have pw: "map (\<lambda>m. big_NewInt_int64 (bv_Power m)) (vs_Members vs) =
      map (\<lambda>m. uint (bv_Power m)) (vs_Members vs)"
    using powers by (auto intro!: big_NewInt_small)
  show ?thesis
    using p m(2) big_NewInt_small [OF nonce]
    by (simp add: pw EncodeValsetConfirm_def Let_def reward hash_packed_Ok makeCheckpoint_def
        new_valset_args_def validatorsAndPowers_def valset_args_def big_SetUint64_def
        copy32_checkpoint)
qed

text \<open>C19. For a validator set with a reward amount, and with its nonce and powers below \<open>2 ^ 63\<close>, the hash a
  validator signs is the checkpoint the contract computes from the arguments the relayer submits for
  that set.\<close>

theorem EncodeValsetConfirm_agrees:
  assumes laws: "coder_laws A enc" and reward: "vs_RewardAmount vs = Some amt"
    and nonce: "uint (vs_Nonce vs) < 2 ^ 63"
    and powers: "\<forall>m \<in> set (vs_Members vs). uint (bv_Power m) < 2 ^ 63"
  shows "EncodeValsetConfirm G A peggyID vs =
    Ok (makeCheckpoint (Keccak256Hash A) enc (new_valset_args G vs) peggyID)"
  by (rule EncodeValsetConfirm_eq [OF assms])

lemma EncodeTxBatchConfirm_eq:
  assumes laws: "coder_laws A enc"
    and nonce: "uint (ob_BatchNonce batch) < 2 ^ 63" and timeout: "uint (ob_BatchTimeout batch) < 2 ^ 63"
  shows "EncodeTxBatchConfirm G A peggyID batch =
    Ok (batchHash (Keccak256Hash A) enc (batch_args G batch) peggyID)"
proof -
  let ?m = OutgoingBatchTxConfirmABIJSON
  let ?args = "[AbiBytes32 peggyID, AbiBytes32 (copy32 ''transactionBatch''),
    AbiUints (map tx_Erc20TokenAmount (ob_Transactions batch)),
    AbiAddresses (map (\<lambda>tx. HexToAddress G (tx_DestAddress tx)) (ob_Transactions batch)),
    AbiUints (map tx_Erc20FeeAmount (ob_Transactions batch)),
    AbiUint (Some (uint (ob_BatchNonce batch))), AbiAddress (HexToAddress G (ob_TokenContract batch)),
    AbiUint (Some (uint (ob_BatchTimeout batch)))]"
  have m: "map abi_type ?args = map snd (ma_inputs ?m)" "ma_name ?m = ''transactionBatch''"
    by (simp_all add: OutgoingBatchTxConfirmABIJSON_def)
  obtain pack b where p: "abi_JSON A ?m = Inr pack" "pack (ma_name ?m) ?args = Ok b"
    "4 \<le> length b" "drop 4 b = enc ?args" by (rule coder_lawsE [OF laws m(1)])
  show ?thesis
    using p m(2) big_NewInt_small [OF nonce] big_NewInt_small [OF timeout]
    by (simp add: EncodeTxBatchConfirm_def Let_def hash_packed_Ok batchHash_def batch_args_def
        getBatchCheckpointValues_def big_SetUint64_def copy32_transactionBatch)
qed

text \<open>C20. For a batch with its nonce and timeout below \<open>2 ^ 63\<close>, the hash a validator signs is the one the
  contract computes from the arguments the relayer submits for that batch.\<close>

theorem EncodeTxBatchConfirm_agrees:
  assumes laws: "coder_laws A enc"
    and nonce: "uint (ob_BatchNonce batch) < 2 ^ 63" and timeout: "uint (ob_BatchTimeout batch) < 2 ^ 63"
  shows "EncodeTxBatchConfirm G A peggyID batch =
    Ok (batchHash (Keccak256Hash A) enc (batch_args G batch) peggyID)"
  by (rule EncodeTxBatchConfirm_eq [OF assms])

section \<open>The contract accepts what the relayer submits\<close>

lemma checkValidatorSignatures_enough:
  assumes "\<forall>x \<in> set l. 0 \<le> fst (snd x) \<and> thr + fst (snd x) < 2 ^ 256 \<and> (fst (snd (snd x)) \<noteq> 0 \<longrightarrow>
      verifySig (fst x) h (fst (snd (snd x))) (fst (snd (snd (snd x)))) (snd (snd (snd (snd x)))))"
    and "0 \<le> cum" "cum \<le> thr" "thr < cum + (\<Sum>x \<leftarrow> filter (\<lambda>x. fst (snd (snd x)) \<noteq> 0) l. fst (snd x))"
  shows "checkValidatorSignatures verifySig h thr l cum"
  using assms
proof (induction l arbitrary: cum)
  case Nil
  then show ?case by simp
next
  case (Cons x l)
  obtain a p v r s where x: "x = (a, p, v, r, s)" by (cases x)
  show ?case using Cons.prems Cons.IH [of cum] Cons.IH [of "cum + p"]
    by (cases "v = 0") (auto simp: x add.assoc is_uint256_def)
qed

lemma enough_power_sum:
  "\<forall>p \<in> set ps. 0 \<le> p \<and> thr + p < 2 ^ 256 \<Longrightarrow> 0 \<le> cum \<Longrightarrow> cum \<le> thr \<Longrightarrow>
     thr < cum + sum_list ps \<Longrightarrow> enough_power thr ps cum"
  by (induction ps arbitrary: cum) (auto simp: algebra_simps is_uint256_def)

lemma uint64_below:
  fixes p :: u64
  assumes "thr < 2 ^ 255"
  shows "thr + uint p < 2 ^ 256"
  using assms uint_bounded [of p] by simp

lemma laid_out_vrs:
  assumes "laid_out G sigOf ms a" "i < length ms"
  shows "vrs G (sigOf (bv_EthereumAddress (ms ! i))) = (rp_v a ! i, rp_r a ! i, rp_s a ! i)"
    and "rp_v a ! i \<noteq> 0 \<longleftrightarrow> sigOf (bv_EthereumAddress (ms ! i)) \<noteq> None"
  using assms by (auto simp: laid_out_def vrs_def split: option.splits)

lemma laid_out_zip5:
  assumes "laid_out G sigOf ms a"
  shows "zip5 (valset_args G vs (rp_validators a) (rp_powers a)) (rp_v a) (rp_r a) (rp_s a) =
    map (\<lambda>m. (HexToAddress G (bv_EthereumAddress m), uint (bv_Power m),
              vrs G (sigOf (bv_EthereumAddress m)))) ms"
  using assms laid_out_vrs(1) [OF assms]
  by (intro nth_equalityI) (auto simp: zip5_def valset_args_def laid_out_def)

text \<open>Enough power signed the hash, so the contract's signature check passes on the repacked arrays.\<close>

lemma laid_out_checks:
  assumes laid: "laid_out G sigOf ms a"
    and sound: "\<And>m sig v r s. m \<in> set ms \<Longrightarrow> sigOf (bv_EthereumAddress m) = Some sig \<Longrightarrow>
        sigToVRS G sig = Ok (v, r, s) \<Longrightarrow> verifySig (HexToAddress G (bv_EthereumAddress m)) h v r s"
    and power: "0 \<le> thr" "thr < 2 ^ 255" "thr < signed_power sigOf ms"
  shows "checkValidatorSignatures verifySig h thr
    (zip5 (valset_args G vs (rp_validators a) (rp_powers a)) (rp_v a) (rp_r a) (rp_s a)) 0"
proof -
  define entry where "entry m = (HexToAddress G (bv_EthereumAddress m), uint (bv_Power m),
    vrs G (sigOf (bv_EthereumAddress m)))" for m :: BridgeValidator
  have v0: "fst (vrs G (sigOf (bv_EthereumAddress m))) \<noteq> 0 \<longleftrightarrow> sigOf (bv_EthereumAddress m) \<noteq> None"
    if "m \<in> set ms" for m
    using that laid_out_vrs [OF laid] by (metis fst_conv in_set_conv_nth)
  have entries: "\<forall>x \<in> set (map entry ms). 0 \<le> fst (snd x) \<and> thr + fst (snd x) < 2 ^ 256 \<and> (fst (snd (snd x)) \<noteq> 0 \<longrightarrow>
      verifySig (fst x) h (fst (snd (snd x))) (fst (snd (snd (snd x)))) (snd (snd (snd (snd x)))))"
  proof (clarsimp simp: entry_def uint64_below [OF power(2)] simp del: power_numeral)
    fix m
    assume m: "m \<in> set ms" and v: "fst (vrs G (sigOf (bv_EthereumAddress m))) \<noteq> 0"
    obtain sig where sig: "sigOf (bv_EthereumAddress m) = Some sig" using v0 m v by blast
    then obtain v r s where "sigToVRS G sig = Ok (v, r, s)"
      using v by (auto simp: vrs_def split: res.splits)
    with sound [OF m sig] sig show "verifySig (HexToAddress G (bv_EthereumAddress m)) h
        (fst (vrs G (sigOf (bv_EthereumAddress m))))
        (fst (snd (vrs G (sigOf (bv_EthereumAddress m)))))
        (snd (snd (vrs G (sigOf (bv_EthereumAddress m)))))" by (simp add: vrs_def)
  qed
  have "filter (\<lambda>x. fst (snd (snd x)) \<noteq> 0) (map entry ms) =
      map entry (filter (\<lambda>m. sigOf (bv_EthereumAddress m) \<noteq> None) ms)"
    unfolding filter_map using v0
    by (intro arg_cong [where f = "map entry"] filter_cong) (auto simp: entry_def)
  then have "(\<Sum>x \<leftarrow> filter (\<lambda>x. fst (snd (snd x)) \<noteq> 0) (map entry ms). fst (snd x)) =
      signed_power sigOf ms"
    by (simp add: signed_power_def entry_def comp_def)
  with entries power have "checkValidatorSignatures verifySig h thr (map entry ms) 0"
    by (intro checkValidatorSignatures_enough) auto
  then show ?thesis unfolding laid_out_zip5 [OF laid] entry_def .
qed

text \<open>The call data of the two submissions.\<close>

definition updateValset_data :: "'e eth_env \<Rightarrow> Valset \<Rightarrow> Valset \<Rightarrow> MsgValsetConfirm list \<Rightarrow> bytes \<Rightarrow> bool" where
  "updateValset_data E old new confirms d \<longleftrightarrow> (\<exists>a.
     checkValsetSigsAndRepack (ee_geth E) (ee_dec E) old confirms = Ok a \<and>
     peggyABI_Pack (ee_abi E) ''updateValset''
       [AbiTuple (new_valset_args (ee_geth E) new),
        AbiTuple (valset_args (ee_geth E) old (rp_validators a) (rp_powers a)),
        AbiUint8s (rp_v a), AbiBytes32s (rp_r a), AbiBytes32s (rp_s a)] = Ok d)"

definition submitBatch_data :: "'e eth_env \<Rightarrow> Valset \<Rightarrow> OutgoingTxBatch \<Rightarrow> MsgConfirmBatch list \<Rightarrow> bytes \<Rightarrow> bool" where
  "submitBatch_data E cur batch confirms d \<longleftrightarrow> (\<exists>a.
     checkBatchSigsAndRepack (ee_geth E) (ee_dec E) cur confirms = Ok a \<and>
     (let b = batch_args (ee_geth E) batch
      in peggyABI_Pack (ee_abi E) ''submitBatch''
       [AbiTuple (valset_args (ee_geth E) cur (rp_validators a) (rp_powers a)),
        AbiUint8s (rp_v a), AbiBytes32s (rp_r a), AbiBytes32s (rp_s a),
        AbiUints (ba_amounts b), AbiAddresses (ba_destinations b), AbiUints (ba_fees b),
        AbiUint (Some (ba_batchNonce b)), AbiAddress (ba_tokenContract b),
        AbiUint (Some (ba_batchTimeout b))] = Ok d))"

lemma SendEthValsetUpdate_cases:
  assumes "SendEthValsetUpdate E s old new confirms w = (r, w')"
  shows "(submitted w' = submitted w \<and> (\<forall>h. r \<noteq> Ok h)) \<or>
    (\<exists>d. vs_Nonce old < vs_Nonce new \<and> updateValset_data E old new confirms d \<and>
       send_unless_pending (SendTx (ee_fuel E) (EVMCommitter s)) (ee_now E) (pendingTxWaitDuration s)
         (peggyAddress s) ''Transaction with same valset input data is already present in mempool''
         d w = (r, w'))"
  using assms
  by (auto simp: SendEthValsetUpdate_def Let_def io_simps updateValset_data_def new_valset_args_def
      not_le split: if_splits res.splits prod.splits)

lemma SendTransactionBatch_cases:
  assumes "SendTransactionBatch E s cur batch confirms w = (r, w')"
  shows "(submitted w' = submitted w \<and> (\<forall>h. r \<noteq> Ok h)) \<or>
    (\<exists>d. submitBatch_data E cur batch confirms d \<and>
       send_unless_pending (SendTx (ee_fuel E) (EVMCommitter s)) (ee_now E) (pendingTxWaitDuration s)
         (peggyAddress s) ''Transaction with same batch input data is already present in mempool''
         d w = (r, w'))"
  using assms
  by (auto simp: SendTransactionBatch_def Let_def io_simps submitBatch_data_def batch_args_def
      split: if_splits res.splits prod.splits)

text \<open>What the committer's contract gives for a call that goes out with data \<open>d\<close>.\<close>

lemma sent_to_contract:
  assumes "signer_faithful (fromSigner (EVMCommitter s))"
    and "send_unless_pending (SendTx fuel (EVMCommitter s)) now wait addr msg d w = (r, w')"
  shows "\<exists>xs. submitted w' = submitted w @ xs \<and>
    (\<forall>(tx, ok) \<in> set xs. et_To tx = addr \<and> et_Data tx = d \<and>
       et_GasPrice tx \<le> sint (ethMaxGasPrice (EVMCommitter s))) \<and>
    (\<forall>h. r = Ok h \<longrightarrow> xs \<noteq> [] \<and> snd (last xs))"
proof -
  obtain xs where xs: "submitted w' = submitted w @ xs"
    "\<forall>(tx, ok) \<in> set xs. et_To tx = addr \<and> et_Data tx = d \<and>
       et_GasPrice tx \<le> sint (ethMaxGasPrice (EVMCommitter s))"
    using keepsD [OF eth.send_unless_pending_sends [OF assms(1)] assms(2)]
    by (auto simp: submits_def case_prod_beta)
  moreover have "xs \<noteq> [] \<and> snd (last xs)" if "r = Ok h" for h
  proof -
    obtain ys tx where "submitted w' = submitted w @ ys @ [(tx, True)]"
      using eth.send_unless_pending_accepted assms(2) \<open>r = Ok h\<close> by blast
    with xs(1) have "xs = ys @ [(tx, True)]" by simp
    then show ?thesis by simp
  qed
  ultimately show ?thesis by blast
qed

text \<open>However \<open>SendEthValsetUpdate\<close> ends, every transaction it submits calls the Peggy contract, within
  the price cap, with the packed arguments of an update to a set with a higher nonce, whose
  confirmations passed the check; and it reports success only when the node accepted the last
  submission.\<close>

theorem SendEthValsetUpdate_submits:
  assumes "signer_faithful (fromSigner (EVMCommitter s))"
    and "SendEthValsetUpdate E s old new confirms w = (r, w')"
  shows "\<exists>xs. submitted w' = submitted w @ xs \<and>
    (\<forall>(tx, ok) \<in> set xs. vs_Nonce old < vs_Nonce new \<and> et_To tx = peggyAddress s \<and>
       updateValset_data E old new confirms (et_Data tx) \<and>
       et_GasPrice tx \<le> sint (ethMaxGasPrice (EVMCommitter s))) \<and>
    (\<forall>h. r = Ok h \<longrightarrow> xs \<noteq> [] \<and> snd (last xs))"
  using SendEthValsetUpdate_cases [OF assms(2)]
proof (elim disjE exE conjE)
  fix d
  assume d: "vs_Nonce old < vs_Nonce new" "updateValset_data E old new confirms d"
    and send: "send_unless_pending (SendTx (ee_fuel E) (EVMCommitter s)) (ee_now E)
      (pendingTxWaitDuration s) (peggyAddress s)
      ''Transaction with same valset input data is already present in mempool'' d w = (r, w')"
  from sent_to_contract [OF assms(1) send] d show ?thesis by (fastforce simp: case_prod_beta)
qed auto

text \<open>The same for \<open>SendTransactionBatch\<close>: every transaction submitted calls the Peggy contract with
  the packed arguments of the batch and of a current set whose confirmations passed the check.\<close>

theorem SendTransactionBatch_submits:
  assumes "signer_faithful (fromSigner (EVMCommitter s))"
    and "SendTransactionBatch E s cur batch confirms w = (r, w')"
  shows "\<exists>xs. submitted w' = submitted w @ xs \<and>
    (\<forall>(tx, ok) \<in> set xs. et_To tx = peggyAddress s \<and>
       submitBatch_data E cur batch confirms (et_Data tx) \<and>
       et_GasPrice tx \<le> sint (ethMaxGasPrice (EVMCommitter s))) \<and>
    (\<forall>h. r = Ok h \<longrightarrow> xs \<noteq> [] \<and> snd (last xs))"
  using SendTransactionBatch_cases [OF assms(2)]
proof (elim disjE exE conjE)
  fix d
  assume d: "submitBatch_data E cur batch confirms d"
    and send: "send_unless_pending (SendTx (ee_fuel E) (EVMCommitter s)) (ee_now E)
      (pendingTxWaitDuration s) (peggyAddress s)
      ''Transaction with same batch input data is already present in mempool'' d w = (r, w')"
  from sent_to_contract [OF assms(1) send] d show ?thesis by (fastforce simp: case_prod_beta)
qed auto

section \<open>Acceptance\<close>

lemma laid_out_args:
  assumes "laid_out G sigOf (vs_Members vs) a"
  shows "valset_args G vs (rp_validators a) (rp_powers a) = new_valset_args G vs"
  using assms by (simp add: laid_out_def new_valset_args_def validatorsAndPowers_def
      valset_args_def big_SetUint64_def)

lemma laid_out_lengths:
  assumes "laid_out G sigOf ms a"
  shows "length (rp_v a) = length ms" "length (rp_r a) = length ms" "length (rp_s a) = length ms"
  using assms by (simp_all add: laid_out_def)

lemma new_valset_args_sel:
  "va_ValsetNonce (new_valset_args G vs) = uint (vs_Nonce vs)"
  "va_Powers (new_valset_args G vs) = map (\<lambda>m. uint (bv_Power m)) (vs_Members vs)"
  "va_Validators (new_valset_args G vs) = map (\<lambda>m. HexToAddress G (bv_EthereumAddress m)) (vs_Members vs)"
  by (simp_all add: new_valset_args_def validatorsAndPowers_def valset_args_def big_SetUint64_def)

text \<open>The last confirmations of the members are signatures over \<open>h\<close>.\<close>

definition members_signed :: "geth_lib \<Rightarrow> verifier \<Rightarrow> (string \<Rightarrow> string option) \<Rightarrow> Valset \<Rightarrow> hash res \<Rightarrow> bool" where
  "members_signed G verifySig sigOf vs h \<longleftrightarrow>
     (\<forall>m \<in> set (vs_Members vs). \<forall>sig v r s. sigOf (bv_EthereumAddress m) = Some sig \<longrightarrow>
        sigToVRS G sig = Ok (v, r, s) \<longrightarrow>
        (\<exists>x. h = Ok x \<and> verifySig (HexToAddress G (bv_EthereumAddress m)) x v r s))"

text \<open>Let the contract hold the checkpoint of \<open>old\<close>, let the confirmations be signatures of its members
  over the hash \<open>EncodeValsetConfirm\<close> gives for \<open>new\<close>, and let both the signers and the new set have more
  than the contract's threshold of power. Then, with nonces and powers in range, the arguments
  \<open>SendEthValsetUpdate\<close> submits pass every requirement of the contract's \<open>updateValset\<close>.\<close>

theorem valset_update_accepted:
  assumes laws: "coder_laws A enc"
    and check: "checkValsetSigsAndRepack G D old confirms = Ok a"
    and order: "vs_Nonce old < vs_Nonce new"
      "uint (vs_Nonce new) < uint (vs_Nonce old) + MAX_NONCE_JUMP_LIMIT"
    and small: "vs_RewardAmount new = Some amt" "uint (vs_Nonce new) < 2 ^ 63"
      "\<forall>m \<in> set (vs_Members new). uint (bv_Power m) < 2 ^ 63"
    and stored: "state_lastValsetCheckpoint st =
        makeCheckpoint (Keccak256Hash A) enc (new_valset_args G old) (state_peggyId st)"
    and signed: "members_signed G verifySig (valsetSignerToSig confirms) old
        (EncodeValsetConfirm G A (state_peggyId st) new)"
    and range: "0 \<le> state_powerThreshold st" "state_powerThreshold st < 2 ^ 255"
    and power: "state_powerThreshold st < rp_good a"
      "state_powerThreshold st < (\<Sum>m \<leftarrow> vs_Members new. uint (bv_Power m))"
  shows "updateValset_checks (Keccak256Hash A) enc verifySig st (new_valset_args G new)
    (valset_args G old (rp_validators a) (rp_powers a)) (rp_v a) (rp_r a) (rp_s a)"
proof -
  let ?h = "makeCheckpoint (Keccak256Hash A) enc (new_valset_args G new) (state_peggyId st)"
  have laid: "laid_out G (valsetSignerToSig confirms) (vs_Members old) a"
    using check_cases(1) [OF refl] check by (auto simp: checkValsetSigsAndRepack_def split: if_splits)
  have h: "EncodeValsetConfirm G A (state_peggyId st) new = Ok ?h"
    by (rule EncodeValsetConfirm_eq [OF laws small])
  have "checkValidatorSignatures verifySig ?h (state_powerThreshold st)
      (zip5 (valset_args G old (rp_validators a) (rp_powers a)) (rp_v a) (rp_r a) (rp_s a)) 0"
    using signed power(1) range laid
    by (intro laid_out_checks [OF laid]) (auto simp: members_signed_def h laid_out_def)
  moreover have "enough_power (state_powerThreshold st) (va_Powers (new_valset_args G new)) 0"
    using power(2) range
    by (intro enough_power_sum) (auto simp: new_valset_args_sel uint64_below simp del: power_numeral)
  ultimately show ?thesis
    using order stored uint_bounded [of "vs_Nonce old"]
    unfolding updateValset_checks_def laid_out_args [OF laid] validateValidatorSet_def
    by (simp add: new_valset_args_sel word_less_def laid_out_lengths [OF laid] is_uint256_def
        MAX_NONCE_JUMP_LIMIT_def)
qed

text \<open>Let the contract hold the checkpoint of the current set and let the confirmations be signatures of
  its members, with more than the threshold of power, over the hash \<open>EncodeTxBatchConfirm\<close> gives for the
  batch. Then, before the timeout and with the nonces in range, the arguments \<open>SendTransactionBatch\<close>
  submits pass every requirement of the contract's \<open>submitBatch\<close>.\<close>

theorem batch_accepted:
  assumes laws: "coder_laws A enc"
    and check: "checkBatchSigsAndRepack G D cur confirms = Ok a"
    and order: "state_lastBatchNonces st (HexToAddress G (ob_TokenContract batch)) < uint (ob_BatchNonce batch)"
      "uint (ob_BatchNonce batch) <
         state_lastBatchNonces st (HexToAddress G (ob_TokenContract batch)) + MAX_NONCE_JUMP_LIMIT"
      "blockNumber < uint (ob_BatchTimeout batch)"
    and small: "uint (ob_BatchNonce batch) < 2 ^ 63" "uint (ob_BatchTimeout batch) < 2 ^ 63"
    and stored: "state_lastValsetCheckpoint st =
        makeCheckpoint (Keccak256Hash A) enc (new_valset_args G cur) (state_peggyId st)"
    and signed: "members_signed G verifySig (batchSignerToSig confirms) cur
        (EncodeTxBatchConfirm G A (state_peggyId st) batch)"
    and range: "0 \<le> state_powerThreshold st" "state_powerThreshold st < 2 ^ 255"
      "0 \<le> state_lastBatchNonces st (HexToAddress G (ob_TokenContract batch))"
    and power: "state_powerThreshold st < rp_good a"
  shows "submitBatch_checks (Keccak256Hash A) enc verifySig blockNumber st
    (valset_args G cur (rp_validators a) (rp_powers a)) (rp_v a) (rp_r a) (rp_s a) (batch_args G batch)"
proof -
  let ?h = "batchHash (Keccak256Hash A) enc (batch_args G batch) (state_peggyId st)"
  have laid: "laid_out G (batchSignerToSig confirms) (vs_Members cur) a"
    using check_cases(1) [OF refl] check by (auto simp: checkBatchSigsAndRepack_def split: if_splits)
  have h: "EncodeTxBatchConfirm G A (state_peggyId st) batch = Ok ?h"
    by (rule EncodeTxBatchConfirm_eq [OF laws small])
  have "checkValidatorSignatures verifySig ?h (state_powerThreshold st)
      (zip5 (valset_args G cur (rp_validators a) (rp_powers a)) (rp_v a) (rp_r a) (rp_s a)) 0"
    using signed power range laid
    by (intro laid_out_checks [OF laid]) (auto simp: members_signed_def h laid_out_def)
  then show ?thesis
    using order range stored small
    unfolding submitBatch_checks_def laid_out_args [OF laid]
    by (simp add: new_valset_args_sel laid_out_lengths [OF laid] batch_args_def
        getBatchCheckpointValues_def big_SetUint64_def is_uint256_def MAX_NONCE_JUMP_LIMIT_def)
qed

section \<open>Concrete runs\<close>

definition sample_enc :: encoder where
  "sample_enc args = [of_nat (length args)]"

definition sample_abi :: abi_lib where
  "sample_abi = \<lparr>abi_JSON = (\<lambda>m. Inr (\<lambda>name args. Ok ([1, 2, 3, 4] @ sample_enc args))),
     peggyABI_Pack = (\<lambda>name args. Ok [1]), erc20ABI_Pack = (\<lambda>name args. Ok [2]),
     Keccak256Hash = (\<lambda>b. of_nat (length b))\<rparr>"

lemma sample_coder_laws: "coder_laws sample_abi sample_enc"
  by (simp add: coder_laws_def sample_abi_def)

definition sample_env :: "nat eth_env" where
  "sample_env = \<lparr>ee_geth = unary_geth, ee_dec = exact_decimals, ee_abi = sample_abi,
     ee_now = (\<lambda>k. (int k, k)), ee_fuel = 2\<rparr>"

text \<open>A contract that answers calls from constants and has emitted nothing.\<close>

definition no_events :: emitted where
  "no_events = \<lparr>em_ERC20DeployedEvents = [], em_SendToCosmosEvents = [], em_SendToInjectiveEvents = [],
     em_TransactionBatchExecutedEvents = [], em_ValsetUpdatedEvents = []\<rparr>"

definition sample_answer :: "string \<Rightarrow> abi_value list" where
  "sample_answer method = (if method = ''state_peggyId'' then [AbiBytes32 77]
     else if method = ''state_lastValsetNonce'' then [AbiUint (Some 4)] else [AbiUint (Some 0)])"

lemma sample_contract_calls [simp]:
  "StatePeggyId (listed_contract sample_answer E) opts w = (Ok 77, w)"
  "StateLastValsetNonce (listed_contract sample_answer E) opts w = (Ok 4, w)"
  "LastBatchNonce (listed_contract sample_answer E) opts a w = (Ok 0, w)"
  by (simp_all add: StatePeggyId_def StateLastValsetNonce_def LastBatchNonce_def listed_contract_def sample_answer_def io_simps)

definition sample_contract :: "nat peggyContract" where
  "sample_contract = \<lparr>EVMCommitter = sample_committer (\<lambda>_. Inr 9), ethProvider = None,
     peggyAddress = 5, ethPeggy = listed_contract sample_answer no_events, pendingTxWaitDuration = 20\<rparr>"

definition sample_new_valset :: Valset where
  "sample_new_valset = sample_valset\<lparr>vs_Nonce := 5\<rparr>"

definition sample_batch :: OutgoingTxBatch where
  "sample_batch = \<lparr>ob_BatchNonce = 3, ob_BatchTimeout = 1000,
     ob_Transactions = [\<lparr>tx_DestAddress = ''abc'', tx_Erc20TokenAmount = 10, tx_Erc20FeeAmount = 1\<rparr>],
     ob_TokenContract = ''t'', ob_Block = 8\<rparr>"

definition sample_peggy :: "hash \<Rightarrow> Peggy" where
  "sample_peggy checkpoint = \<lparr>state_lastValsetCheckpoint = checkpoint, state_lastBatchNonces = (\<lambda>_. 0),
     state_invalidationMapping = (\<lambda>_. 0), state_lastValsetNonce = 4, state_lastEventNonce = 2, state_peggyId = 77,
     state_powerThreshold = 2834678415, isInjectiveNativeToken = (\<lambda>_. False), peggy_initialized = True,
     peggy_initializing = False, peggy_owner = 9, peggy_deployTimestamp = 0, peggy_paused = False,
     peggy_entered = False\<rparr>"

lemma sample_SendTx:
  "\<exists>w'. SendTx 2 (sample_committer (\<lambda>_. Inr 9)) 5 [1] (sample_world 0) = (Ok 9, w') \<and> submitted w' \<noteq> []"
  unfolding numeral_2_eq_2 sample_send
  by (simp add: send_loop.simps(2) sample_defs io_simps SendTransactionWithRet_def nonce_cache_defs)

lemma sample_send_unless_pending:
  "\<exists>w'. send_unless_pending (SendTx 2 (sample_committer (\<lambda>_. Inr 9))) now wait 5 msg [1] (sample_world 0)
     = (Ok 9, w') \<and> submitted w' \<noteq> []"
  using sample_SendTx
  by (simp add: send_unless_pending_def pending_input_def io_simps sample_world_def)

lemma sample_update:
  "\<exists>w'. SendEthValsetUpdate sample_env sample_contract sample_valset sample_new_valset
     (sample_valset_confirms sample_sig) (sample_world 0) = (Ok 9, w') \<and> submitted w' \<noteq> []"
  using sample_checks(2) sample_send_unless_pending
  by (auto simp: SendEthValsetUpdate_def sample_env_def sample_contract_def io_simps
      sample_new_valset_def sample_valset_def sample_abi_def validatorsAndPowers_def Let_def)

lemma sample_submit:
  "\<exists>w'. SendTransactionBatch sample_env sample_contract sample_valset sample_batch
     (sample_batch_confirms sample_sig) (sample_world 0) = (Ok 9, w') \<and> submitted w' \<noteq> []"
  using sample_checks(1) sample_send_unless_pending
  by (auto simp: SendTransactionBatch_def sample_env_def sample_contract_def io_simps
      sample_valset_def sample_abi_def getBatchCheckpointValues_def Let_def)

lemma sample_faithful: "signer_faithful (fromSigner (EVMCommitter sample_contract))"
  by (simp add: sample_contract_def sample_committer_def plain_signer_faithful)

theorem SendEthValsetUpdate_submits_witness:
  "\<exists>w' xs. SendEthValsetUpdate sample_env sample_contract sample_valset sample_new_valset
      (sample_valset_confirms sample_sig) (sample_world 0) = (Ok 9, w') \<and>
     submitted w' = submitted (sample_world (0::nat)) @ xs \<and> xs \<noteq> [] \<and>
     (\<forall>(tx, ok) \<in> set xs. et_To tx = 5 \<and>
        updateValset_data sample_env sample_valset sample_new_valset (sample_valset_confirms sample_sig) (et_Data tx))"
proof -
  obtain w' where run: "SendEthValsetUpdate sample_env sample_contract sample_valset sample_new_valset
      (sample_valset_confirms sample_sig) (sample_world 0) = (Ok 9, w')" using sample_update by blast
  from SendEthValsetUpdate_submits [OF sample_faithful run] run show ?thesis
    by (auto simp: sample_contract_def case_prod_beta)
qed

theorem SendTransactionBatch_submits_witness:
  "\<exists>w' xs. SendTransactionBatch sample_env sample_contract sample_valset sample_batch
      (sample_batch_confirms sample_sig) (sample_world 0) = (Ok 9, w') \<and>
     submitted w' = submitted (sample_world (0::nat)) @ xs \<and> xs \<noteq> [] \<and>
     (\<forall>(tx, ok) \<in> set xs. et_To tx = 5 \<and>
        submitBatch_data sample_env sample_valset sample_batch (sample_batch_confirms sample_sig) (et_Data tx))"
proof -
  obtain w' where run: "SendTransactionBatch sample_env sample_contract sample_valset sample_batch
      (sample_batch_confirms sample_sig) (sample_world 0) = (Ok 9, w')" using sample_submit by blast
  from SendTransactionBatch_submits [OF sample_faithful run] run show ?thesis
    by (auto simp: sample_contract_def case_prod_beta)
qed

theorem EncodeValsetConfirm_agrees_witness:
  "EncodeValsetConfirm unary_geth sample_abi 77 sample_valset =
    Ok (makeCheckpoint (Keccak256Hash sample_abi) sample_enc (new_valset_args unary_geth sample_valset) 77)"
  by (rule EncodeValsetConfirm_agrees [OF sample_coder_laws, of _ 0])
    (simp_all add: sample_valset_def)

theorem EncodeTxBatchConfirm_agrees_witness:
  "EncodeTxBatchConfirm unary_geth sample_abi 77 sample_batch =
    Ok (batchHash (Keccak256Hash sample_abi) sample_enc (batch_args unary_geth sample_batch) 77)"
  by (rule EncodeTxBatchConfirm_agrees [OF sample_coder_laws]) (simp_all add: sample_batch_def)

lemma sample_good:
  "checkValsetSigsAndRepack unary_geth exact_decimals sample_valset (sample_valset_confirms sample_sig) = Ok a
     \<Longrightarrow> rp_good a = 4294967295"
  "checkBatchSigsAndRepack unary_geth exact_decimals sample_valset (sample_batch_confirms sample_sig) = Ok a
     \<Longrightarrow> rp_good a = 4294967295"
  using check_cases(1) [OF refl, of exact_decimals unary_geth _ "vs_Members sample_valset" a]
    sample_signed_power sample_confirms_ne
  by (auto simp: checkValsetSigsAndRepack_def checkBatchSigsAndRepack_def laid_out_def)

text \<open>A verifier that accepts every signature stands for honest signers.\<close>

theorem valset_update_accepted_witness:
  "\<exists>a :: repacked. updateValset_checks (Keccak256Hash sample_abi) sample_enc (\<lambda>_ _ _ _ _. True)
    (sample_peggy (makeCheckpoint (Keccak256Hash sample_abi) sample_enc (new_valset_args unary_geth sample_valset) 77))
    (new_valset_args unary_geth sample_new_valset)
    (valset_args unary_geth sample_valset (rp_validators a) (rp_powers a)) (rp_v a) (rp_r a) (rp_s a)"
proof -
  let ?cp = "makeCheckpoint (Keccak256Hash sample_abi) sample_enc (new_valset_args unary_geth sample_valset) 77"
  obtain a where a: "checkValsetSigsAndRepack unary_geth exact_decimals sample_valset
      (sample_valset_confirms sample_sig) = Ok a" using sample_checks(2) by blast
  have new: "vs_RewardAmount sample_new_valset = Some 0" "uint (vs_Nonce sample_new_valset) < 2 ^ 63"
    "\<forall>m \<in> set (vs_Members sample_new_valset). uint (bv_Power m) < 2 ^ 63"
    by (simp_all add: sample_new_valset_def sample_valset_def)
  have sg: "members_signed unary_geth (\<lambda>_ _ _ _ _. True) (valsetSignerToSig (sample_valset_confirms sample_sig))
      sample_valset (EncodeValsetConfirm unary_geth sample_abi (state_peggyId (sample_peggy ?cp)) sample_new_valset)"
    by (simp add: members_signed_def EncodeValsetConfirm_eq [OF sample_coder_laws new])
  show ?thesis
    by (rule exI [of _ a], rule valset_update_accepted [OF sample_coder_laws a _ _ new _ sg])
      (simp_all add: sample_good(1) [OF a] sample_peggy_def sample_new_valset_def sample_valset_def
        MAX_NONCE_JUMP_LIMIT_def)
qed

theorem batch_accepted_witness:
  "\<exists>a :: repacked. submitBatch_checks (Keccak256Hash sample_abi) sample_enc (\<lambda>_ _ _ _ _. True) 500
    (sample_peggy (makeCheckpoint (Keccak256Hash sample_abi) sample_enc (new_valset_args unary_geth sample_valset) 77))
    (valset_args unary_geth sample_valset (rp_validators a) (rp_powers a)) (rp_v a) (rp_r a) (rp_s a)
    (batch_args unary_geth sample_batch)"
proof -
  let ?cp = "makeCheckpoint (Keccak256Hash sample_abi) sample_enc (new_valset_args unary_geth sample_valset) 77"
  obtain a where a: "checkBatchSigsAndRepack unary_geth exact_decimals sample_valset
      (sample_batch_confirms sample_sig) = Ok a" using sample_checks(1) by blast
  have small: "uint (ob_BatchNonce sample_batch) < 2 ^ 63" "uint (ob_BatchTimeout sample_batch) < 2 ^ 63"
    by (simp_all add: sample_batch_def)
  have sg: "members_signed unary_geth (\<lambda>_ _ _ _ _. True) (batchSignerToSig (sample_batch_confirms sample_sig))
      sample_valset (EncodeTxBatchConfirm unary_geth sample_abi (state_peggyId (sample_peggy ?cp)) sample_batch)"
    by (simp add: members_signed_def EncodeTxBatchConfirm_eq [OF sample_coder_laws small])
  show ?thesis
    by (rule exI [of _ a], rule batch_accepted [OF sample_coder_laws a _ _ _ small _ sg])
      (simp_all add: sample_good(2) [OF a] sample_peggy_def sample_batch_def MAX_NONCE_JUMP_LIMIT_def)
qed

end
