(* ===== verification/CosmosQuery.thy ===== *)
theory CosmosQuery
  imports World
begin

text \<open>
  \<open>orchestrator/cosmos/peggy/query.go\<close> and \<open>orchestrator/cosmos/tendermint/client.go\<close>: queries to the
  Injective node. The gRPC stubs, the Tendermint client and the address functions of the Cosmos SDK
  are arguments. A stub may answer with a nil response; a pointer inside a response is an
  \<open>option\<close> of its own.
\<close>

section \<open>Addresses of the Cosmos SDK\<close>

type_synonym AccAddress = bytes

record sdk_lib =
  AccAddressString :: "AccAddress \<Rightarrow> string"
  AccAddressFromBech32 :: "string \<Rightarrow> goerr + AccAddress"
  PeggyDenomString :: "address \<Rightarrow> string"

section \<open>The query client\<close>

record 'e peggytypes_QueryClient =
  q_ValsetRequest :: "u64 \<Rightarrow> ('e, Valset option option) libfun"
  q_CurrentValset :: "('e, Valset option option) libfun"
  q_LastPendingValsetRequestByAddr :: "string \<Rightarrow> ('e, Valset list option) libfun"
  q_LastValsetRequests :: "('e, Valset list option) libfun"
  q_ValsetConfirmsByNonce :: "u64 \<Rightarrow> ('e, MsgValsetConfirm list option) libfun"
  q_LastPendingBatchRequestByAddr :: "string \<Rightarrow> ('e, OutgoingTxBatch option option) libfun"
  q_OutgoingTxBatches :: "('e, OutgoingTxBatch list option) libfun"
  q_BatchFees :: "('e, BatchFees list option) libfun"
  q_BatchConfirms :: "u64 \<Rightarrow> string \<Rightarrow> ('e, MsgConfirmBatch list option) libfun"
  q_LastEventByAddr :: "string \<Rightarrow> ('e, LastClaimEvent option option) libfun"
  q_Params :: "('e, PeggyParams option) libfun"
  q_GetDelegateKeyByEth :: "string \<Rightarrow> ('e, string option) libfun"

text \<open>The common shape of the queries: wrap the stub's error, refuse a nil response.\<close>

definition query :: "string \<Rightarrow> ('e, 'r option) libfun \<Rightarrow> ('e world, 'r) io" where
  "query msg f = bindE (wrapE msg (lib f))
     (\<lambda>resp. case resp of None \<Rightarrow> throw ErrNotFound | Some r \<Rightarrow> ret r)"

definition ValsetAt :: "'e peggytypes_QueryClient \<Rightarrow> u64 \<Rightarrow> ('e world, Valset option) io" where
  "ValsetAt c nonce = query ''failed to query ValsetRequest from client'' (q_ValsetRequest c nonce)"

definition CurrentValset :: "'e peggytypes_QueryClient \<Rightarrow> ('e world, Valset option) io" where
  "CurrentValset c = query ''failed to query CurrentValset from client'' (q_CurrentValset c)"

definition OldestUnsignedValsets ::
  "sdk_lib \<Rightarrow> 'e peggytypes_QueryClient \<Rightarrow> AccAddress \<Rightarrow> ('e world, Valset list) io" where
  "OldestUnsignedValsets L c addr = query ''failed to query LastPendingValsetRequestByAddr from client''
     (q_LastPendingValsetRequestByAddr c (AccAddressString L addr))"

definition LatestValsets :: "'e peggytypes_QueryClient \<Rightarrow> ('e world, Valset list) io" where
  "LatestValsets c = query ''failed to query LastValsetRequests from daemon'' (q_LastValsetRequests c)"

definition AllValsetConfirms ::
  "'e peggytypes_QueryClient \<Rightarrow> u64 \<Rightarrow> ('e world, MsgValsetConfirm list) io" where
  "AllValsetConfirms c nonce =
     query ''failed to query ValsetConfirmsByNonce from daemon'' (q_ValsetConfirmsByNonce c nonce)"

definition OldestUnsignedTransactionBatch ::
  "sdk_lib \<Rightarrow> 'e peggytypes_QueryClient \<Rightarrow> AccAddress \<Rightarrow> ('e world, OutgoingTxBatch option) io" where
  "OldestUnsignedTransactionBatch L c addr =
     query ''failed to query LastPendingBatchRequestByAddr from daemon''
       (q_LastPendingBatchRequestByAddr c (AccAddressString L addr))"

definition LatestTransactionBatches :: "'e peggytypes_QueryClient \<Rightarrow> ('e world, OutgoingTxBatch list) io" where
  "LatestTransactionBatches c =
     query ''failed to query OutgoingTxBatches from daemon'' (q_OutgoingTxBatches c)"

definition UnbatchedTokensWithFees :: "'e peggytypes_QueryClient \<Rightarrow> ('e world, BatchFees list) io" where
  "UnbatchedTokensWithFees c = query ''failed to query BatchFees from daemon'' (q_BatchFees c)"

definition TransactionBatchSignatures ::
  "geth_lib \<Rightarrow> 'e peggytypes_QueryClient \<Rightarrow> u64 \<Rightarrow> address \<Rightarrow> ('e world, MsgConfirmBatch list) io" where
  "TransactionBatchSignatures G c nonce tokenContract =
     query ''failed to query BatchConfirms from daemon''
       (q_BatchConfirms c nonce (AddressHex G tokenContract))"

definition LastClaimEventByAddr ::
  "sdk_lib \<Rightarrow> 'e peggytypes_QueryClient \<Rightarrow> AccAddress \<Rightarrow> ('e world, LastClaimEvent option) io" where
  "LastClaimEventByAddr L c addr = query ''failed to query LastEventByAddr from daemon''
     (q_LastEventByAddr c (AccAddressString L addr))"

definition PeggyParams :: "'e peggytypes_QueryClient \<Rightarrow> ('e world, PeggyParams) io" where
  "PeggyParams c = query ''failed to query PeggyParams from daemon'' (q_Params c)"

definition GetValidatorAddress ::
  "geth_lib \<Rightarrow> sdk_lib \<Rightarrow> 'e peggytypes_QueryClient \<Rightarrow> address \<Rightarrow> ('e world, AccAddress) io" where
  "GetValidatorAddress G L c addr =
     bindE (query ''failed to query GetDelegateKeyByEth from client''
              (q_GetDelegateKeyByEth c (AddressHex G addr)))
       (\<lambda>validatorAddress. case AccAddressFromBech32 L validatorAddress of
          Inl e \<Rightarrow> throw (Wrapped (''failed to decode validator address: '' @ validatorAddress) e)
        | Inr valAddr \<Rightarrow> ret valAddr)"

lemma query_eq: "query msg f w = (case f (outside w) of
     (Inl e, o') \<Rightarrow> (Err (Wrapped msg e), w\<lparr>outside := o'\<rparr>)
   | (Inr None, o') \<Rightarrow> (Err ErrNotFound, w\<lparr>outside := o'\<rparr>)
   | (Inr (Some r), o') \<Rightarrow> (Ok r, w\<lparr>outside := o'\<rparr>))"
  by (auto simp: query_def io_simps split: prod.splits sum.splits option.splits)

text \<open>A query sends nothing.\<close>

lemma query_keeps: "keeps same_broadcasts (query msg f)" "keeps same_submitted (query msg f)"
  unfolding query_def
  by (intro same_broadcasts.keeps_rules lib_keeps, intro same_submitted.keeps_rules lib_keeps)

lemmas query_defs = ValsetAt_def CurrentValset_def OldestUnsignedValsets_def LatestValsets_def
  AllValsetConfirms_def OldestUnsignedTransactionBatch_def LatestTransactionBatches_def
  UnbatchedTokensWithFees_def TransactionBatchSignatures_def LastClaimEventByAddr_def PeggyParams_def

section \<open>The Tendermint client\<close>

text \<open>Of a block the code reads its time (nanoseconds), of a result the hashes of its transactions.\<close>

record ResultBlock =
  rb_Time :: int
  rb_TxHashes :: "bytes list"

record ('e, 'tx, 'vals) rpcClient =
  rpc_Block :: "i64 \<Rightarrow> ('e, ResultBlock) libfun"
  rpc_Status :: "('e, i64) libfun"
  rpc_Tx :: "bytes \<Rightarrow> ('e, 'tx) libfun"
  rpc_Validators :: "i64 \<Rightarrow> ('e, 'vals) libfun"

definition GetBlock :: "('e, 'tx, 'vals) rpcClient \<Rightarrow> i64 \<Rightarrow> ('e world, ResultBlock) io" where
  "GetBlock c height = lib (rpc_Block c height)"

definition GetLatestBlockHeight :: "('e, 'tx, 'vals) rpcClient \<Rightarrow> ('e world, i64) io" where
  "GetLatestBlockHeight c = lib (rpc_Status c)"

definition GetValidatorSet :: "('e, 'tx, 'vals) rpcClient \<Rightarrow> i64 \<Rightarrow> ('e world, 'vals) io" where
  "GetValidatorSet c height = lib (rpc_Validators c height)"

fun get_txs :: "('e, 'tx, 'vals) rpcClient \<Rightarrow> bytes list \<Rightarrow> 'tx list \<Rightarrow> ('e world, 'tx list) io" where
  "get_txs c [] txs = ret txs"
| "get_txs c (h # hs) txs = bindE (attempt (lib (rpc_Tx c h))) (\<lambda>r. case r of
     Inl err \<Rightarrow> if has_suffix (err_text err) ''not found'' then get_txs c hs txs else throw err
   | Inr tx \<Rightarrow> get_txs c hs (txs @ [tx]))"

definition GetTxs :: "('e, 'tx, 'vals) rpcClient \<Rightarrow> ResultBlock \<Rightarrow> ('e world, 'tx list) io" where
  "GetTxs c block = get_txs c (rb_TxHashes block) []"

text \<open>When the node's answers to the transaction queries depend on the hash only, \<open>GetTxs\<close> returns the
  transactions the node knows, in block order, skipping those it reports as not found, and fails with
  the first other error.\<close>

lemma get_txs_known:
  assumes "\<And>h s. rpc_Tx c h s = (ans h, s)"
  shows "get_txs c hs acc w =
    (case List.find (\<lambda>h. \<exists>e. ans h = Inl e \<and> \<not> has_suffix (err_text e) ''not found'') hs of
       Some h \<Rightarrow> (case ans h of Inl e \<Rightarrow> (Err e, w) | Inr _ \<Rightarrow> (Ok [], w))
     | None \<Rightarrow> (Ok (acc @ concat (map (\<lambda>h. case ans h of Inr tx \<Rightarrow> [tx] | Inl _ \<Rightarrow> []) hs)), w))"
proof (induction hs arbitrary: acc w)
  case Nil
  then show ?case by (simp add: io_simps)
next
  case (Cons h hs)
  then show ?case by (cases "ans h") (auto simp: io_simps assms split: option.splits)
qed

end
