(* ===== verification/CosmosBroadcast.thy ===== *)
theory CosmosBroadcast
  imports CosmosQuery PeggyContract
begin

text \<open>
  \<open>orchestrator/cosmos/peggy/broadcast.go\<close>: the messages sent to Injective. The chain client and the
  Ethereum signing function are arguments. Every message handed to the chain client is recorded in
  \<open>broadcasts\<close> with whether it was accepted. The mutex of the source makes the broadcasts of one
  process sequential, which is what the state passing expresses; the sleep it holds the mutex for
  acts on the clock.
\<close>

type_synonym PersonalSignFn = "(address \<Rightarrow> bytes \<Rightarrow> goerr + bytes) option"

text \<open>
  The response of \<open>BroadcastMsg\<close>: the code and the raw log. \<open>QueueBroadcastMsg\<close> has no response.
\<close>

record 'e ChainClient =
  FromAddress :: AccAddress
  BroadcastMsg :: "cosmos_msg \<Rightarrow> ('e, nat \<times> string) libfun"
  QueueBroadcastMsg :: "cosmos_msg \<Rightarrow> ('e, unit) libfun"
  time_Sleep :: "int \<Rightarrow> 'e \<Rightarrow> 'e"

record 'e broadcastClient =
  ChainClient :: "'e ChainClient"
  ethSignFn :: PersonalSignFn
  bc_geth :: geth_lib
  bc_sdk :: sdk_lib
  bc_abi :: abi_lib

definition broadcastMsgSleepDuration :: int where
  "broadcastMsgSleepDuration = 1200 * 1000000"

definition from_str :: "'e broadcastClient \<Rightarrow> string" where
  "from_str c = AccAddressString (bc_sdk c) (FromAddress (ChainClient c))"

text \<open>Lock, broadcast, check the response code; the deferred sleep runs on every path.\<close>

definition broadcast_msg :: "'e broadcastClient \<Rightarrow> string \<Rightarrow> cosmos_msg \<Rightarrow> ('e world, unit) io" where
  "broadcast_msg c name msg = (\<lambda>w.
     case BroadcastMsg (ChainClient c) msg (outside w) of (resp, o') \<Rightarrow>
       (let o'' = time_Sleep (ChainClient c) broadcastMsgSleepDuration o';
            done = (\<lambda>ok. w\<lparr>outside := o'', broadcasts := broadcasts w @ [(msg, ok)]\<rparr>)
        in (case resp of
              Inl e \<Rightarrow> (Err (Wrapped (''failed to broadcast '' @ name) e), done False)
            | Inr (code, rawLog) \<Rightarrow>
                if code \<noteq> 0 then (Err (ErrorNew (''failed to broadcast '' @ name @ '': '' @ rawLog)), done False)
                else (Ok (), done True))))"

definition UpdatePeggyOrchestratorAddresses ::
  "'e broadcastClient \<Rightarrow> address \<Rightarrow> AccAddress \<Rightarrow> ('e world, unit) io" where
  "UpdatePeggyOrchestratorAddresses c ethFrom orchAddr =
     broadcast_msg c ''MsgSetOrchestratorAddresses''
       (SetOrchestratorAddresses (from_str c) (AddressHex (bc_geth c) ethFrom)
          (AccAddressString (bc_sdk c) orchAddr))"

definition hash_bytes :: "hash \<Rightarrow> bytes" where
  "hash_bytes h = map (\<lambda>i. ucast (drop_bit (8 * (31 - i)) h)) [0..<32]"

text \<open>Signing: a nil function panics, an error of the signer is replaced by a fixed message.\<close>

definition eth_sign :: "'e broadcastClient \<Rightarrow> address \<Rightarrow> hash \<Rightarrow> ('e world, bytes) io" where
  "eth_sign c ethFrom h = bindE (deref (ethSignFn c)) (\<lambda>f.
     case f ethFrom (hash_bytes h) of
       Inl _ \<Rightarrow> throw (ErrorNew ''failed to sign validator address'')
     | Inr signature \<Rightarrow> ret signature)"

definition SendValsetConfirm ::
  "'e broadcastClient \<Rightarrow> address \<Rightarrow> hash \<Rightarrow> Valset \<Rightarrow> ('e world, unit) io" where
  "SendValsetConfirm c ethFrom peggyID valset =
     bindE (pure_call (EncodeValsetConfirm (bc_geth c) (bc_abi c) peggyID valset)) (\<lambda>confirmHash.
     bindE (eth_sign c ethFrom confirmHash) (\<lambda>signature.
       broadcast_msg c ''MsgValsetConfirm'' (ValsetConfirm
         \<lparr>vc_Orchestrator = from_str c, vc_EthAddress = AddressHex (bc_geth c) ethFrom,
          vc_Nonce = vs_Nonce valset, vc_Signature = Bytes2Hex (bc_geth c) signature\<rparr>)))"

definition SendBatchConfirm ::
  "'e broadcastClient \<Rightarrow> address \<Rightarrow> hash \<Rightarrow> OutgoingTxBatch \<Rightarrow> ('e world, unit) io" where
  "SendBatchConfirm c ethFrom peggyID batch =
     bindE (pure_call (EncodeTxBatchConfirm (bc_geth c) (bc_abi c) peggyID batch)) (\<lambda>confirmHash.
     bindE (eth_sign c ethFrom confirmHash) (\<lambda>signature.
       broadcast_msg c ''MsgConfirmBatch'' (ConfirmBatch
         \<lparr>cb_Orchestrator = from_str c, cb_Nonce = ob_BatchNonce batch,
          cb_Signature = Bytes2Hex (bc_geth c) signature,
          cb_EthSigner = AddressHex (bc_geth c) ethFrom, cb_TokenContract = ob_TokenContract batch\<rparr>)))"

text \<open>\<open>SendToEth\<close> queues its message; the verdict recorded is that of the queue.\<close>

definition SendToEth_broadcast ::
  "'e broadcastClient \<Rightarrow> address \<Rightarrow> Coin \<Rightarrow> Coin \<Rightarrow> ('e world, unit) io" where
  "SendToEth_broadcast c destination amt fee = (\<lambda>w.
     let msg = SendToEth (from_str c) (AddressHex (bc_geth c) destination) amt fee
     in (case QueueBroadcastMsg (ChainClient c) msg (outside w) of (resp, o') \<Rightarrow>
          (let o'' = time_Sleep (ChainClient c) broadcastMsgSleepDuration o'
           in (case resp of
                 Inl e \<Rightarrow> (Err (Wrapped ''broadcasting MsgSendToEth failed'' e),
                   w\<lparr>outside := o'', broadcasts := broadcasts w @ [(msg, False)]\<rparr>)
               | Inr _ \<Rightarrow> (Ok (), w\<lparr>outside := o'', broadcasts := broadcasts w @ [(msg, True)]\<rparr>)))))"

definition SendRequestBatch :: "'e broadcastClient \<Rightarrow> string \<Rightarrow> ('e world, unit) io" where
  "SendRequestBatch c denom =
     broadcast_msg c ''MsgRequestBatch'' (RequestBatch denom (from_str c))"

section \<open>Claims\<close>

text \<open>
  The message each claim sends. Amounts come from \<open>uint256\<close> values, so the conversion to the SDK's
  integers keeps them; \<open>Destination\<close> is an array of 32 bytes whose last 20 are the account.
\<close>

definition old_deposit_msg :: "'e broadcastClient \<Rightarrow> PeggySendToCosmosEvent \<Rightarrow> cosmos_msg" where
  "old_deposit_msg c deposit = DepositClaim
     \<lparr>dc_EventNonce = big_Uint64 (sc_EventNonce deposit), dc_BlockHeight = sc_BlockNumber deposit,
      dc_TokenContract = AddressHex (bc_geth c) (sc_TokenContract deposit),
      dc_Amount = sc_Amount deposit, dc_EthereumSender = AddressHex (bc_geth c) (sc_Sender deposit),
      dc_CosmosReceiver = AccAddressString (bc_sdk c) (take 20 (drop 12 (sc_Destination deposit))),
      dc_Orchestrator = from_str c, dc_Data = []\<rparr>"

definition SendOldDepositClaim :: "'e broadcastClient \<Rightarrow> PeggySendToCosmosEvent \<Rightarrow> ('e world, unit) io" where
  "SendOldDepositClaim c deposit = broadcast_msg c ''MsgDepositClaim'' (old_deposit_msg c deposit)"

definition deposit_msg :: "'e broadcastClient \<Rightarrow> PeggySendToInjectiveEvent \<Rightarrow> cosmos_msg" where
  "deposit_msg c deposit = DepositClaim
     \<lparr>dc_EventNonce = big_Uint64 (si_EventNonce deposit), dc_BlockHeight = si_BlockNumber deposit,
      dc_TokenContract = AddressHex (bc_geth c) (si_TokenContract deposit),
      dc_Amount = si_Amount deposit, dc_EthereumSender = AddressHex (bc_geth c) (si_Sender deposit),
      dc_CosmosReceiver = AccAddressString (bc_sdk c) (take 20 (drop 12 (si_Destination deposit))),
      dc_Orchestrator = from_str c, dc_Data = si_Data deposit\<rparr>"

definition SendDepositClaim :: "'e broadcastClient \<Rightarrow> PeggySendToInjectiveEvent \<Rightarrow> ('e world, unit) io" where
  "SendDepositClaim c deposit = broadcast_msg c ''MsgDepositClaim'' (deposit_msg c deposit)"

definition withdrawal_msg :: "'e broadcastClient \<Rightarrow> PeggyTransactionBatchExecutedEvent \<Rightarrow> cosmos_msg" where
  "withdrawal_msg c withdrawal = WithdrawClaim
     \<lparr>wc_EventNonce = big_Uint64 (be_EventNonce withdrawal),
      wc_BatchNonce = big_Uint64 (be_BatchNonce withdrawal), wc_BlockHeight = be_BlockNumber withdrawal,
      wc_TokenContract = AddressHex (bc_geth c) (be_Token withdrawal), wc_Orchestrator = from_str c\<rparr>"

definition SendWithdrawalClaim ::
  "'e broadcastClient \<Rightarrow> PeggyTransactionBatchExecutedEvent \<Rightarrow> ('e world, unit) io" where
  "SendWithdrawalClaim c withdrawal = broadcast_msg c ''MsgWithdrawClaim'' (withdrawal_msg c withdrawal)"

text \<open>Reading \<open>Powers[i]\<close> for a validator without a power is a run-time panic.\<close>

fun claim_members :: "geth_lib \<Rightarrow> address list \<Rightarrow> int list \<Rightarrow> BridgeValidator list res" where
  "claim_members G [] ps = Ok []"
| "claim_members G (v # vs) [] = Panic (ErrorNew ''index out of range'')"
| "claim_members G (v # vs) (p # ps) = (case claim_members G vs ps of
     Ok ms \<Rightarrow> Ok (\<lparr>bv_Power = big_Uint64 p, bv_EthereumAddress = AddressHex G v\<rparr> # ms)
   | e \<Rightarrow> e)"

definition valset_msg :: "'e broadcastClient \<Rightarrow> PeggyValsetUpdatedEvent \<Rightarrow> BridgeValidator list \<Rightarrow> cosmos_msg" where
  "valset_msg c vs members = ValsetUpdatedClaim
     \<lparr>uc_EventNonce = big_Uint64 (vu_EventNonce vs), uc_ValsetNonce = big_Uint64 (vu_NewValsetNonce vs),
      uc_BlockHeight = vu_BlockNumber vs, uc_RewardAmount = vu_RewardAmount vs,
      uc_RewardToken = AddressHex (bc_geth c) (vu_RewardToken vs), uc_Members = members,
      uc_Orchestrator = from_str c\<rparr>"

definition SendValsetClaim :: "'e broadcastClient \<Rightarrow> PeggyValsetUpdatedEvent \<Rightarrow> ('e world, unit) io" where
  "SendValsetClaim c vs =
     bindE (pure_call (claim_members (bc_geth c) (vu_Validators vs) (vu_Powers vs)))
       (\<lambda>members. broadcast_msg c ''MsgValsetUpdatedClaim'' (valset_msg c vs members))"

definition erc20_msg :: "'e broadcastClient \<Rightarrow> PeggyERC20DeployedEvent \<Rightarrow> cosmos_msg" where
  "erc20_msg c erc20 = ERC20DeployedClaim
     \<lparr>ec_EventNonce = big_Uint64 (ed_EventNonce erc20), ec_BlockHeight = ed_BlockNumber erc20,
      ec_CosmosDenom = ed_CosmosDenom erc20,
      ec_TokenContract = AddressHex (bc_geth c) (ed_TokenContract erc20), ec_Name = ed_Name erc20,
      ec_Symbol = ed_Symbol erc20, ec_Decimals = ucast (ed_Decimals erc20),
      ec_Orchestrator = from_str c\<rparr>"

definition SendERC20DeployedClaim :: "'e broadcastClient \<Rightarrow> PeggyERC20DeployedEvent \<Rightarrow> ('e world, unit) io" where
  "SendERC20DeployedClaim c erc20 = broadcast_msg c ''MsgERC20DeployedClaim'' (erc20_msg c erc20)"

section \<open>What a send does\<close>

text \<open>
  A successful send broadcast one accepted message, a failed one at most one that was rejected, and
  a panic none; the message satisfies \<open>Q\<close>. Nothing is submitted to Ethereum.
\<close>

definition one_sent :: "(cosmos_msg \<Rightarrow> bool) \<Rightarrow> 'a res \<Rightarrow> 'e world \<Rightarrow> 'e world \<Rightarrow> bool" where
  "one_sent Q r w w' \<longleftrightarrow> submitted w' = submitted w \<and>
     (case r of
        Ok _ \<Rightarrow> \<exists>msg. Q msg \<and> broadcasts w' = broadcasts w @ [(msg, True)]
      | Err _ \<Rightarrow> broadcasts w' = broadcasts w \<or>
                (\<exists>msg. Q msg \<and> broadcasts w' = broadcasts w @ [(msg, False)])
      | _ \<Rightarrow> broadcasts w' = broadcasts w)"

definition broadcasts_one :: "(cosmos_msg \<Rightarrow> bool) \<Rightarrow> ('e world, 'a) io \<Rightarrow> bool" where
  "broadcasts_one Q m \<longleftrightarrow> (\<forall>w r w'. m w = (r, w') \<longrightarrow> one_sent Q r w w')"

lemma one_sent_same:
  "broadcasts w1 = broadcasts w \<Longrightarrow> submitted w1 = submitted w \<Longrightarrow> one_sent Q r w1 w' \<Longrightarrow> one_sent Q r w w'"
  by (cases r) (simp_all add: one_sent_def)

lemma broadcast_msg_one: "Q msg \<Longrightarrow> broadcasts_one Q (broadcast_msg c name msg)"
  by (auto simp: broadcasts_one_def one_sent_def broadcast_msg_def Let_def
      split: prod.splits sum.splits if_splits)

lemma broadcasts_one_bind:
  assumes "keeps same_broadcasts m" "keeps same_submitted m" "\<And>x. broadcasts_one Q (f x)"
  shows "broadcasts_one Q (bindE m f)"
  unfolding broadcasts_one_def
proof (intro allI impI)
  fix w r w'
  assume *: "bindE m f w = (r, w')"
  obtain r1 w1 where m: "m w = (r1, w1)" by (cases "m w")
  have same: "broadcasts w1 = broadcasts w" "submitted w1 = submitted w"
    using keepsD [OF assms(1) m] keepsD [OF assms(2) m]
    by (simp_all add: same_broadcasts_def same_submitted_def)
  show "one_sent Q r w w'"
  proof (cases r1)
    case (Ok x)
    then have "f x w1 = (r, w')" using * m by (simp add: io_simps)
    with assms(3) [of x] have "one_sent Q r w1 w'" by (simp add: broadcasts_one_def)
    then show ?thesis by (rule one_sent_same [OF same])
  qed (use * m same in \<open>auto simp: io_simps one_sent_def\<close>)
qed

lemma broadcasts_one_Ok:
  assumes "broadcasts_one Q m" "m w = (Ok x, w')"
  obtains msg where "Q msg" "broadcasts w' = broadcasts w @ [(msg, True)]"
proof -
  have "one_sent Q (Ok x) w w'" using assms by (simp add: broadcasts_one_def)
  then show thesis using that by (auto simp: one_sent_def)
qed

lemma eth_sign_keeps: "keeps same_broadcasts (eth_sign c a h)" "keeps same_submitted (eth_sign c a h)"
  unfolding eth_sign_def by (intro same_broadcasts.keeps_rules, intro same_submitted.keeps_rules)

lemma claim_members_eq:
  "claim_members G vs ps = (if length vs \<le> length ps
     then Ok (map (\<lambda>(v, p). \<lparr>bv_Power = big_Uint64 p, bv_EthereumAddress = AddressHex G v\<rparr>) (zip vs ps))
     else Panic (ErrorNew ''index out of range''))"
  by (induction G vs ps rule: claim_members.induct) simp_all

end
