(* ===== verification/CosmosNetwork.thy ===== *)
theory CosmosNetwork
  imports CosmosBroadcast
begin

text \<open>
  \<open>orchestrator/cosmos/network.go\<close>: the interface of Injective the orchestrator is written against,
  its construction from the query, broadcast and Tendermint clients, and the choice of endpoints.
  The locale \<open>injective_api\<close> states what the orchestrator relies on; it is interpreted on the
  constructed network.
\<close>

record 'e Network =
  n_PeggyParams :: "('e world, PeggyParams) io"
  n_LastClaimEventByAddr :: "AccAddress \<Rightarrow> ('e world, LastClaimEvent option) io"
  n_GetValidatorAddress :: "address \<Rightarrow> ('e world, AccAddress) io"
  n_ValsetAt :: "u64 \<Rightarrow> ('e world, Valset option) io"
  n_CurrentValset :: "('e world, Valset option) io"
  n_OldestUnsignedValsets :: "AccAddress \<Rightarrow> ('e world, Valset list) io"
  n_LatestValsets :: "('e world, Valset list) io"
  n_AllValsetConfirms :: "u64 \<Rightarrow> ('e world, MsgValsetConfirm list) io"
  n_OldestUnsignedTransactionBatch :: "AccAddress \<Rightarrow> ('e world, OutgoingTxBatch option) io"
  n_LatestTransactionBatches :: "('e world, OutgoingTxBatch list) io"
  n_UnbatchedTokensWithFees :: "('e world, BatchFees list) io"
  n_TransactionBatchSignatures :: "u64 \<Rightarrow> address \<Rightarrow> ('e world, MsgConfirmBatch list) io"
  n_UpdatePeggyOrchestratorAddresses :: "address \<Rightarrow> AccAddress \<Rightarrow> ('e world, unit) io"
  n_SendValsetConfirm :: "address \<Rightarrow> hash \<Rightarrow> Valset \<Rightarrow> ('e world, unit) io"
  n_SendBatchConfirm :: "address \<Rightarrow> hash \<Rightarrow> OutgoingTxBatch \<Rightarrow> ('e world, unit) io"
  n_SendRequestBatch :: "string \<Rightarrow> ('e world, unit) io"
  n_SendToEth :: "address \<Rightarrow> Coin \<Rightarrow> Coin \<Rightarrow> ('e world, unit) io"
  n_SendOldDepositClaim :: "PeggySendToCosmosEvent \<Rightarrow> ('e world, unit) io"
  n_SendDepositClaim :: "PeggySendToInjectiveEvent \<Rightarrow> ('e world, unit) io"
  n_SendWithdrawalClaim :: "PeggyTransactionBatchExecutedEvent \<Rightarrow> ('e world, unit) io"
  n_SendValsetClaim :: "PeggyValsetUpdatedEvent \<Rightarrow> ('e world, unit) io"
  n_SendERC20DeployedClaim :: "PeggyERC20DeployedEvent \<Rightarrow> ('e world, unit) io"
  n_GetBlock :: "i64 \<Rightarrow> ('e world, ResultBlock) io"

section \<open>Construction\<close>

text \<open>The struct that embeds the three clients.\<close>

definition network_of ::
  "'e peggytypes_QueryClient \<Rightarrow> 'e broadcastClient \<Rightarrow> ('e, 'tx, 'vals) rpcClient \<Rightarrow> 'e Network" where
  "network_of q b t =
     (let G = bc_geth b; L = bc_sdk b in
      \<lparr>n_PeggyParams = PeggyParams q,
       n_LastClaimEventByAddr = LastClaimEventByAddr L q,
       n_GetValidatorAddress = GetValidatorAddress G L q,
       n_ValsetAt = ValsetAt q,
       n_CurrentValset = CurrentValset q,
       n_OldestUnsignedValsets = OldestUnsignedValsets L q,
       n_LatestValsets = LatestValsets q,
       n_AllValsetConfirms = AllValsetConfirms q,
       n_OldestUnsignedTransactionBatch = OldestUnsignedTransactionBatch L q,
       n_LatestTransactionBatches = LatestTransactionBatches q,
       n_UnbatchedTokensWithFees = UnbatchedTokensWithFees q,
       n_TransactionBatchSignatures = TransactionBatchSignatures G q,
       n_UpdatePeggyOrchestratorAddresses = UpdatePeggyOrchestratorAddresses b,
       n_SendValsetConfirm = SendValsetConfirm b,
       n_SendBatchConfirm = SendBatchConfirm b,
       n_SendRequestBatch = SendRequestBatch b,
       n_SendToEth = SendToEth_broadcast b,
       n_SendOldDepositClaim = SendOldDepositClaim b,
       n_SendDepositClaim = SendDepositClaim b,
       n_SendWithdrawalClaim = SendWithdrawalClaim b,
       n_SendValsetClaim = SendValsetClaim b,
       n_SendERC20DeployedClaim = SendERC20DeployedClaim b,
       n_GetBlock = GetBlock t\<rparr>)"

record NetworkConfig =
  nc_ChainID :: string
  nc_ValidatorAddress :: string
  nc_CosmosGRPC :: string
  nc_TendermintRPC :: string
  nc_GasPrice :: string

text \<open>The SDK's table of networks, of which the code overwrites the fields below.\<close>

record client_network =
  cl_Name :: string
  cl_ChainId :: string
  cl_FeeDenom :: string
  cl_TmEndpoint :: string
  cl_ChainGrpcEndpoint :: string
  cl_ExplorerGrpcEndpoint :: string
  cl_LcdEndpoint :: string

type_synonym LoadNetwork = "string \<Rightarrow> string \<Rightarrow> client_network"

definition customEndpoints :: "LoadNetwork \<Rightarrow> NetworkConfig \<Rightarrow> client_network" where
  "customEndpoints load cfg = (load ''devnet'' [])
     \<lparr>cl_Name := ''custom'', cl_ChainId := nc_ChainID cfg, cl_FeeDenom := ''inj'',
      cl_TmEndpoint := nc_TendermintRPC cfg, cl_ChainGrpcEndpoint := nc_CosmosGRPC cfg,
      cl_ExplorerGrpcEndpoint := [], cl_LcdEndpoint := []\<rparr>"

definition loadBalancedEndpoints :: "LoadNetwork \<Rightarrow> NetworkConfig \<Rightarrow> client_network res" where
  "loadBalancedEndpoints load cfg =
     (if nc_ChainID cfg = ''injective-1'' then Ok (load ''mainnet'' ''lb'')
      else if nc_ChainID cfg = ''injective-777'' then Ok (load ''devnet'' ''lb'')
      else if nc_ChainID cfg = ''injective-888'' then Ok (load ''testnet'' ''lb'')
      else Panic (ErrorNew (''no provider for chain id '' @ nc_ChainID cfg)))"

definition loadClientConfig :: "LoadNetwork \<Rightarrow> NetworkConfig \<Rightarrow> client_network res" where
  "loadClientConfig load cfg =
     (if nc_CosmosGRPC cfg \<noteq> [] \<and> nc_TendermintRPC cfg \<noteq> [] then Ok (customEndpoints load cfg)
      else loadBalancedEndpoints load cfg)"

text \<open>
  \<open>awaitConnection\<close>: the states of the connection seen by the polls before the deadline; running
  past it ends the process.
\<close>

fun awaitConnection :: "bool list \<Rightarrow> unit res" where
  "awaitConnection [] = Exit"
| "awaitConnection (ready # polls) = (if ready then Ok () else awaitConnection polls)"

definition HasRegisteredOrchestrator :: "'e Network \<Rightarrow> address \<Rightarrow> ('e world, AccAddress option) io" where
  "HasRegisteredOrchestrator n ethAddr = bindE (attempt (n_GetValidatorAddress n ethAddr))
     (\<lambda>r. case r of Inl _ \<Rightarrow> ret None | Inr validator \<Rightarrow> ret (Some validator))"

section \<open>What the orchestrator relies on\<close>

definition silent :: "('e world, 'a) io \<Rightarrow> bool" where
  "silent m \<longleftrightarrow> keeps same_broadcasts m \<and> keeps same_submitted m"

locale injective_api =
  fixes net :: "'e Network" and bc :: "'e broadcastClient"
  assumes query_silent:
    "silent (n_PeggyParams net)" "silent (n_LastClaimEventByAddr net a)"
    "silent (n_ValsetAt net k)" "silent (n_CurrentValset net)" "silent (n_OldestUnsignedValsets net a)"
    "silent (n_LatestValsets net)" "silent (n_AllValsetConfirms net k)"
    "silent (n_OldestUnsignedTransactionBatch net a)" "silent (n_LatestTransactionBatches net)"
    "silent (n_UnbatchedTokensWithFees net)" "silent (n_TransactionBatchSignatures net k t)"
    "silent (n_GetBlock net h)" "silent (n_GetValidatorAddress net t)"
    and claims_one:
    "broadcasts_one (\<lambda>m. m = old_deposit_msg bc e1) (n_SendOldDepositClaim net e1)"
    "broadcasts_one (\<lambda>m. m = deposit_msg bc e2) (n_SendDepositClaim net e2)"
    "broadcasts_one (\<lambda>m. m = withdrawal_msg bc e3) (n_SendWithdrawalClaim net e3)"
    "broadcasts_one (\<lambda>m. \<exists>members. claim_members (bc_geth bc) (vu_Validators e4) (vu_Powers e4) = Ok members \<and>
       m = valset_msg bc e4 members) (n_SendValsetClaim net e4)"
    "broadcasts_one (\<lambda>m. m = erc20_msg bc e5) (n_SendERC20DeployedClaim net e5)"
    and confirms_one:
    "broadcasts_one (\<lambda>m. \<exists>c. m = ValsetConfirm c \<and> vc_Nonce c = vs_Nonce vs) (n_SendValsetConfirm net eth pid vs)"
    "broadcasts_one (\<lambda>m. \<exists>c. m = ConfirmBatch c \<and> cb_Nonce c = ob_BatchNonce b \<and>
        cb_TokenContract c = ob_TokenContract b) (n_SendBatchConfirm net eth pid b)"
    and request_one: "broadcasts_one (\<lambda>m. \<exists>o'. m = RequestBatch d o') (n_SendRequestBatch net d)"

lemma query_is_silent: "silent (query msg f)"
  by (simp add: silent_def query_keeps)

lemma lib_silent: "silent (lib f)"
  by (simp add: silent_def lib_keeps)

lemma GetValidatorAddress_silent: "silent (GetValidatorAddress G L c a)"
  unfolding silent_def GetValidatorAddress_def
  by (intro conjI same_broadcasts.keeps_rules same_submitted.keeps_rules query_keeps)

lemmas send_defs = SendOldDepositClaim_def SendDepositClaim_def SendWithdrawalClaim_def
  SendERC20DeployedClaim_def SendRequestBatch_def

lemma SendValsetClaim_one:
  "broadcasts_one (\<lambda>m. \<exists>members. claim_members (bc_geth b) (vu_Validators e) (vu_Powers e) = Ok members \<and>
     m = valset_msg b e members) (SendValsetClaim b e)"
proof (cases "claim_members (bc_geth b) (vu_Validators e) (vu_Powers e)")
  case (Ok members)
  then have "SendValsetClaim b e = broadcast_msg b ''MsgValsetUpdatedClaim'' (valset_msg b e members)"
    by (simp add: SendValsetClaim_def fun_eq_iff io_simps)
  then show ?thesis by (simp add: Ok broadcast_msg_one)
qed (auto simp: SendValsetClaim_def io_simps broadcasts_one_def one_sent_def)

lemma SendConfirm_one:
  "broadcasts_one (\<lambda>m. \<exists>c. m = ValsetConfirm c \<and> vc_Nonce c = vs_Nonce vs) (SendValsetConfirm bc eth pid vs)"
  "broadcasts_one (\<lambda>m. \<exists>c. m = ConfirmBatch c \<and> cb_Nonce c = ob_BatchNonce b \<and>
     cb_TokenContract c = ob_TokenContract b) (SendBatchConfirm bc eth pid b)"
  unfolding SendValsetConfirm_def SendBatchConfirm_def
  by (intro broadcasts_one_bind broadcast_msg_one same_broadcasts.keeps_pure_call
      same_submitted.keeps_pure_call eth_sign_keeps; simp)+

interpretation inj: injective_api "network_of q b t" b for q b t
  by unfold_locales
    (simp_all add: network_of_def Let_def query_defs query_is_silent GetBlock_def lib_silent
      GetValidatorAddress_silent send_defs broadcast_msg_one SendValsetClaim_one SendConfirm_one)

lemma network_sel:
  "n_PeggyParams (network_of q b t) = PeggyParams q"
  "n_LastClaimEventByAddr (network_of q b t) = LastClaimEventByAddr (bc_sdk b) q"
  "n_ValsetAt (network_of q b t) = ValsetAt q"
  "n_CurrentValset (network_of q b t) = CurrentValset q"
  "n_OldestUnsignedValsets (network_of q b t) = OldestUnsignedValsets (bc_sdk b) q"
  "n_LatestValsets (network_of q b t) = LatestValsets q"
  "n_AllValsetConfirms (network_of q b t) = AllValsetConfirms q"
  "n_OldestUnsignedTransactionBatch (network_of q b t) = OldestUnsignedTransactionBatch (bc_sdk b) q"
  "n_LatestTransactionBatches (network_of q b t) = LatestTransactionBatches q"
  "n_UnbatchedTokensWithFees (network_of q b t) = UnbatchedTokensWithFees q"
  "n_TransactionBatchSignatures (network_of q b t) = TransactionBatchSignatures (bc_geth b) q"
  "n_SendValsetConfirm (network_of q b t) = SendValsetConfirm b"
  "n_SendBatchConfirm (network_of q b t) = SendBatchConfirm b"
  "n_SendRequestBatch (network_of q b t) = SendRequestBatch b"
  "n_SendOldDepositClaim (network_of q b t) = SendOldDepositClaim b"
  "n_GetBlock (network_of q b t) = GetBlock t"
  by (simp_all add: network_of_def Let_def)

end
