(* ===== verification/EthNetwork.thy ===== *)
theory EthNetwork
  imports PeggySol CosmosNetwork
begin

text \<open>
  \<open>orchestrator/ethereum/network.go\<close>: the interface of Ethereum the orchestrator is written against,
  and its construction. The event getters drain the iterators of the generated bindings of \<open>Wrapper\<close>. The locale \<open>ethereum_api\<close> states what the orchestrator relies on. Numbers formatted
  into error messages are left out.
\<close>

section \<open>Event getters\<close>

text \<open>
  \<open>for iter.Next() { events = append(events, iter.Event) }\<close>. The loop has no bound: None when it does not
  end.
\<close>

partial_function (option) drain ::
  "(('e, 'ev) iterator \<Rightarrow> (bool \<times> ('e, 'ev) iterator) option) \<Rightarrow> ('e, 'ev) iterator \<Rightarrow> 'ev list \<Rightarrow>
     ('ev list \<times> ('e, 'ev) iterator) option" where
  [code]: "drain iter_Next iter events = (case iter_Next iter of
     None \<Rightarrow> None
   | Some (ok, iter') \<Rightarrow>
       if ok then drain iter_Next iter' (events @ (case it_Event iter' of Some ev \<Rightarrow> [ev] | None \<Rightarrow> []))
       else Some (events, iter'))"

definition isUnknownBlockErr :: "goerr \<Rightarrow> bool" where
  "isUnknownBlockErr err \<longleftrightarrow> contains_str (err_text err) ''unknown block'' \<or>
     contains_str (err_text err) ''One of the blocks specified in filter''"

record 'e eth_node =
  HeaderByNumber :: "('e, int) libfun"
  CallContract :: "address \<Rightarrow> bytes \<Rightarrow> ('e, bytes) libfun"

record 'e eth_network =
  en_PeggyContract :: "'e peggyContract"
  en_FromAddr :: address
  en_node :: "'e eth_node"
  en_bind :: "'e bindings"
  en_env :: "'e eth_env"

text \<open>The rest of a getter, once it has an iterator; it is closed when the getter returns.\<close>

definition all_events ::
  "(('e, 'ev) iterator \<Rightarrow> (bool \<times> ('e, 'ev) iterator) option) \<Rightarrow> ('e, 'ev) iterator \<Rightarrow> ('e world, 'ev list) io" where
  "all_events iter_Next iter = (\<lambda>w. case drain iter_Next iter [] of
     None \<Rightarrow> (Diverge, w)
   | Some (events, iter') \<Rightarrow> (Ok events, w\<lparr>outside := snd (it_Close iter' (outside w))\<rparr>))"

definition get_events ::
  "'e eth_network \<Rightarrow> string \<Rightarrow> ('e bind_contract \<Rightarrow> FilterOpts \<Rightarrow> ('e, ('e, 'ev) iterator) libfun) \<Rightarrow>
     (('e, 'ev) iterator \<Rightarrow> (bool \<times> ('e, 'ev) iterator) option) \<Rightarrow> u64 \<Rightarrow> u64 \<Rightarrow> ('e world, 'ev list) io" where
  "get_events n msg filterEvent iter_Next startBlock endBlock =
     (case NewPeggyFilterer (en_bind n) (peggyAddress (en_PeggyContract n)) (evmProvider (EVMCommitter (en_PeggyContract n))) of
        Inl e \<Rightarrow> throw (Wrapped ''failed to init Peggy events filterer'' e)
      | Inr peggyFilterer \<Rightarrow>
          bindE (attempt (lib (filterEvent peggyFilterer \<lparr>opts_Start = startBlock, opts_End = Some endBlock\<rparr>)))
          (\<lambda>iter. case iter of
             Inl err \<Rightarrow> if \<not> isUnknownBlockErr err then throw (Wrapped msg err)
                        else throw (ErrorNew ''no iterator returned'')
           | Inr iter \<Rightarrow> all_events iter_Next iter))"

definition GetSendToCosmosEvents where
  "GetSendToCosmosEvents n = get_events n ''failed to scan past SendToCosmos events from Ethereum''
     (\<lambda>c opts. FilterSendToCosmosEvent c opts [] [] []) SendToCosmosEvent_Next"

definition GetSendToInjectiveEvents where
  "GetSendToInjectiveEvents n = get_events n ''failed to scan past SendToInjectiveEvent events from Ethereum''
     (\<lambda>c opts. FilterSendToInjectiveEvent c opts [] [] []) SendToInjectiveEvent_Next"

definition GetPeggyERC20DeployedEvents where
  "GetPeggyERC20DeployedEvents n = get_events n ''failed to scan past ERC20DeployedEvent events from Ethereum''
     (\<lambda>c opts. FilterERC20DeployedEvent c opts []) ERC20DeployedEvent_Next"

definition GetValsetUpdatedEvents where
  "GetValsetUpdatedEvents n = get_events n ''failed to scan past ValsetUpdatedEvent events from Ethereum''
     (\<lambda>c opts. FilterValsetUpdatedEvent c opts []) ValsetUpdatedEvent_Next"

definition GetTransactionBatchExecutedEvents where
  "GetTransactionBatchExecutedEvents n = get_events n ''failed to scan past TransactionBatchExecuted events from Ethereum''
     (\<lambda>c opts. FilterTransactionBatchExecutedEvent c opts [] []) TransactionBatchExecutedEvent_Next"

section \<open>Other calls\<close>

text \<open>\<open>big.Int.SetBytes\<close>: big endian.\<close>

definition big_SetBytes :: "bytes \<Rightarrow> int" where
  "big_SetBytes bs = foldl (\<lambda>n b. n * 256 + uint b) 0 bs"

definition TokenDecimals :: "'e eth_network \<Rightarrow> address \<Rightarrow> ('e world, u8) io" where
  "TokenDecimals n tokenContract =
     bindE (lib (CallContract (en_node n) tokenContract [0x31, 0x3c, 0xe5, 0x67])) (\<lambda>r.
       if r = [] then throw (ErrorNew (''no decimals found for token contract '' @
                               AddressHex (ee_geth (en_env n)) tokenContract))
       else ret (ucast (big_Uint64 (big_SetBytes r))))"

definition GetHeaderByNumber :: "'e eth_network \<Rightarrow> ('e world, int) io" where
  "GetHeaderByNumber n = lib (HeaderByNumber (en_node n))"

definition net_GetPeggyID :: "'e eth_network \<Rightarrow> ('e world, hash) io" where
  "net_GetPeggyID n = GetPeggyID (en_PeggyContract n) (en_FromAddr n)"

definition net_GetValsetNonce :: "'e eth_network \<Rightarrow> ('e world, int) io" where
  "net_GetValsetNonce n = GetValsetNonce (en_PeggyContract n) (en_FromAddr n)"

definition net_GetTxBatchNonce :: "'e eth_network \<Rightarrow> address \<Rightarrow> ('e world, int) io" where
  "net_GetTxBatchNonce n erc20 = GetTxBatchNonce (en_PeggyContract n) erc20 (en_FromAddr n)"

section \<open>Construction\<close>

record eth_NetworkConfig =
  ec_EthNodeRPC :: string
  ec_GasPriceAdjustment :: rat
  ec_MaxGasPrice :: string
  ec_PendingTxWaitDuration :: string
  ec_EthNodeAlchemyWS :: string

text \<open>
  \<open>rpc.Dial\<close> gives the client; \<open>time.ParseDuration\<close> is an argument too. With a websocket
  URL set the subscription of \<open>PendingTxs\<close> is started beside the network that is returned.
\<close>

definition NewEthNetwork ::
  "'e bindings \<Rightarrow> 'e eth_env \<Rightarrow> rat \<Rightarrow> (string \<Rightarrow> ('e, 'e evm_client \<times> 'e eth_node) libfun) \<Rightarrow>
     (string \<Rightarrow> goerr + int) \<Rightarrow> address \<Rightarrow> address \<Rightarrow> SignerFn \<Rightarrow> eth_NetworkConfig \<Rightarrow>
     ('e world, 'e eth_network \<times> bool) io" where
  "NewEthNetwork B E twenty rpc_Dial ParseDuration peggyContractAddr fromAddr signerFn cfg =
     bindE (wrapE (''failed to connect to ethereum RPC: '' @ ec_EthNodeRPC cfg)
              (lib (rpc_Dial (ec_EthNodeRPC cfg)))) (\<lambda>(client, node).
     bindE (NewEthCommitter (ee_dec E) twenty fromAddr (ec_GasPriceAdjustment cfg) (ec_MaxGasPrice cfg)
              signerFn client []) (\<lambda>ethCommitter.
     case ParseDuration (ec_PendingTxWaitDuration cfg) of
       Inl e \<Rightarrow> throw e
     | Inr pendingTxDuration \<Rightarrow>
         bindE (NewPeggyContract B ethCommitter peggyContractAddr [] pendingTxDuration)
           (\<lambda>peggyContract.
              ret (\<lparr>en_PeggyContract = peggyContract, en_FromAddr = fromAddr, en_node = node,
                    en_bind = B, en_env = E\<rparr>, ec_EthNodeAlchemyWS cfg \<noteq> []))))"

text \<open>The interface the orchestrator is written against.\<close>

record 'e eth_Network =
  e_GetHeaderByNumber :: "('e world, int) io"
  e_GetPeggyID :: "('e world, hash) io"
  e_GetSendToCosmosEvents :: "u64 \<Rightarrow> u64 \<Rightarrow> ('e world, PeggySendToCosmosEvent list) io"
  e_GetSendToInjectiveEvents :: "u64 \<Rightarrow> u64 \<Rightarrow> ('e world, PeggySendToInjectiveEvent list) io"
  e_GetPeggyERC20DeployedEvents :: "u64 \<Rightarrow> u64 \<Rightarrow> ('e world, PeggyERC20DeployedEvent list) io"
  e_GetValsetUpdatedEvents :: "u64 \<Rightarrow> u64 \<Rightarrow> ('e world, PeggyValsetUpdatedEvent list) io"
  e_GetTransactionBatchExecutedEvents ::
    "u64 \<Rightarrow> u64 \<Rightarrow> ('e world, PeggyTransactionBatchExecutedEvent list) io"
  e_GetValsetNonce :: "('e world, int) io"
  e_SendEthValsetUpdate :: "Valset \<Rightarrow> Valset \<Rightarrow> MsgValsetConfirm list \<Rightarrow> ('e world, hash) io"
  e_GetTxBatchNonce :: "address \<Rightarrow> ('e world, int) io"
  e_SendTransactionBatch :: "Valset \<Rightarrow> OutgoingTxBatch \<Rightarrow> MsgConfirmBatch list \<Rightarrow> ('e world, hash) io"
  e_TokenDecimals :: "address \<Rightarrow> ('e world, u8) io"

definition eth_of :: "'e eth_network \<Rightarrow> 'e eth_Network" where
  "eth_of n =
     \<lparr>e_GetHeaderByNumber = GetHeaderByNumber n,
      e_GetPeggyID = net_GetPeggyID n,
      e_GetSendToCosmosEvents = GetSendToCosmosEvents n,
      e_GetSendToInjectiveEvents = GetSendToInjectiveEvents n,
      e_GetPeggyERC20DeployedEvents = GetPeggyERC20DeployedEvents n,
      e_GetValsetUpdatedEvents = GetValsetUpdatedEvents n,
      e_GetTransactionBatchExecutedEvents = GetTransactionBatchExecutedEvents n,
      e_GetValsetNonce = net_GetValsetNonce n,
      e_SendEthValsetUpdate = SendEthValsetUpdate (en_env n) (en_PeggyContract n),
      e_GetTxBatchNonce = net_GetTxBatchNonce n,
      e_SendTransactionBatch = SendTransactionBatch (en_env n) (en_PeggyContract n),
      e_TokenDecimals = TokenDecimals n\<rparr>"

section \<open>What the orchestrator relies on\<close>

locale ethereum_api =
  fixes eth :: "'e eth_Network"
    and faithful :: bool
    and update_data :: "Valset \<Rightarrow> Valset \<Rightarrow> MsgValsetConfirm list \<Rightarrow> eth_tx \<Rightarrow> bool"
    and batch_data :: "Valset \<Rightarrow> OutgoingTxBatch \<Rightarrow> MsgConfirmBatch list \<Rightarrow> eth_tx \<Rightarrow> bool"
  assumes read_silent:
    "silent (e_GetHeaderByNumber eth)" "silent (e_GetPeggyID eth)"
    "silent (e_GetSendToCosmosEvents eth s t)" "silent (e_GetSendToInjectiveEvents eth s t)"
    "silent (e_GetPeggyERC20DeployedEvents eth s t)" "silent (e_GetValsetUpdatedEvents eth s t)"
    "silent (e_GetTransactionBatchExecutedEvents eth s t)" "silent (e_GetValsetNonce eth)"
    "silent (e_GetTxBatchNonce eth a)" "silent (e_TokenDecimals eth a)"
    and no_broadcast:
    "keeps same_broadcasts (e_SendEthValsetUpdate eth old new vcs)"
    "keeps same_broadcasts (e_SendTransactionBatch eth old b bcs)"
    and update_submits: "faithful \<Longrightarrow>
      keeps (submits (update_data old new vcs)) (e_SendEthValsetUpdate eth old new vcs)"
    and update_order: "update_data old new vcs tx \<Longrightarrow> vs_Nonce old < vs_Nonce new"
    and batch_submits: "faithful \<Longrightarrow>
      keeps (submits (batch_data old b bcs)) (e_SendTransactionBatch eth old b bcs)"

lemma all_events_silent: "keeps same_broadcasts (all_events iter_Next iter)" "keeps same_submitted (all_events iter_Next iter)"
  by (rule keepsI, auto simp: all_events_def same_broadcasts_def same_submitted_def split: option.splits)+

lemma get_events_silent: "silent (get_events n msg f iter_Next s t)"
  unfolding silent_def get_events_def
  by (intro conjI same_broadcasts.keeps_rules same_submitted.keeps_rules lib_keeps all_events_silent)

lemma convert_keeps:
  "keeps same_broadcasts (convert_bigInt out)" "keeps same_submitted (convert_bigInt out)"
  "keeps same_broadcasts (convert_bytes32 out')" "keeps same_submitted (convert_bytes32 out')"
  by (rule keepsI, auto simp: same_broadcasts_def same_submitted_def dest: convert_same)+

lemma calls_silent:
  "silent (GetHeaderByNumber n)" "silent (net_GetPeggyID n)" "silent (net_GetValsetNonce n)"
  "silent (net_GetTxBatchNonce n a)" "silent (TokenDecimals n a)"
  unfolding silent_def GetHeaderByNumber_def net_GetPeggyID_def net_GetValsetNonce_def
    net_GetTxBatchNonce_def TokenDecimals_def GetPeggyID_def GetValsetNonce_def GetTxBatchNonce_def
    LastBatchNonce_def StateLastValsetNonce_def StatePeggyId_def
  by (intro conjI same_broadcasts.keeps_rules same_submitted.keeps_rules lib_keeps convert_keeps)+

lemmas get_events_defs = GetSendToCosmosEvents_def GetSendToInjectiveEvents_def
  GetPeggyERC20DeployedEvents_def GetValsetUpdatedEvents_def GetTransactionBatchExecutedEvents_def

lemma SendTransactionWithRet_broadcasts: "keeps same_broadcasts (SendTransactionWithRet p tx)"
  by (rule keepsI)
    (auto simp: SendTransactionWithRet_def same_broadcasts_def io_simps split: sum.splits prod.splits)

lemma resyncNonces_broadcasts: "keeps same_broadcasts (resyncNonces c a)"
  unfolding resyncNonces_def
  by (intro same_broadcasts.keeps_rules lib_keeps with_cache_keeps)

lemma send_loop_broadcasts:
  "keeps same_broadcasts (send_loop c recipient gasLimit gasPrice txData fuel nonce resyncUsed)"
proof (induction fuel arbitrary: nonce resyncUsed)
  case 0
  then show ?case by (rule keepsI) (simp add: same_broadcasts.P_refl)
next
  case (Suc fuel)
  show ?case
    unfolding send_loop.simps Let_def
    by (intro same_broadcasts.keeps_rules resyncNonces_broadcasts with_cache_keeps Suc
        SendTransactionWithRet_broadcasts)
qed

lemma Serialize_broadcasts:
  assumes "keeps same_broadcasts m"
  shows "keeps same_broadcasts (nc_Serialize upd_cache a m)"
proof (rule keepsI)
  fix w r w'
  assume "nc_Serialize upd_cache a m w = (r, w')"
  then have "same_broadcasts (upd_cache (\<lambda>n. n\<lparr>guard := insert a (guard n)\<rparr>) w) w'"
    unfolding nc_Serialize_def by (rule keepsD [OF assms])
  then show "same_broadcasts w w'" by (simp add: same_broadcasts_def upd_cache_def)
qed

lemma SendTx_broadcasts: "keeps same_broadcasts (SendTx fuel c recipient txData)"
  unfolding SendTx_def Let_def
  by (intro same_broadcasts.keeps_rules lib_keeps with_cache_keeps Serialize_broadcasts
      send_loop_broadcasts)

lemma send_unless_pending_broadcasts:
  "keeps same_broadcasts (send_unless_pending (SendTx fuel c) now wait addr msg d)"
proof -
  have "keeps same_broadcasts (pending_input now d wait)"
    by (rule keepsI)
      (auto simp: pending_input_def io_simps same_broadcasts_def split: prod.splits if_splits)
  then show ?thesis
    unfolding send_unless_pending_def by (intro same_broadcasts.keeps_rules SendTx_broadcasts)
qed

lemma contract_sends_broadcasts:
  "keeps same_broadcasts (SendEthValsetUpdate E s old new vcs)"
  "keeps same_broadcasts (SendTransactionBatch E s cur batch bcs)"
  unfolding SendEthValsetUpdate_def SendTransactionBatch_def Let_def
  by (intro same_broadcasts.keeps_rules send_unless_pending_broadcasts)+

text \<open>The calls the two submissions make, on the contract's own network.\<close>

definition update_call :: "'e eth_network \<Rightarrow> Valset \<Rightarrow> Valset \<Rightarrow> MsgValsetConfirm list \<Rightarrow> eth_tx \<Rightarrow> bool" where
  "update_call n old new vcs tx \<longleftrightarrow> vs_Nonce old < vs_Nonce new \<and>
     et_To tx = peggyAddress (en_PeggyContract n) \<and> updateValset_data (en_env n) old new vcs (et_Data tx) \<and>
     et_GasPrice tx \<le> sint (ethMaxGasPrice (EVMCommitter (en_PeggyContract n)))"

definition batch_call :: "'e eth_network \<Rightarrow> Valset \<Rightarrow> OutgoingTxBatch \<Rightarrow> MsgConfirmBatch list \<Rightarrow> eth_tx \<Rightarrow> bool" where
  "batch_call n cur batch bcs tx \<longleftrightarrow> et_To tx = peggyAddress (en_PeggyContract n) \<and>
     submitBatch_data (en_env n) cur batch bcs (et_Data tx) \<and>
     et_GasPrice tx \<le> sint (ethMaxGasPrice (EVMCommitter (en_PeggyContract n)))"

lemma contract_sends_submit:
  assumes "signer_faithful (fromSigner (EVMCommitter (en_PeggyContract n)))"
  shows "keeps (submits (update_call n old new vcs))
      (SendEthValsetUpdate (en_env n) (en_PeggyContract n) old new vcs)"
    and "keeps (submits (batch_call n cur batch bcs))
      (SendTransactionBatch (en_env n) (en_PeggyContract n) cur batch bcs)"
proof -
  have out: "submits Q w w'" if "send_unless_pending (SendTx fuel (EVMCommitter (en_PeggyContract n)))
      now wait (peggyAddress (en_PeggyContract n)) msg d w = (r, w')"
    "\<And>tx. et_To tx = peggyAddress (en_PeggyContract n) \<Longrightarrow> et_Data tx = d \<Longrightarrow>
      et_GasPrice tx \<le> sint (ethMaxGasPrice (EVMCommitter (en_PeggyContract n))) \<Longrightarrow> Q tx"
    for Q fuel now wait msg d w r w'
    using sent_to_contract [OF assms that(1)] that(2) by (fastforce simp: submits_def case_prod_beta)
  show "keeps (submits (update_call n old new vcs))
      (SendEthValsetUpdate (en_env n) (en_PeggyContract n) old new vcs)"
  proof (rule keepsI)
    fix w r w'
    assume "SendEthValsetUpdate (en_env n) (en_PeggyContract n) old new vcs w = (r, w')"
    from SendEthValsetUpdate_cases [OF this] show "submits (update_call n old new vcs) w w'"
      by (auto simp: update_call_def intro: out) (simp add: submits_def)
  qed
  show "keeps (submits (batch_call n cur batch bcs))
      (SendTransactionBatch (en_env n) (en_PeggyContract n) cur batch bcs)"
  proof (rule keepsI)
    fix w r w'
    assume "SendTransactionBatch (en_env n) (en_PeggyContract n) cur batch bcs w = (r, w')"
    from SendTransactionBatch_cases [OF this] show "submits (batch_call n cur batch bcs) w w'"
      by (auto simp: batch_call_def intro: out) (simp add: submits_def)
  qed
qed

interpretation eth_net: ethereum_api "eth_of n"
  "signer_faithful (fromSigner (EVMCommitter (en_PeggyContract n)))" "update_call n" "batch_call n" for n
  by unfold_locales
    (simp_all add: eth_of_def get_events_defs get_events_silent calls_silent contract_sends_broadcasts
      contract_sends_submit update_call_def)

section \<open>Properties\<close>

lemma drain_deliver:
  assumes "it_Next K it = Some (deliver K it' lg)"
  shows "drain (it_Next K) it acc = (case parse_log K (it_contract it') (it_event it') lg of
      Inl err \<Rightarrow> Some (acc, snd (deliver K it' lg))
    | Inr ev \<Rightarrow> drain (it_Next K) (it'\<lparr>it_Event := Some ev\<rparr>) (acc @ [ev]))"
  by (subst drain.simps) (simp add: assms deliver_parse split: sum.splits)

text \<open>After the end of the subscription the loop takes the logs the channel still holds.\<close>

lemma drain_held:
  assumes "it_fail it = None" "it_done it" "it_logs it = Ends err (foldr Holds lgs Empty)"
  shows "\<exists>it'. drain (it_Next K) it acc =
      Some (acc @ parsed (map (parse_log K (it_contract it) (it_event it)) lgs), it') \<and>
    it_Error it' = parse_error (map (parse_log K (it_contract it) (it_event it)) lgs) \<and> it_sub it' = it_sub it"
  using assms
proof (induction lgs arbitrary: it acc)
  case Nil
  then show ?case by (subst drain.simps) (simp add: it_Next_done it_Error_def)
next
  case (Cons lg lgs)
  let ?it = "it\<lparr>it_logs := Ends err (foldr Holds lgs Empty)\<rparr>"
  have "it_Next K it = Some (deliver K ?it lg)" using Cons.prems by (simp add: it_Next_done)
  from drain_deliver [OF this] Cons.IH [of "?it\<lparr>it_Event := Some ev\<rparr>" "acc @ [ev]" for ev] Cons.prems
  show ?case
    by (cases "parse_log K (it_contract it) (it_event it) lg") (simp_all add: deliver_parse it_Error_def)
qed

text \<open>The loop over a new iterator: what it returns, and what \<open>Error\<close> would report after it.\<close>

lemma drain_channel:
  fixes K :: "('e, 'ev) event_kind"
  assumes "it_fail it = None" "\<not> it_done it" "it_logs it = channel lgs err rest"
  defines "xs \<equiv> map (parse_log K (it_contract it) (it_event it)) (lgs @ (if err = None then rest else []))"
  shows "\<exists>it'. drain (it_Next K) it acc = Some (acc @ parsed xs, it') \<and>
    it_Error it' = (case parse_error xs of Some e \<Rightarrow> Some e | None \<Rightarrow> err) \<and> it_sub it' = it_sub it"
  using assms(1-3) unfolding xs_def
proof (induction lgs arbitrary: it acc)
  case Nil
  let ?it = "it\<lparr>it_logs := Ends err (foldr Holds rest Empty), it_done := True, it_fail := err\<rparr>"
  have "it_Next K it = it_Next K ?it" using Nil by (simp add: channel_def it_Next_running(2))
  then have "drain (it_Next K) it acc = drain (it_Next K) ?it acc" by (subst (1 2) drain.simps) simp
  moreover have "drain (it_Next K) ?it acc = Some (acc, ?it)" if "err \<noteq> None"
    using that by (subst drain.simps) (simp add: it_Next_failed)
  ultimately show ?case
    using drain_held [of ?it err rest K acc] by (cases err) (auto simp: it_Error_def split: option.splits)
next
  case (Cons lg lgs)
  let ?it = "it\<lparr>it_logs := channel lgs err rest\<rparr>"
  have "it_Next K it = Some (deliver K ?it lg)" using Cons.prems by (simp add: channel_def it_Next_running(1))
  from drain_deliver [OF this] Cons.IH [of "?it\<lparr>it_Event := Some ev\<rparr>" "acc @ [ev]" for ev] Cons.prems
  show ?case
    by (cases "parse_log K (it_contract it) (it_event it) lg") (simp_all add: deliver_parse it_Error_def)
qed

lemma drain_sub:
  assumes "drain iter_Next it acc = Some (evs, it')"
    and keeps: "\<And>it ok it'. iter_Next it = Some (ok, it') \<Longrightarrow> it_sub it' = it_sub it"
  shows "it_sub it' = it_sub it"
proof -
  have "it_sub (snd (evs, it')) = it_sub it"
    by (rule drain.raw_induct [of "\<lambda>f it acc r. f = iter_Next \<longrightarrow> it_sub (snd r) = it_sub it", rule_format, OF _ assms(1)])
      (auto dest: keeps split: option.splits if_splits prod.splits)
  then show ?thesis by simp
qed

lemma it_Next_sub:
  assumes "it_Next K it = Some (ok, it')"
  shows "it_sub it' = it_sub it"
proof -
  have deliver: "it_sub (snd (deliver K jt lg)) = it_sub jt" for jt lg
    by (simp add: deliver_def split: prod.splits option.splits)
  have ended: "it_sub jt' = it_sub jt" if "it_Next K jt = Some (ok, jt')" "it_fail jt \<noteq> None \<or> it_done jt" for jt jt'
  proof (cases "it_fail jt = None")
    case True
    with that show ?thesis using deliver [of "jt\<lparr>it_logs := snd (poll_logs (it_logs jt))\<rparr>"]
      by (auto simp: it_Next.simps [of K jt] case_prod_beta split: option.splits) (metis snd_conv)
  qed (use that in \<open>simp add: it_Next_failed\<close>)
  show ?thesis
  proof (cases "it_fail it \<noteq> None \<or> it_done it")
    case False
    show ?thesis
    proof (cases "it_logs it")
      case (Sends lg ch)
      with False assms show ?thesis
        using deliver [of "it\<lparr>it_logs := ch\<rparr>" lg] by (simp add: it_Next_running(1))
    next
      case (Ends err held)
      with False assms ended [of "it\<lparr>it_logs := Ends err held, it_done := True, it_fail := err\<rparr>" it'] show ?thesis
        by (simp add: it_Next_running(2))
    qed (use False assms in \<open>simp add: it_Next_running(3)\<close>)
  qed (rule ended [OF assms])
qed

text \<open>How a getter ends: without a filter call, with its error, in a loop without end, or closing the iterator.\<close>

lemma get_events_cases:
  assumes "get_events n msg filterEvent (it_Next K) x y w = (r, w')"
    and "\<And>c opts. filterEvent c opts = new_iterator c name opts rules"
  obtains (none) "w' = w" "\<And>es. r \<noteq> Ok es"
    | (error) c err s where
      "NewPeggyFilterer (en_bind n) (peggyAddress (en_PeggyContract n)) (evmProvider (EVMCommitter (en_PeggyContract n))) = Inr c"
      "ct_FilterLogs c \<lparr>opts_Start = x, opts_End = Some y\<rparr> name rules (outside w) = (Inl err, s)"
      "w' = w\<lparr>outside := s\<rparr>" "\<And>es. r \<noteq> Ok es"
    | (loops) c ch sub s where
      "NewPeggyFilterer (en_bind n) (peggyAddress (en_PeggyContract n)) (evmProvider (EVMCommitter (en_PeggyContract n))) = Inr c"
      "ct_FilterLogs c \<lparr>opts_Start = x, opts_End = Some y\<rparr> name rules (outside w) = (Inr (ch, sub), s)"
      "w' = w\<lparr>outside := s\<rparr>" "r = Diverge"
    | (closes) c ch sub s es where
      "NewPeggyFilterer (en_bind n) (peggyAddress (en_PeggyContract n)) (evmProvider (EVMCommitter (en_PeggyContract n))) = Inr c"
      "ct_FilterLogs c \<lparr>opts_Start = x, opts_End = Some y\<rparr> name rules (outside w) = (Inr (ch, sub), s)"
      "w' = w\<lparr>outside := Unsubscribe sub s\<rparr>" "r = Ok es"
proof (cases "NewPeggyFilterer (en_bind n) (peggyAddress (en_PeggyContract n)) (evmProvider (EVMCommitter (en_PeggyContract n)))")
  case (Inl e)
  then show ?thesis using assms(1) by (intro none) (auto simp: get_events_def io_simps)
next
  case (Inr c)
  let ?opts = "\<lparr>opts_Start = x, opts_End = Some y\<rparr>"
  show ?thesis
  proof (cases "ct_FilterLogs c ?opts name rules (outside w)")
    case (Pair a s)
    show ?thesis
    proof (cases a)
      case (Inl err)
      with Pair \<open>NewPeggyFilterer _ _ _ = _\<close> assms show ?thesis
        by (intro error [of c err s])
          (auto simp: get_events_def new_iterator_def io_simps split: if_splits)
    next
      case logs: (Inr p)
      obtain ch sub where p: "p = (ch, sub)" by (cases p)
      let ?it = "\<lparr>it_Event = None, it_contract = c, it_event = name, it_logs = ch, it_sub = sub, it_done = False,
        it_fail = None\<rparr>"
      have run: "all_events (it_Next K) ?it (w\<lparr>outside := s\<rparr>) = (r, w')"
        using assms Inr Pair logs p by (simp add: get_events_def new_iterator_def io_simps)
      show ?thesis
      proof (cases "drain (it_Next K) ?it []")
        case None
        with run loops Inr Pair logs p show ?thesis by (simp add: all_events_def)
      next
        case (Some q)
        then have "it_sub (snd q) = sub" using drain_sub [of "it_Next K" ?it "[]" "fst q" "snd q"] it_Next_sub by fastforce
        with Some run closes Inr Pair logs p show ?thesis by (auto simp: all_events_def it_Close_def split: prod.splits)
      qed
    qed
  qed
qed

lemma get_events_channel:
  assumes "NewPeggyFilterer (en_bind n) (peggyAddress (en_PeggyContract n)) (evmProvider (EVMCommitter (en_PeggyContract n))) = Inr c"
    and "filterEvent c \<lparr>opts_Start = x, opts_End = Some y\<rparr> = new_iterator c name \<lparr>opts_Start = x, opts_End = Some y\<rparr> rules"
    and "ct_FilterLogs c \<lparr>opts_Start = x, opts_End = Some y\<rparr> name rules (outside w) = (Inr (channel lgs err rest, sub), s)"
  shows "get_events n msg filterEvent (it_Next K) x y w =
    (Ok (parsed (map (parse_log K c name) (lgs @ (if err = None then rest else [])))), w\<lparr>outside := Unsubscribe sub s\<rparr>)"
proof -
  let ?it = "\<lparr>it_Event = None, it_contract = c, it_event = name, it_logs = channel lgs err rest, it_sub = sub,
    it_done = False, it_fail = None\<rparr>"
  obtain it' where "drain (it_Next K) ?it [] =
      Some (parsed (map (parse_log K c name) (lgs @ (if err = None then rest else []))), it')" "it_sub it' = sub"
    using drain_channel [of ?it lgs err rest K "[]"] by auto
  then show ?thesis using assms by (simp add: get_events_def all_events_def new_iterator_def it_Close_def io_simps)
qed

lemma getters_channel:
  assumes "NewPeggyFilterer (en_bind n) (peggyAddress (en_PeggyContract n)) (evmProvider (EVMCommitter (en_PeggyContract n))) = Inr c"
    and logs: "\<And>name rules. ct_FilterLogs c \<lparr>opts_Start = x, opts_End = Some y\<rparr> name rules (outside w) =
      (Inr (channel (lgs name) (err name) (rest name), sub), s)"
  defines "received name \<equiv> lgs name @ (if err name = None then rest name else [])"
  shows "GetSendToCosmosEvents n x y w = (Ok (parsed (map (ParseSendToCosmosEvent c) (received ''SendToCosmosEvent''))), w\<lparr>outside := Unsubscribe sub s\<rparr>)"
    and "GetSendToInjectiveEvents n x y w = (Ok (parsed (map (ParseSendToInjectiveEvent c) (received ''SendToInjectiveEvent''))), w\<lparr>outside := Unsubscribe sub s\<rparr>)"
    and "GetPeggyERC20DeployedEvents n x y w = (Ok (parsed (map (ParseERC20DeployedEvent c) (received ''ERC20DeployedEvent''))), w\<lparr>outside := Unsubscribe sub s\<rparr>)"
    and "GetValsetUpdatedEvents n x y w = (Ok (parsed (map (ParseValsetUpdatedEvent c) (received ''ValsetUpdatedEvent''))), w\<lparr>outside := Unsubscribe sub s\<rparr>)"
    and "GetTransactionBatchExecutedEvents n x y w = (Ok (parsed (map (ParseTransactionBatchExecutedEvent c) (received ''TransactionBatchExecutedEvent''))), w\<lparr>outside := Unsubscribe sub s\<rparr>)"
  unfolding get_events_defs next_defs received_def parse_defs
  by (rule get_events_channel [OF assms(1) _ logs], simp add: filter_defs)+

text \<open>C15. Let the filter calls return subscriptions over finitely many logs, however these are divided between the time
  before and after the end of the subscription. Then the loops over the iterators end, and each getter returns the
  events of its logs, as the parser reads them and in their order, up to the first log that is not parsed. When a subscription ends with an
  error, the logs still held are left out. In both cases the getter succeeds and leaves the error to \<open>Error\<close>,
  which nothing asks: a scan can leave out events without reporting it.\<close>

theorem event_getters_return:
  assumes "NewPeggyFilterer (en_bind n) (peggyAddress (en_PeggyContract n)) (evmProvider (EVMCommitter (en_PeggyContract n))) = Inr c"
    and "\<And>name rules. ct_FilterLogs c \<lparr>opts_Start = x, opts_End = Some y\<rparr> name rules (outside w) =
      (Inr (channel (lgs name) (err name) (rest name), sub), s)"
  defines "received name \<equiv> lgs name @ (if err name = None then rest name else [])"
  shows "GetSendToCosmosEvents n x y w = (Ok (parsed (map (ParseSendToCosmosEvent c) (received ''SendToCosmosEvent''))), w\<lparr>outside := Unsubscribe sub s\<rparr>) \<and>
    GetSendToInjectiveEvents n x y w = (Ok (parsed (map (ParseSendToInjectiveEvent c) (received ''SendToInjectiveEvent''))), w\<lparr>outside := Unsubscribe sub s\<rparr>) \<and>
    GetPeggyERC20DeployedEvents n x y w = (Ok (parsed (map (ParseERC20DeployedEvent c) (received ''ERC20DeployedEvent''))), w\<lparr>outside := Unsubscribe sub s\<rparr>) \<and>
    GetValsetUpdatedEvents n x y w = (Ok (parsed (map (ParseValsetUpdatedEvent c) (received ''ValsetUpdatedEvent''))), w\<lparr>outside := Unsubscribe sub s\<rparr>) \<and>
    GetTransactionBatchExecutedEvents n x y w = (Ok (parsed (map (ParseTransactionBatchExecutedEvent c) (received ''TransactionBatchExecutedEvent''))), w\<lparr>outside := Unsubscribe sub s\<rparr>)"
  unfolding received_def by (intro conjI getters_channel [OF assms(1,2)])

section \<open>Concrete runs\<close>

definition sample_deposit :: PeggySendToCosmosEvent where
  "sample_deposit = \<lparr>sc_TokenContract = 3, sc_Sender = 4, sc_Destination = replicate 32 9, sc_Amount = 50,
     sc_EventNonce = 5, sc_BlockNumber = 30\<rparr>"

definition sample_update :: PeggyValsetUpdatedEvent where
  "sample_update = \<lparr>vu_NewValsetNonce = 4, vu_EventNonce = 2, vu_RewardAmount = 0, vu_RewardToken = 0,
     vu_Validators = [2, 1], vu_Powers = [4294967295, 0], vu_BlockNumber = 25\<rparr>"

definition sample_bindings :: "emitted \<Rightarrow> nat bindings" where
  "sample_bindings E = \<lparr>JSON_error = (\<lambda>_. None), NewBoundContract = (\<lambda>_ _ _. listed_contract sample_answer E)\<rparr>"

definition sample_node :: "nat eth_node" where
  "sample_node = \<lparr>HeaderByNumber = (\<lambda>k. (Inr 100, k)), CallContract = (\<lambda>_ _ k. (Inr [0, 18], k))\<rparr>"

definition sample_emitted :: emitted where
  "sample_emitted = no_events\<lparr>em_SendToCosmosEvents := [sample_deposit], em_ValsetUpdatedEvents := [sample_update]\<rparr>"

definition sample_eth :: "nat eth_network" where
  "sample_eth = \<lparr>en_PeggyContract = sample_contract, en_FromAddr = 1, en_node = sample_node,
     en_bind = sample_bindings sample_emitted, en_env = sample_env\<rparr>"

text \<open>A contract whose getters find the events of a list.\<close>

lemma listed_getters:
  assumes "en_bind n = sample_bindings E"
  shows "GetSendToCosmosEvents n x y w = (Ok (filter (\<lambda>ev. x \<le> sc_BlockNumber ev \<and> sc_BlockNumber ev \<le> y) (em_SendToCosmosEvents E)), w)"
    and "GetSendToInjectiveEvents n x y w = (Ok (filter (\<lambda>ev. x \<le> si_BlockNumber ev \<and> si_BlockNumber ev \<le> y) (em_SendToInjectiveEvents E)), w)"
    and "GetPeggyERC20DeployedEvents n x y w = (Ok (filter (\<lambda>ev. x \<le> ed_BlockNumber ev \<and> ed_BlockNumber ev \<le> y) (em_ERC20DeployedEvents E)), w)"
    and "GetValsetUpdatedEvents n x y w = (Ok (filter (\<lambda>ev. x \<le> vu_BlockNumber ev \<and> vu_BlockNumber ev \<le> y) (em_ValsetUpdatedEvents E)), w)"
    and "GetTransactionBatchExecutedEvents n x y w = (Ok (filter (\<lambda>ev. x \<le> be_BlockNumber ev \<and> be_BlockNumber ev \<le> y) (em_TransactionBatchExecutedEvents E)), w)"
proof -
  let ?c = "listed_contract sample_answer E :: nat bind_contract"
  let ?opts = "\<lparr>opts_Start = x, opts_End = Some y\<rparr>"
  have c: "NewPeggyFilterer (en_bind n) a p = Inr ?c" for a p
    by (simp add: assms(1) sample_bindings_def NewPeggyFilterer_def bindPeggy_def)
  have logs: "ct_FilterLogs ?c ?opts name rules (outside w) =
      (Inr (channel (filter (\<lambda>lg. height_in ?opts (log_BlockNumber lg)) (emitted_logs E name)) None [],
        \<lparr>Unsubscribe = (\<lambda>s. s)\<rparr>), outside w)" for name rules
    by (simp add: listed_contract_def)
  have h: "height_in ?opts h \<longleftrightarrow> x \<le> h \<and> h \<le> y" for h
    by (simp add: height_in_def)
  show "GetSendToCosmosEvents n x y w = (Ok (filter (\<lambda>ev. x \<le> sc_BlockNumber ev \<and> sc_BlockNumber ev \<le> y) (em_SendToCosmosEvents E)), w)"
    using getters_channel(1) [OF c logs] by (simp add: listed_events flip: h)
  show "GetSendToInjectiveEvents n x y w = (Ok (filter (\<lambda>ev. x \<le> si_BlockNumber ev \<and> si_BlockNumber ev \<le> y) (em_SendToInjectiveEvents E)), w)"
    using getters_channel(2) [OF c logs] by (simp add: listed_events flip: h)
  show "GetPeggyERC20DeployedEvents n x y w = (Ok (filter (\<lambda>ev. x \<le> ed_BlockNumber ev \<and> ed_BlockNumber ev \<le> y) (em_ERC20DeployedEvents E)), w)"
    using getters_channel(3) [OF c logs] by (simp add: listed_events flip: h)
  show "GetValsetUpdatedEvents n x y w = (Ok (filter (\<lambda>ev. x \<le> vu_BlockNumber ev \<and> vu_BlockNumber ev \<le> y) (em_ValsetUpdatedEvents E)), w)"
    using getters_channel(4) [OF c logs] by (simp add: listed_events flip: h)
  show "GetTransactionBatchExecutedEvents n x y w = (Ok (filter (\<lambda>ev. x \<le> be_BlockNumber ev \<and> be_BlockNumber ev \<le> y) (em_TransactionBatchExecutedEvents E)), w)"
    using getters_channel(5) [OF c logs] by (simp add: listed_events flip: h)
qed
text \<open>A node that breaks off every subscription after its logs were sent once, while it holds them again.\<close>

definition broken_bindings :: "nat bindings" where
  "broken_bindings = (sample_bindings sample_emitted)\<lparr>NewBoundContract := (\<lambda>_ _ _.
     (listed_contract sample_answer sample_emitted)\<lparr>ct_FilterLogs := (\<lambda>_ name _ k.
        (Inr (channel (emitted_logs sample_emitted name) (Some (ErrorNew ''broken'')) (emitted_logs sample_emitted name),
              \<lparr>Unsubscribe = Suc\<rparr>), k))\<rparr>)\<rparr>"

theorem event_getters_return_witness:
  "GetSendToCosmosEvents (sample_eth\<lparr>en_bind := broken_bindings\<rparr>) 10 90 (sample_world 0) =
     (Ok [sample_deposit], (sample_world 0)\<lparr>outside := 1\<rparr>)"
proof -
  let ?c = "(listed_contract sample_answer sample_emitted)\<lparr>ct_FilterLogs := (\<lambda>_ name _ k.
     (Inr (channel (emitted_logs sample_emitted name) (Some (ErrorNew ''broken'')) (emitted_logs sample_emitted name),
           \<lparr>Unsubscribe = Suc\<rparr>), k))\<rparr> :: nat bind_contract"
  have "NewPeggyFilterer (en_bind (sample_eth\<lparr>en_bind := broken_bindings\<rparr>)) a p = Inr ?c" for a p
    by (simp add: broken_bindings_def sample_bindings_def NewPeggyFilterer_def bindPeggy_def)
  from event_getters_return [OF this, of 10 90 "sample_world 0"]
  have "GetSendToCosmosEvents (sample_eth\<lparr>en_bind := broken_bindings\<rparr>) 10 90 (sample_world 0) =
    (Ok (parsed (map (ParseSendToCosmosEvent ?c) (emitted_logs sample_emitted ''SendToCosmosEvent''))),
     (sample_world 0)\<lparr>outside := 1\<rparr>)" by (simp add: sample_world_def)
  moreover have "parsed (map (ParseSendToCosmosEvent ?c) (emitted_logs sample_emitted ''SendToCosmosEvent'')) = [sample_deposit]"
    by (simp add: emitted_logs_names ParseSendToCosmosEvent_def parse_log_def listed_logs_def listed_contract_def
        listed_unpack_def kind_defs sample_emitted_def sample_deposit_def)
  ultimately show ?thesis by simp
qed

end
