(* ===== verification/Loops.thy ===== *)
theory Loops
  imports Prelude
begin

text \<open>
  \<open>orchestrator/loops\<close>: \<open>RunLoop\<close>, the periodic loop of every process of the orchestrator, and
  \<open>ParanoidGroup\<close>, which runs functions in goroutines and waits for them.

  \<open>RunLoop\<close> is driven by the sequence of choices its \<open>select\<close> makes; it is still running
  (\<open>Diverge\<close>) when the sequence is used up. \<open>ParanoidGroup\<close> is a step relation: one rule per
  atomic action of a task, of the goroutine that closes the channel, and of \<open>Wait\<close>.
\<close>

section \<open>\<open>RunLoop\<close>\<close>

datatype select_case = TimerFired | CtxDone

definition panicRecover :: "goerr \<Rightarrow> goerr" where
  "panicRecover r = (case r of PanicValue v \<Rightarrow> ErrorNew (''loop panic: '' @ v) | e \<Rightarrow> e)"

text \<open>
  The result, the delays the timer was reset to, and the world. \<open>clock\<close> reads the time before and
  after an iteration.
\<close>

fun RunLoop ::
  "('w \<Rightarrow> int \<times> 'w) \<Rightarrow> int \<Rightarrow> ('w, unit) io \<Rightarrow> select_case list \<Rightarrow> 'w \<Rightarrow> unit res \<times> int list \<times> 'w" where
  "RunLoop clock interval fn [] w = (Diverge, [], w)"
| "RunLoop clock interval fn (CtxDone # cs) w = (Ok (), [], w)"
| "RunLoop clock interval fn (TimerFired # cs) w =
     (case clock w of (start, w1) \<Rightarrow> (case fn w1 of
        (Ok _, w2) \<Rightarrow> (case clock w2 of (t, w3) \<Rightarrow>
          (let elapsed = t - start;
               delay = (if elapsed \<ge> interval then interval else interval - elapsed)
           in (case RunLoop clock interval fn cs w3 of (r, ds, w') \<Rightarrow> (r, delay # ds, w'))))
      | (Err e, w2) \<Rightarrow> (if e = ErrGracefulStop then (Ok (), [], w2) else (Err e, [], w2))
      | (Panic e, w2) \<Rightarrow> (Err (panicRecover e), [], w2)
      | (Exit, w2) \<Rightarrow> (Exit, [], w2)
      | (Diverge, w2) \<Rightarrow> (Diverge, [], w2)))"

text \<open>The iterations of the loop one after the other, as a reference: what the process body did.\<close>

fun iterations :: "('w \<Rightarrow> int \<times> 'w) \<Rightarrow> ('w, unit) io \<Rightarrow> nat \<Rightarrow> 'w \<Rightarrow> unit res \<times> 'w" where
  "iterations clock fn 0 w = (Ok (), w)"
| "iterations clock fn (Suc n) w =
     (case fn (snd (clock w)) of
        (Ok _, w2) \<Rightarrow> iterations clock fn n (snd (clock w2))
      | (r, w2) \<Rightarrow> (r, w2))"

lemma RunLoop_iterations:
  "fst (RunLoop clock interval fn (replicate n TimerFired @ cs) w) =
     (case iterations clock fn n w of
        (Ok _, w') \<Rightarrow> fst (RunLoop clock interval fn cs w')
      | (Err e, _) \<Rightarrow> if e = ErrGracefulStop then Ok () else Err e
      | (Panic e, _) \<Rightarrow> Err (panicRecover e)
      | (Exit, _) \<Rightarrow> Exit
      | (Diverge, _) \<Rightarrow> Diverge)"
  by (induction n arbitrary: w) (auto simp: Let_def case_prod_beta split: res.splits)

text \<open>C29. The loop runs its function once per tick and stops for three reasons only: the context is
  done (no error), the function asks for a graceful stop (no error), or an iteration fails. An
  error is handed on unchanged and a panic becomes an error, so no panic leaves the loop's own
  goroutine.\<close>

theorem RunLoop_stops:
  "fst (RunLoop clock interval fn (replicate n TimerFired @ [CtxDone]) w) =
     (case fst (iterations clock fn n w) of
        Ok _ \<Rightarrow> Ok ()
      | Err e \<Rightarrow> if e = ErrGracefulStop then Ok () else Err e
      | Panic e \<Rightarrow> Err (panicRecover e)
      | Exit \<Rightarrow> Exit
      | Diverge \<Rightarrow> Diverge)"
  by (simp add: RunLoop_iterations case_prod_beta split: res.splits prod.splits)

text \<open>Every pause between two iterations is positive and at most the interval, on a clock that
  does not run backwards; after an iteration that took longer than the interval it is the whole
  interval.\<close>

theorem RunLoop_delays:
  assumes "0 < interval"
    and "\<And>w1 r w2. fn w1 = (r, w2) \<Longrightarrow> time w1 \<le> time w2"
    and "\<And>w. clock w = (time w, w)"
  shows "\<forall>d \<in> set (fst (snd (RunLoop clock interval fn cs w))). 0 < d \<and> d \<le> interval \<and>
    (\<exists>w1. let elapsed = time (snd (fn w1)) - time w1
          in d = (if elapsed \<ge> interval then interval else interval - elapsed))"
proof -
  define elapsed where "elapsed w1 = time (snd (fn w1)) - time w1" for w1
  define delay where "delay w1 = (if elapsed w1 \<ge> interval then interval else interval - elapsed w1)" for w1
  have "0 \<le> elapsed w1" for w1 using assms(2) [of w1] unfolding elapsed_def by (metis diff_ge_0_iff_ge prod.collapse)
  then have "0 < delay w1 \<and> delay w1 \<le> interval" for w1 using assms(1) by (simp add: delay_def)
  moreover have "set (fst (snd (RunLoop clock interval fn cs w))) \<subseteq> range delay"
  proof (induction cs arbitrary: w)
    case (Cons c cs)
    show ?case
    proof (cases "c = TimerFired \<and> (\<exists>u. fst (fn w) = Ok u)")
      case True
      then have "fst (snd (RunLoop clock interval fn (c # cs) w)) =
          delay w # fst (snd (RunLoop clock interval fn cs (snd (fn w))))"
        by (auto simp: assms(3) delay_def elapsed_def Let_def case_prod_beta split: res.splits)
      with Cons.IH show ?thesis by simp
    next
      case False
      then show ?thesis
        by (cases c) (auto simp: assms(3) case_prod_beta split: res.splits)
    qed
  qed simp
  ultimately have "0 < d \<and> d \<le> interval \<and> (\<exists>w1. d = delay w1)"
    if "d \<in> set (fst (snd (RunLoop clock interval fn cs w)))" for d using that by auto
  then show ?thesis unfolding delay_def elapsed_def Let_def by blast
qed

theorem RunLoop_delays_witness:
  "fst (snd (RunLoop (\<lambda>t::int. (t, t)) 60 (\<lambda>t. (Ok (), t + 45)) [TimerFired, TimerFired] 0)) = [15, 15] \<and>
   (0::int) < 15 \<and> (15::int) \<le> 60"
  using RunLoop_delays [of 60 "\<lambda>t. (Ok (), t + 45)" "\<lambda>t. t" "\<lambda>t. (t, t)" "[TimerFired, TimerFired]" 0]
  by simp

section \<open>\<open>ParanoidGroup\<close>\<close>

text \<open>
  A task is a function handed to \<open>Go\<close>: what it returns (\<open>tk_returns\<close> is false for one that runs
  forever), and how far its goroutine is. The error channel has a buffer of ten.
\<close>

datatype task_status = Working | Sending | Leaving | Finished

record task =
  tk_returns :: bool
  tk_result :: "goerr option"
  tk_status :: task_status

datatype wait_status = NotWaiting | Polling "goerr list" | Returned "goerr list option"

record ParanoidGroup =
  wg :: "nat option"
  errCh :: "goerr list"
  closed :: bool
  closer :: bool
  tasks :: "task list"
  waiter :: wait_status

definition new_group :: ParanoidGroup where
  "new_group = \<lparr>wg = None, errCh = [], closed = False, closer = False, tasks = [],
     waiter = NotWaiting\<rparr>"

definition Initialized :: "ParanoidGroup \<Rightarrow> bool" where
  "Initialized p \<longleftrightarrow> wg p \<noteq> None"

text \<open>\<open>Go(fn)\<close>: the first call creates the wait group, every call adds one to it.\<close>

definition pg_Go :: "bool \<Rightarrow> goerr option \<Rightarrow> ParanoidGroup \<Rightarrow> ParanoidGroup" where
  "pg_Go returns r p =
     (let p1 = (case wg p of None \<Rightarrow> p\<lparr>wg := Some 1, errCh := []\<rparr>
                           | Some n \<Rightarrow> p\<lparr>wg := Some (Suc n)\<rparr>)
      in p1\<lparr>tasks := tasks p1 @ [\<lparr>tk_returns = returns, tk_result = r, tk_status = Working\<rparr>]\<rparr>)"

definition set_status :: "nat \<Rightarrow> task_status \<Rightarrow> ParanoidGroup \<Rightarrow> ParanoidGroup" where
  "set_status i s p = p\<lparr>tasks := (tasks p)[i := (tasks p ! i)\<lparr>tk_status := s\<rparr>]\<rparr>"

inductive pg_step :: "ParanoidGroup \<Rightarrow> ParanoidGroup \<Rightarrow> bool" where
  task_ok: "i < length (tasks p) \<Longrightarrow> tk_status (tasks p ! i) = Working \<Longrightarrow> tk_returns (tasks p ! i) \<Longrightarrow>
     tk_result (tasks p ! i) = None \<Longrightarrow> pg_step p (set_status i Leaving p)"
| task_err: "i < length (tasks p) \<Longrightarrow> tk_status (tasks p ! i) = Working \<Longrightarrow> tk_returns (tasks p ! i) \<Longrightarrow>
     tk_result (tasks p ! i) \<noteq> None \<Longrightarrow> pg_step p (set_status i Sending p)"
| task_send: "i < length (tasks p) \<Longrightarrow> tk_status (tasks p ! i) = Sending \<Longrightarrow>
     tk_result (tasks p ! i) = Some e \<Longrightarrow> length (errCh p) < 10 \<Longrightarrow> \<not> closed p \<Longrightarrow>
     pg_step p (set_status i Leaving p\<lparr>errCh := errCh p @ [e]\<rparr>)"
| task_done: "i < length (tasks p) \<Longrightarrow> tk_status (tasks p ! i) = Leaving \<Longrightarrow> wg p = Some (Suc n) \<Longrightarrow>
     pg_step p (set_status i Finished p\<lparr>wg := Some n\<rparr>)"
| wait_call: "waiter p = NotWaiting \<Longrightarrow> Initialized p \<Longrightarrow>
     pg_step p (p\<lparr>closer := True, waiter := Polling []\<rparr>)"
| close_chan: "closer p \<Longrightarrow> wg p = Some 0 \<Longrightarrow> \<not> closed p \<Longrightarrow> pg_step p (p\<lparr>closed := True\<rparr>)"
| wait_recv: "waiter p = Polling es \<Longrightarrow> errCh p = e # r \<Longrightarrow>
     pg_step p (p\<lparr>errCh := r, waiter := Polling (es @ [e])\<rparr>)"
| wait_closed: "waiter p = Polling es \<Longrightarrow> errCh p = [] \<Longrightarrow> closed p \<Longrightarrow>
     pg_step p (p\<lparr>waiter := Returned None\<rparr>)"
| wait_default: "waiter p = Polling es \<Longrightarrow> errCh p = [] \<Longrightarrow> \<not> closed p \<Longrightarrow> es \<noteq> [] \<Longrightarrow>
     pg_step p (p\<lparr>waiter := Returned (Some es)\<rparr>)"
| wait_sleep: "waiter p = Polling [] \<Longrightarrow> errCh p = [] \<Longrightarrow> \<not> closed p \<Longrightarrow> pg_step p p"

text \<open>The group as the callers set it up: every \<open>Go\<close> before \<open>Wait\<close>.\<close>

fun group_of :: "(bool \<times> goerr option) list \<Rightarrow> ParanoidGroup \<Rightarrow> ParanoidGroup" where
  "group_of [] p = p"
| "group_of ((returns, r) # ts) p = group_of ts (pg_Go returns r p)"

inductive pg_reachable :: "(bool \<times> goerr option) list \<Rightarrow> ParanoidGroup \<Rightarrow> bool" for ts where
  pg_start: "pg_reachable ts (group_of ts new_group)"
| pg_next: "pg_reachable ts p \<Longrightarrow> pg_step p p' \<Longrightarrow> pg_reachable ts p'"

subsection \<open>The invariant\<close>

fun collected :: "wait_status \<Rightarrow> goerr list" where
  "collected NotWaiting = []"
| "collected (Polling es) = es"
| "collected (Returned None) = []"
| "collected (Returned (Some es)) = es"

definition unfinished :: "task list \<Rightarrow> nat" where
  "unfinished ts = length (filter (\<lambda>t. tk_status t \<noteq> Finished) ts)"

text \<open>
  The wait group counts the tasks that have not finished; the channel is closed only when all
  have; every error in the channel or collected so far is one a task returned.
\<close>

definition pg_inv :: "(bool \<times> goerr option) list \<Rightarrow> ParanoidGroup \<Rightarrow> bool" where
  "pg_inv ts p \<longleftrightarrow>
     map (\<lambda>t. (tk_returns t, tk_result t)) (tasks p) = ts \<and>
     (ts \<noteq> [] \<longrightarrow> wg p = Some (unfinished (tasks p))) \<and>
     (\<forall>t \<in> set (tasks p). tk_status t \<noteq> Working \<longrightarrow> tk_returns t) \<and>
     (\<forall>t \<in> set (tasks p). tk_status t = Sending \<longrightarrow> tk_result t \<noteq> None) \<and>
     (closed p \<longrightarrow> unfinished (tasks p) = 0) \<and>
     (waiter p \<noteq> NotWaiting \<longrightarrow> closer p) \<and>
     (\<forall>e \<in> set (errCh p) \<union> set (collected (waiter p)). (True, Some e) \<in> set ts) \<and>
     (\<forall>es. waiter p = Returned (Some es) \<longrightarrow> es \<noteq> []) \<and>
     (waiter p = Returned None \<longrightarrow> closed p)"

lemma unfinished_0: "unfinished ts = 0 \<longleftrightarrow> (\<forall>t \<in> set ts. tk_status t = Finished)"
  by (auto simp: unfinished_def filter_empty_conv)

lemma unfinished_update:
  assumes "i < length ts" "tk_status (ts ! i) \<noteq> Finished"
  shows "unfinished (ts[i := t]) = (if tk_status t = Finished then unfinished ts - 1 else unfinished ts)"
  using assms
proof (induction ts arbitrary: i)
  case (Cons u us)
  show ?case
  proof (cases i)
    case (Suc j)
    have "us ! j \<in> set us" "tk_status (us ! j) \<noteq> Finished" using Cons.prems Suc by auto
    then have "unfinished us \<noteq> 0" by (auto simp: unfinished_0)
    with Cons Suc show ?thesis by (auto simp: unfinished_def)
  qed (use Cons.prems in \<open>simp add: unfinished_def\<close>)
qed simp

lemma set_status_tasks:
  assumes "i < length (tasks p)"
  shows "map (\<lambda>t. (tk_returns t, tk_result t)) (tasks (set_status i st p)) =
      map (\<lambda>t. (tk_returns t, tk_result t)) (tasks p)"
  using assms by (simp add: set_status_def map_update)
    (metis (no_types, lifting) list_update_id nth_map)

lemma set_status_simps [simp]:
  "wg (set_status i st p) = wg p" "errCh (set_status i st p) = errCh p"
  "closed (set_status i st p) = closed p" "closer (set_status i st p) = closer p"
  "waiter (set_status i st p) = waiter p"
  by (simp_all add: set_status_def)

lemma set_status_memb:
  assumes "t \<in> set (tasks (set_status i st p))" "i < length (tasks p)"
  shows "t \<in> set (tasks p) \<or> t = (tasks p ! i)\<lparr>tk_status := st\<rparr>"
  using assms set_update_subset_insert by (fastforce simp: set_status_def)

lemma unfinished_set_status:
  "i < length (tasks p) \<Longrightarrow> tk_status (tasks p ! i) \<noteq> Finished \<Longrightarrow>
   unfinished (tasks (set_status i st p)) =
     (if st = Finished then unfinished (tasks p) - 1 else unfinished (tasks p))"
  by (simp add: set_status_def unfinished_update)

text \<open>A task that moves on keeps what the invariant says of the tasks.\<close>

lemma pg_inv_set_status:
  assumes inv: "pg_inv ts p" and i: "i < length (tasks p)"
    and st: "tk_returns (tasks p ! i)" "st = Sending \<Longrightarrow> tk_result (tasks p ! i) \<noteq> None"
    and open_: "\<not> closed p"
    and g: "g = Some (unfinished (tasks (set_status i st p)))"
  shows "pg_inv ts (set_status i st p\<lparr>wg := g\<rparr>)"
proof -
  have "\<forall>t \<in> set (tasks (set_status i st p)). tk_status t \<noteq> Working \<longrightarrow> tk_returns t"
    "\<forall>t \<in> set (tasks (set_status i st p)). tk_status t = Sending \<longrightarrow> tk_result t \<noteq> None"
    using inv st set_status_memb [OF _ i] unfolding pg_inv_def by fastforce+
  with assms set_status_tasks [OF i, of st] show ?thesis by (simp add: pg_inv_def)
qed

lemma pg_wg:
  assumes "pg_inv ts p" "i < length (tasks p)"
  shows "wg p = Some (unfinished (tasks p))"
  using assms by (auto simp: pg_inv_def)

text \<open>The same for a step that leaves the counter alone.\<close>

lemma pg_inv_move:
  assumes "pg_inv ts p" "i < length (tasks p)" "tk_status (tasks p ! i) \<noteq> Finished" "st \<noteq> Finished"
    and "tk_returns (tasks p ! i)" "st = Sending \<Longrightarrow> tk_result (tasks p ! i) \<noteq> None"
  shows "pg_inv ts (set_status i st p)"
proof -
  have "\<not> closed p" using assms by (auto simp: pg_inv_def unfinished_0)
  then have "pg_inv ts (set_status i st p\<lparr>wg := wg p\<rparr>)"
    using assms by (intro pg_inv_set_status) (auto simp: unfinished_set_status pg_wg)
  then show ?thesis by (simp add: set_status_def)
qed

lemma pg_task_mem:
  assumes "pg_inv ts p" "i < length (tasks p)"
  shows "(tk_returns (tasks p ! i), tk_result (tasks p ! i)) \<in> set ts"
  using assms by (force simp: pg_inv_def)

lemma pg_not_closed:
  assumes "pg_inv ts p" "i < length (tasks p)" "tk_status (tasks p ! i) \<noteq> Finished"
  shows "\<not> closed p"
  using assms by (auto simp: pg_inv_def unfinished_0)

lemma pg_inv_step:
  assumes "pg_step p p'" "pg_inv ts p"
  shows "pg_inv ts p'"
  using assms
proof (induction rule: pg_step.induct)
  case (task_ok i p)
  then show ?case by (intro pg_inv_move) auto
next
  case (task_err i p)
  then show ?case by (intro pg_inv_move) auto
next
  case (task_send i p e)
  have ret: "tk_returns (tasks p ! i)" using task_send by (auto simp: pg_inv_def)
  with pg_task_mem [OF task_send.prems task_send.hyps(1)] task_send.hyps(3)
  have "(True, Some e) \<in> set ts" by simp
  moreover have "pg_inv ts (set_status i Leaving p)"
    using task_send ret by (intro pg_inv_move) auto
  ultimately show ?case by (auto simp: pg_inv_def)
next
  case (task_done i p n)
  have "tk_returns (tasks p ! i)" using task_done by (auto simp: pg_inv_def)
  moreover have "Some n = Some (unfinished (tasks (set_status i Finished p)))"
    using task_done pg_wg [of ts p i] by (simp add: unfinished_set_status)
  ultimately show ?case
    using task_done pg_not_closed [of ts p i] by (intro pg_inv_set_status) auto
next
  case (close_chan p)
  then show ?case by (cases "ts = []") (auto simp: pg_inv_def unfinished_def)
qed (auto simp: pg_inv_def Initialized_def)

lemma group_of_state:
  "tasks (group_of ts p) = tasks p @
     map (\<lambda>(b, r). \<lparr>tk_returns = b, tk_result = r, tk_status = Working\<rparr>) ts"
  "closed (group_of ts p) = closed p" "closer (group_of ts p) = closer p"
  "waiter (group_of ts p) = waiter p" "errCh p = [] \<Longrightarrow> errCh (group_of ts p) = []"
  "wg (group_of ts p) = (if ts = [] then wg p
     else Some (length ts + (case wg p of None \<Rightarrow> 0 | Some n \<Rightarrow> n)))"
  by (induction ts p rule: group_of.induct) (auto simp: pg_Go_def split: option.splits)

lemma pg_inv_reachable: "pg_reachable ts p \<Longrightarrow> pg_inv ts p"
proof (induction rule: pg_reachable.induct)
  case pg_start
  have "unfinished (map (\<lambda>(b, r). \<lparr>tk_returns = b, tk_result = r, tk_status = Working\<rparr>) ts) = length ts"
    by (induction ts) (auto simp: unfinished_def)
  then show ?case
    by (auto simp: pg_inv_def group_of_state new_group_def comp_def case_prod_beta)
next
  case (pg_next p p')
  then show ?case by (blast intro: pg_inv_step)
qed

subsection \<open>What \<open>Wait\<close> reports\<close>

text \<open>C30. When \<open>Wait\<close> returns an error, the list of errors it carries is not empty and each of them
  was returned by one of the tasks; when it returns nil, every task has returned.\<close>

theorem pg_Wait_sound:
  assumes "pg_reachable ts p" "waiter p = Returned r"
  shows "case r of
      Some es \<Rightarrow> es \<noteq> [] \<and> (\<forall>e \<in> set es. (True, Some e) \<in> set ts)
    | None \<Rightarrow> (\<forall>t \<in> set ts. fst t)"
proof (cases r)
  case None
  then have "\<forall>t \<in> set (tasks p). tk_returns t" "map (\<lambda>t. (tk_returns t, tk_result t)) (tasks p) = ts"
    using pg_inv_reachable [OF assms(1)] assms(2) by (auto simp: pg_inv_def unfinished_0)
  then show ?thesis using None by auto
next
  case (Some es)
  then show ?thesis using pg_inv_reachable [OF assms(1)] assms(2) by (auto simp: pg_inv_def)
qed


text \<open>The state after the calls of \<open>Go\<close> and a run of the group, for concrete runs.\<close>

lemma pg_run_step: "pg_reachable ts p \<Longrightarrow> pg_step p q \<Longrightarrow> q = q' \<Longrightarrow> pg_reachable ts q'"
  by (auto intro: pg_next)

text \<open>One failing task up to the point where its error is in the channel and \<open>Wait\<close> is polling.\<close>

definition failing_task :: "goerr \<Rightarrow> task_status \<Rightarrow> task" where
  "failing_task e st = \<lparr>tk_returns = True, tk_result = Some e, tk_status = st\<rparr>"

lemma pg_one_failing_task:
  "pg_reachable [(True, Some e)] \<lparr>wg = Some 1, errCh = [e], closed = False, closer = True,
     tasks = [failing_task e Leaving], waiter = Polling []\<rparr>"
proof -
  let ?p = "\<lambda>st ch w cl. \<lparr>wg = Some 1, errCh = ch, closed = False, closer = cl,
     tasks = [failing_task e st], waiter = w\<rparr>"
  have "pg_reachable [(True, Some e)] (group_of [(True, Some e)] new_group)" by (rule pg_start)
  then have "pg_reachable [(True, Some e)] (?p Working [] NotWaiting False)"
    by (simp add: pg_Go_def new_group_def failing_task_def)
  then have "pg_reachable [(True, Some e)] (?p Working [] (Polling []) True)"
    by (rule pg_run_step [OF _ wait_call]) (simp_all add: Initialized_def)
  then have "pg_reachable [(True, Some e)] (?p Sending [] (Polling []) True)"
    by (rule pg_run_step [OF _ task_err [where i = 0]]) (simp_all add: failing_task_def set_status_def)
  then show ?thesis
    by (rule pg_run_step [OF _ task_send [where i = 0 and e = e]])
      (simp_all add: failing_task_def set_status_def)
qed

text \<open>C32. \<open>Wait\<close> can lose errors: with a single task that returns an error, both results are reachable.
  If the channel is still open at the poll after the error was received, \<open>Wait\<close> returns it; if the
  channel has been closed in between, \<open>Wait\<close> returns nil although the only task failed.\<close>

theorem pg_Wait_may_lose_error:
  "(\<exists>p. pg_reachable [(True, Some e)] p \<and> waiter p = Returned (Some [e])) \<and>
   (\<exists>p. pg_reachable [(True, Some e)] p \<and> waiter p = Returned None)"
proof (intro conjI)
  let ?p = "\<lambda>n ch w cl st. \<lparr>wg = Some n, errCh = ch, closed = cl, closer = True,
     tasks = [failing_task e st], waiter = w\<rparr>"
  have recv: "pg_reachable [(True, Some e)] (?p 1 [] (Polling [e]) False Leaving)"
    by (rule pg_run_step [OF pg_one_failing_task wait_recv]) simp_all
  then have "pg_reachable [(True, Some e)] (?p 1 [] (Returned (Some [e])) False Leaving)"
    by (rule pg_run_step [OF _ wait_default]) simp_all
  then show "\<exists>p. pg_reachable [(True, Some e)] p \<and> waiter p = Returned (Some [e])" by force
  from recv have "pg_reachable [(True, Some e)] (?p 0 [] (Polling [e]) False Finished)"
    by (rule pg_run_step [OF _ task_done [where i = 0 and n = 0]])
      (simp_all add: failing_task_def set_status_def)
  then have "pg_reachable [(True, Some e)] (?p 0 [] (Polling [e]) True Finished)"
    by (rule pg_run_step [OF _ close_chan]) simp_all
  then have "pg_reachable [(True, Some e)] (?p 0 [] (Returned None) True Finished)"
    by (rule pg_run_step [OF _ wait_closed]) simp_all
  then show "\<exists>p. pg_reachable [(True, Some e)] p \<and> waiter p = Returned None" by force
qed

theorem pg_Wait_sound_witness:
  "\<exists>p. pg_reachable [(True, None)] p \<and> waiter p = Returned None \<and> (\<forall>t \<in> set [(True, None :: goerr option)]. fst t)"
proof -
  let ?p = "\<lambda>n w cl st b. \<lparr>wg = Some n, errCh = [], closed = cl, closer = b,
     tasks = [\<lparr>tk_returns = True, tk_result = None, tk_status = st\<rparr>], waiter = w\<rparr>"
  have "pg_reachable [(True, None)] (group_of [(True, None)] new_group)" by (rule pg_start)
  then have "pg_reachable [(True, None)] (?p 1 NotWaiting False Working False)"
    by (simp add: pg_Go_def new_group_def)
  then have "pg_reachable [(True, None)] (?p 1 (Polling []) False Working True)"
    by (rule pg_run_step [OF _ wait_call]) (simp_all add: Initialized_def)
  then have "pg_reachable [(True, None)] (?p 1 (Polling []) False Leaving True)"
    by (rule pg_run_step [OF _ task_ok [where i = 0]]) (simp_all add: set_status_def)
  then have "pg_reachable [(True, None)] (?p 0 (Polling []) False Finished True)"
    by (rule pg_run_step [OF _ task_done [where i = 0 and n = 0]]) (simp_all add: set_status_def)
  then have "pg_reachable [(True, None)] (?p 0 (Polling []) True Finished True)"
    by (rule pg_run_step [OF _ close_chan]) simp_all
  then have r: "pg_reachable [(True, None)] (?p 0 (Returned None) True Finished True)"
    by (rule pg_run_step [OF _ wait_closed]) simp_all
  from pg_Wait_sound [OF this, of None] r show ?thesis by force
qed


end
