(* ===== verification/OrchestratorCore.thy ===== *)
theory OrchestratorCore
  imports EthNetwork Loops
begin

text \<open>
  The parts of \<open>orchestrator/orchestrator.go\<close> every loop uses: the configuration, the record of
  dependencies, and \<open>retry\<close>. \<open>retry.Do\<close> is a library function and an argument; \<open>retry_laws\<close> states
  what its documentation promises, and \<open>simple_retry\<close> is an instance that computes.
\<close>

section \<open>Events\<close>

datatype event =
    oldDeposit PeggySendToCosmosEvent
  | deposit PeggySendToInjectiveEvent
  | valsetUpdate PeggyValsetUpdatedEvent
  | withdrawal PeggyTransactionBatchExecutedEvent
  | erc20Deployment PeggyERC20DeployedEvent

fun Nonce :: "event \<Rightarrow> u64" where
  "Nonce (oldDeposit o1) = big_Uint64 (sc_EventNonce o1)"
| "Nonce (deposit o1) = big_Uint64 (si_EventNonce o1)"
| "Nonce (valsetUpdate o1) = big_Uint64 (vu_EventNonce o1)"
| "Nonce (withdrawal o1) = big_Uint64 (be_EventNonce o1)"
| "Nonce (erc20Deployment o1) = big_Uint64 (ed_EventNonce o1)"

section \<open>The orchestrator\<close>

definition defaultLoopDur :: int where
  "defaultLoopDur = 60 * 1000000000"

record Config =
  CosmosAddr :: AccAddress
  EthereumAddr :: address
  MinBatchFeeUSD :: rat
  ERC20ContractMapping :: "address \<rightharpoonup> string"
  RelayValsetOffsetDur :: int
  RelayBatchOffsetDur :: int
  RelayValsets :: bool
  RelayBatches :: bool
  RelayerMode :: bool

text \<open>
  The closures handed to \<open>retry\<close> assign to a variable of the enclosing function and return an
  error or nil. The value the variable has after a call that returned nil is the one the
  closure's last run assigned, so a closure is a computation of that value. The variables have
  different types, hence the union.
\<close>

datatype captured =
    NoVar
  | HeightVar u64
  | EventsVar "event list"
  | ClaimVar "LastClaimEvent option"
  | ValsetVar Valset
  | ValsetsVar "Valset list"
  | BatchVar "OutgoingTxBatch option"
  | FeesVar "BatchFees list"

record 'e Orchestrator =
  cfg :: Config
  maxAttempts :: nat
  injective :: "'e Network"
  ethereum :: "'e eth_Network"
  priceFeed :: "address \<Rightarrow> ('e world, rat) io"
  o_geth :: geth_lib
  o_sdk :: sdk_lib
  o_dec :: decimal_lib
  o_now :: "'e \<Rightarrow> int \<times> 'e"
  o_sleep :: "int \<Rightarrow> 'e \<Rightarrow> 'e"
  retry_Do :: "nat \<Rightarrow> ('e world, captured) io \<Rightarrow> ('e world, captured) io"

definition NewOrchestrator ::
  "'e Network \<Rightarrow> 'e eth_Network \<Rightarrow> (address \<Rightarrow> ('e world, rat) io) \<Rightarrow> Config \<Rightarrow> geth_lib \<Rightarrow> sdk_lib \<Rightarrow>
     decimal_lib \<Rightarrow> ('e \<Rightarrow> int \<times> 'e) \<Rightarrow> (int \<Rightarrow> 'e \<Rightarrow> 'e) \<Rightarrow>
     (nat \<Rightarrow> ('e world, captured) io \<Rightarrow> ('e world, captured) io) \<Rightarrow> 'e Orchestrator" where
  "NewOrchestrator injNet eth feed c G L D now sleep retryDo =
     \<lparr>cfg = c, maxAttempts = 10, injective = injNet, ethereum = eth, priceFeed = feed, o_geth = G,
      o_sdk = L, o_dec = D, o_now = now, o_sleep = sleep, retry_Do = retryDo\<rparr>"

definition retry :: "'e Orchestrator \<Rightarrow> ('e world, captured) io \<Rightarrow> ('e world, captured) io" where
  "retry s fn = retry_Do s (maxAttempts s) fn"

definition sleep :: "'e Orchestrator \<Rightarrow> int \<Rightarrow> ('e world, unit) io" where
  "sleep s d = (\<lambda>w. (Ok (), w\<lparr>outside := o_sleep s d (outside w)\<rparr>))"

text \<open>Reading back the variable. The other cases do not occur: see \<open>retry_laws\<close>.\<close>

fun as_height :: "captured \<Rightarrow> u64" where
  "as_height (HeightVar h) = h"
| "as_height _ = 0"

fun as_events :: "captured \<Rightarrow> event list" where
  "as_events (EventsVar es) = es"
| "as_events _ = []"

fun as_claim :: "captured \<Rightarrow> LastClaimEvent option" where
  "as_claim (ClaimVar c) = c"
| "as_claim _ = None"

fun as_valset :: "captured \<Rightarrow> Valset option" where
  "as_valset (ValsetVar v) = Some v"
| "as_valset _ = None"

fun as_valsets :: "captured \<Rightarrow> Valset list" where
  "as_valsets (ValsetsVar vs) = vs"
| "as_valsets _ = []"

fun as_batch :: "captured \<Rightarrow> OutgoingTxBatch option" where
  "as_batch (BatchVar b) = b"
| "as_batch _ = None"

fun as_fees :: "captured \<Rightarrow> BatchFees list" where
  "as_fees (FeesVar fs) = fs"
| "as_fees _ = []"

definition capture :: "('a \<Rightarrow> captured) \<Rightarrow> ('w, 'a) io \<Rightarrow> ('w, captured) io" where
  "capture var m = bindE m (\<lambda>x. ret (var x))"

lemma capture_simp [io_simps]: "capture var m w = (case m w of
      (Ok x, w') \<Rightarrow> (Ok (var x), w') | (Err e, w') \<Rightarrow> (Err e, w') | (Panic e, w') \<Rightarrow> (Panic e, w')
    | (Exit, w') \<Rightarrow> (Exit, w') | (Diverge, w') \<Rightarrow> (Diverge, w'))"
  by (simp add: capture_def io_simps split: prod.splits res.splits)

section \<open>The contract of \<open>retry.Do\<close>\<close>

text \<open>
  At most \<open>n\<close> runs one after the other, with pauses that touch nothing of the process, until one
  succeeds; it may stop early with an error when the context is done, and a panic is not caught. \<open>E\<close> is
  how the outside may change during a pause: in any way, unless something is known of the two chains.
\<close>

definition pause_in :: "('e \<Rightarrow> 'e \<Rightarrow> bool) \<Rightarrow> 'e world \<Rightarrow> 'e world \<Rightarrow> bool" where
  "pause_in E w w' \<longleftrightarrow> (\<exists>o'. E (outside w) o' \<and> w' = w\<lparr>outside := o'\<rparr>)"

abbreviation pause :: "'e world \<Rightarrow> 'e world \<Rightarrow> bool" where
  "pause \<equiv> pause_in (\<lambda>_ _. True)"

inductive retry_run ::
  "('e \<Rightarrow> 'e \<Rightarrow> bool) \<Rightarrow> ('e world, 'a) io \<Rightarrow> nat \<Rightarrow> 'e world \<Rightarrow> 'a res \<Rightarrow> 'e world \<Rightarrow> bool"
  for E :: "'e \<Rightarrow> 'e \<Rightarrow> bool" and m :: "('e world, 'a) io" where
  success: "m w = (Ok x, w') \<Longrightarrow> retry_run E m (Suc n) w (Ok x) w'"
| panics: "m w = (Panic e, w') \<Longrightarrow> retry_run E m (Suc n) w (Panic e) w'"
| exits: "m w = (Exit, w') \<Longrightarrow> retry_run E m (Suc n) w Exit w'"
| runs_on: "m w = (Diverge, w') \<Longrightarrow> retry_run E m (Suc n) w Diverge w'"
| again: "m w = (Err e, w1) \<Longrightarrow> pause_in E w1 w2 \<Longrightarrow> retry_run E m n w2 r w' \<Longrightarrow> retry_run E m (Suc n) w r w'"
| gives_up: "pause_in E w w' \<Longrightarrow> retry_run E m n w (Err e) w'"

inductive_cases retry_run_OkE: "retry_run E m n w (Ok x) w'"

definition retry_laws_in ::
  "('e \<Rightarrow> 'e \<Rightarrow> bool) \<Rightarrow> (nat \<Rightarrow> ('e world, captured) io \<Rightarrow> ('e world, captured) io) \<Rightarrow> bool" where
  "retry_laws_in E R \<longleftrightarrow> (\<forall>n m w r w'. R n m w = (r, w') \<longrightarrow> retry_run E m n w r w')"

abbreviation retry_laws :: "(nat \<Rightarrow> ('e world, captured) io \<Rightarrow> ('e world, captured) io) \<Rightarrow> bool" where
  "retry_laws \<equiv> retry_laws_in (\<lambda>_ _. True)"

lemma pause_def: "pause w w' \<longleftrightarrow> (\<exists>o'. w' = w\<lparr>outside := o'\<rparr>)"
  by (simp add: pause_in_def)

lemma pause_any: "pause_in E w w' \<Longrightarrow> pause w w'"
  by (auto simp: pause_in_def)

lemma retry_run_any: "retry_run E m n w r w' \<Longrightarrow> retry_run (\<lambda>_ _. True) m n w r w'"
  by (induction rule: retry_run.induct) (blast intro: retry_run.intros pause_any)+

lemma retry_laws_any: "retry_laws_in E R \<Longrightarrow> retry_laws R"
  unfolding retry_laws_in_def by (blast intro: retry_run_any)

fun simple_retry :: "nat \<Rightarrow> ('e world, captured) io \<Rightarrow> ('e world, captured) io" where
  "simple_retry 0 m w = (Err (ErrorNew ''no attempts''), w)"
| "simple_retry (Suc n) m w = (case m w of
     (Err e, w1) \<Rightarrow> if n = 0 then (Err e, w1) else simple_retry n m w1
   | r \<Rightarrow> r)"

lemma pause_refl: "(\<And>x. E x x) \<Longrightarrow> pause_in E w w"
  by (auto simp: pause_in_def intro: exI [of _ "outside w"])

lemma simple_retry_laws:
  fixes E :: "'e \<Rightarrow> 'e \<Rightarrow> bool"
  assumes "\<And>x. E x x"
  shows "retry_laws_in E simple_retry"
proof -
  note pause_refl = pause_refl [OF assms]
  have "retry_run E m n w r w'" if "simple_retry n m w = (r, w')"
    for n and m :: "('e world, captured) io" and w r w'
    using that
  proof (induction n arbitrary: w)
    case 0
    then show ?case by (auto intro: gives_up pause_refl)
  next
    case (Suc n)
    then show ?case
      by (auto split: prod.splits res.splits if_splits
          intro: retry_run.intros again [OF _ pause_refl gives_up [OF pause_refl]]
            again [OF _ pause_refl Suc.IH])
  qed
  then show ?thesis unfolding retry_laws_in_def by blast
qed

text \<open>What a closure keeps, whatever the pauses do, retrying keeps; and a success is a success of a run.\<close>

lemma retry_run_keeps:
  assumes "retry_run E m n w r w'" "keeps P m" "\<And>w. P w w"
    and trans: "\<And>w w' w''. P w w' \<Longrightarrow> P w' w'' \<Longrightarrow> P w w''"
    and pause: "\<And>w w'. pause_in E w w' \<Longrightarrow> P w w'"
  shows "P w w'"
  using assms(1)
proof induction
  case (again w e w1 w2 n r w')
  then show ?case by (meson assms(2) keepsD pause trans)
qed (auto intro: pause keepsD [OF assms(2)])

lemma retry_run_Ok:
  assumes "retry_run E m n w (Ok x) w'" "keeps P m" "\<And>w. P w w"
    and trans: "\<And>w w' w''. P w w' \<Longrightarrow> P w' w'' \<Longrightarrow> P w w''"
    and pause: "\<And>w w'. pause_in E w w' \<Longrightarrow> P w w'"
  obtains w1 where "P w w1" "m w1 = (Ok x, w')"
proof -
  have "r = Ok x \<Longrightarrow> \<exists>w1. P w w1 \<and> m w1 = (Ok x, w')" if "retry_run E m n w r w'" for r
    using that
  proof induction
    case (again w e w1 w2 n r w')
    then have "P w w2" by (meson assms(2) keepsD pause trans)
    with again show ?case by (meson trans)
  qed (auto intro: assms(3))
  then show thesis using assms(1) that by blast
qed

text \<open>Frames that a pause does not leave.\<close>

locale env_frame = frame P for P :: "'e world \<Rightarrow> 'e world \<Rightarrow> bool" +
  fixes E :: "'e \<Rightarrow> 'e \<Rightarrow> bool"
  assumes P_pause: "pause_in E w w' \<Longrightarrow> P w w'"
begin

lemma keeps_retry:
  assumes "retry_laws_in E (retry_Do s)" "keeps P m"
  shows "keeps P (retry s m)"
proof (rule keepsI)
  fix w r w'
  assume "retry s m w = (r, w')"
  then have "retry_run E m (maxAttempts s) w r w'"
    using assms(1) by (auto simp: retry_def retry_laws_in_def)
  then show "P w w'" by (rule retry_run_keeps [OF _ assms(2) P_refl P_trans P_pause])
qed

lemma retry_success:
  assumes "retry_laws_in E (retry_Do s)" "keeps P m" "retry s m w = (Ok x, w')"
  obtains w1 where "P w w1" "m w1 = (Ok x, w')"
proof -
  have "retry_run E m (maxAttempts s) w (Ok x) w'"
    using assms by (auto simp: retry_def retry_laws_in_def)
  from retry_run_Ok [OF this assms(2) P_refl _ P_pause] P_trans that show thesis by metis
qed

lemma keeps_sleep_in: "(\<And>x. E x (o_sleep s d x)) \<Longrightarrow> keeps P (sleep s d)"
  by (rule keepsI, rule P_pause) (auto simp: sleep_def pause_in_def)

lemma keeps_capture: "keeps P m \<Longrightarrow> keeps P (capture var m)"
  unfolding capture_def by (intro keeps_rules)

end

text \<open>Frames that no change of the outside leaves.\<close>

locale pause_frame = env_frame P "\<lambda>_ _. True" for P :: "'e world \<Rightarrow> 'e world \<Rightarrow> bool"
begin

lemma keeps_sleep: "keeps P (sleep s d)"
  by (rule keeps_sleep_in) simp

end

definition silently :: "'e world \<Rightarrow> 'e world \<Rightarrow> bool" where
  "silently w w' \<longleftrightarrow> broadcasts w' = broadcasts w \<and> submitted w' = submitted w"

text \<open>Broadcasting is only ever added to; \<open>Q\<close> holds of what is added. Nothing is submitted.\<close>

definition adds :: "(cosmos_msg \<times> bool \<Rightarrow> bool) \<Rightarrow> 'e world \<Rightarrow> 'e world \<Rightarrow> bool" where
  "adds Q w w' \<longleftrightarrow> submitted w' = submitted w \<and>
     (\<exists>xs. broadcasts w' = broadcasts w @ xs \<and> (\<forall>x \<in> set xs. Q x))"

interpretation silently: pause_frame silently
  by unfold_locales (auto simp: silently_def pause_def)

interpretation adds: pause_frame "adds Q" for Q
proof
  show "adds Q w w''" if "adds Q w w'" "adds Q w' w''" for w w' w'' :: "'e world"
    using that by (auto simp: adds_def)
qed (auto simp: adds_def pause_def)

lemma silent_silently: "silent m \<Longrightarrow> keeps silently m"
  by (auto simp: silent_def keeps_def silently_def same_broadcasts_def same_submitted_def)

lemma silently_adds: "keeps silently m \<Longrightarrow> keeps (adds Q) m"
  by (auto simp: keeps_def silently_def adds_def)

lemma broadcasts_one_adds:
  assumes "broadcasts_one Q m" "\<And>msg ok. Q msg \<Longrightarrow> Q' (msg, ok)"
  shows "keeps (adds Q') m"
proof (rule keepsI)
  fix w r w'
  assume "m w = (r, w')"
  then have "one_sent Q r w w'" using assms(1) by (simp add: broadcasts_one_def)
  then show "adds Q' w w'" using assms(2) by (cases r) (auto simp: one_sent_def adds_def)
qed

section \<open>A concrete orchestrator\<close>

text \<open>
  An Injective node with one bonded validator and one last claim, and an Ethereum node with one deposit
  event, for concrete runs.
\<close>

definition sample_active :: Valset where
  "sample_active = sample_valset\<lparr>vs_Members := [\<lparr>bv_Power = 4294967295, bv_EthereumAddress = ''11''\<rparr>]\<rparr>"

definition sample_fees :: "BatchFees list" where
  "sample_fees = [\<lparr>bf_Token = ''t'', bf_TotalFees = 100\<rparr>]"

definition sample_queries :: "nat peggytypes_QueryClient" where
  "sample_queries =
     \<lparr>q_ValsetRequest = (\<lambda>_ k. (Inr (Some (Some sample_valset)), k)),
      q_CurrentValset = (\<lambda>k. (Inr (Some (Some sample_active)), k)),
      q_LastPendingValsetRequestByAddr = (\<lambda>_ k. (Inr (Some [sample_new_valset]), k)),
      q_LastValsetRequests = (\<lambda>k. (Inr (Some [sample_new_valset]), k)),
      q_ValsetConfirmsByNonce = (\<lambda>_ k. (Inr (Some (sample_valset_confirms sample_sig)), k)),
      q_LastPendingBatchRequestByAddr = (\<lambda>_ k. (Inr (Some (Some sample_batch)), k)),
      q_OutgoingTxBatches = (\<lambda>k. (Inr (Some [sample_batch]), k)),
      q_BatchFees = (\<lambda>k. (Inr (Some sample_fees), k)),
      q_BatchConfirms = (\<lambda>_ _ k. (Inr (Some (sample_batch_confirms sample_sig)), k)),
      q_LastEventByAddr = (\<lambda>_ k. (Inr (Some (Some \<lparr>lc_EthereumEventNonce = 4, lc_EthereumEventHeight = 10\<rparr>)), k)),
      q_Params = (\<lambda>k. (Inr (Some \<lparr>pp_BridgeEthereumAddress = ''5'', pp_BridgeContractStartHeight = 3,
         pp_CosmosCoinErc20Contract = ''c''\<rparr>), k)),
      q_GetDelegateKeyByEth = (\<lambda>_ k. (Inr (Some ''o''), k))\<rparr>"

definition sample_sdk :: sdk_lib where
  "sample_sdk = \<lparr>AccAddressString = map (\<lambda>b. char_of (unat b)), AccAddressFromBech32 = (\<lambda>s. Inr (map of_char s)),
     PeggyDenomString = (\<lambda>a. ''peggy'' @ replicate (unat a) CHR ''1'')\<rparr>"

definition sample_broadcaster :: "nat broadcastClient" where
  "sample_broadcaster = \<lparr>ChainClient = \<lparr>FromAddress = [111], BroadcastMsg = (\<lambda>_ k. (Inr (0, []), k)),
       QueueBroadcastMsg = (\<lambda>_ k. (Inr (), k)), time_Sleep = (\<lambda>_ k. k)\<rparr>,
     ethSignFn = Some (\<lambda>_ _. Inr [7]), bc_geth = unary_geth, bc_sdk = sample_sdk, bc_abi = sample_abi\<rparr>"

definition sample_rpc :: "(nat, unit, unit) rpcClient" where
  "sample_rpc = \<lparr>rpc_Block = (\<lambda>_ k. (Inr \<lparr>rb_Time = - 1000, rb_TxHashes = []\<rparr>, k)), rpc_Status = (\<lambda>k. (Inr 8, k)),
     rpc_Tx = (\<lambda>_ k. (Inr (), k)), rpc_Validators = (\<lambda>_ k. (Inr (), k))\<rparr>"

definition sample_config :: Config where
  "sample_config = \<lparr>CosmosAddr = [111], EthereumAddr = 2, MinBatchFeeUSD = 0,
     ERC20ContractMapping = Map.empty, RelayValsetOffsetDur = 10, RelayBatchOffsetDur = 10,
     RelayValsets = True, RelayBatches = True, RelayerMode = False\<rparr>"

definition sample_orchestrator :: "nat Orchestrator" where
  "sample_orchestrator = NewOrchestrator (network_of sample_queries sample_broadcaster sample_rpc)
     (eth_of sample_eth) (\<lambda>_. ret 2) sample_config unary_geth sample_sdk exact_decimals
     (\<lambda>k. (int k, k)) (\<lambda>_ k. k) simple_retry"

lemma sample_orchestrator_parts:
  "injective sample_orchestrator = network_of sample_queries sample_broadcaster sample_rpc"
  "ethereum sample_orchestrator = eth_of sample_eth"
  "retry_laws (retry_Do sample_orchestrator)"
  by (simp_all add: sample_orchestrator_def NewOrchestrator_def simple_retry_laws)

text \<open>One attempt is enough when the closure succeeds.\<close>

lemma sample_retry:
  assumes "m w = (Ok x, w')"
  shows "retry sample_orchestrator m w = (Ok x, w')"
  using assms by (simp add: retry_def sample_orchestrator_def NewOrchestrator_def numeral_eq_Suc)

lemmas sample_parts = sample_orchestrator_def NewOrchestrator_def sample_config_def

end
