(* ===== verification/Oracle.thy ===== *)
theory Oracle
  imports OrchestratorCore
begin

text \<open>
  \<open>orchestrator/oracle.go\<close>: the oracle scans confirmed Ethereum blocks for events of the Peggy
  contract and claims them on Injective in the order of their nonces. Its state is the last
  observed height; every assignment to it in the source is followed by \<open>return nil\<close>, so
  \<open>observeEthEvents\<close> returns the new state and an error leaves the state unchanged.
\<close>

definition ethBlockConfirmationDelay :: u64 where
  "ethBlockConfirmationDelay = 12"

definition defaultBlocksToSearch :: u64 where
  "defaultBlocksToSearch = 2000"

record oracle_state =
  lastResyncWithInjective :: int
  lastObservedEthHeight :: u64

section \<open>Fetching\<close>

definition getEthEvents :: "'e Orchestrator \<Rightarrow> u64 \<Rightarrow> u64 \<Rightarrow> ('e world, event list) io" where
  "getEthEvents l startBlock endBlock =
     (let scanEthEventsFn =
        bindE (e_GetSendToCosmosEvents (ethereum l) startBlock endBlock) (\<lambda>oldDepositEvents.
        bindE (e_GetSendToInjectiveEvents (ethereum l) startBlock endBlock) (\<lambda>depositEvents.
        bindE (e_GetTransactionBatchExecutedEvents (ethereum l) startBlock endBlock) (\<lambda>withdrawalEvents.
        bindE (e_GetPeggyERC20DeployedEvents (ethereum l) startBlock endBlock) (\<lambda>erc20DeploymentEvents.
        bindE (e_GetValsetUpdatedEvents (ethereum l) startBlock endBlock) (\<lambda>valsetUpdateEvents.
          ret (EventsVar (map oldDeposit oldDepositEvents @ map deposit depositEvents @
            map withdrawal withdrawalEvents @ map valsetUpdate valsetUpdateEvents @
            map erc20Deployment erc20DeploymentEvents)))))))
      in bindE (retry l scanEthEventsFn) (\<lambda>v. ret (as_events v)))"

definition getLatestEthHeight :: "'e Orchestrator \<Rightarrow> ('e world, u64) io" where
  "getLatestEthHeight l =
     bindE (retry l (capture (\<lambda>h. HeightVar (big_Uint64 h))
              (wrapE ''failed to get latest ethereum header'' (e_GetHeaderByNumber (ethereum l)))))
       (\<lambda>v. ret (as_height v))"

definition getLastClaimEvent :: "'e Orchestrator \<Rightarrow> ('e world, LastClaimEvent option) io" where
  "getLastClaimEvent l =
     bindE (retry l (capture ClaimVar (n_LastClaimEventByAddr (injective l) (CosmosAddr (cfg l)))))
       (\<lambda>v. ret (as_claim v))"

section \<open>Claiming\<close>

definition filterEvents :: "event list \<Rightarrow> u64 \<Rightarrow> event list" where
  "filterEvents events nonce = filter (\<lambda>e. Nonce e > nonce) events"

fun sendEthEventClaim :: "'e Orchestrator \<Rightarrow> event \<Rightarrow> ('e world, unit) io" where
  "sendEthEventClaim l (oldDeposit e) = n_SendOldDepositClaim (injective l) e"
| "sendEthEventClaim l (deposit e) = n_SendDepositClaim (injective l) e"
| "sendEthEventClaim l (valsetUpdate e) = n_SendValsetClaim (injective l) e"
| "sendEthEventClaim l (withdrawal e) = n_SendWithdrawalClaim (injective l) e"
| "sendEthEventClaim l (erc20Deployment e) = n_SendERC20DeployedClaim (injective l) e"

definition send_claims :: "'e Orchestrator \<Rightarrow> event list \<Rightarrow> ('e world, unit) io" where
  "send_claims l events = forE events (\<lambda>e. bindE (sendEthEventClaim l e) (\<lambda>_. sleep l (1100 * 1000000)))"

definition sendEventsFn :: "'e Orchestrator \<Rightarrow> event list \<Rightarrow> ('e world, unit) io" where
  "sendEventsFn l events =
     bindE (n_LastClaimEventByAddr (injective l) (CosmosAddr (cfg l))) (\<lambda>c.
     bindE (deref c) (\<lambda>lastClaim.
       (let newEvents = filterEvents events (lc_EthereumEventNonce lastClaim)
        in if newEvents = [] then ret () else send_claims l newEvents)))"

definition sendNewEventClaims :: "'e Orchestrator \<Rightarrow> event list \<Rightarrow> ('e world, unit) io" where
  "sendNewEventClaims l events =
     bindE (retry l (capture (\<lambda>_. NoVar) (sendEventsFn l events))) (\<lambda>_. ret ())"

section \<open>One iteration\<close>

definition bonded :: "'e Orchestrator \<Rightarrow> Valset \<Rightarrow> bool" where
  "bonded l vs \<longleftrightarrow>
     (\<exists>v \<in> set (vs_Members vs). AddressHex (o_geth l) (EthereumAddr (cfg l)) = bv_EthereumAddress v)"

text \<open>
  The end of the range to scan: confirmed, and at most 2000 blocks on. \<open>scan_range\<close> is the part
  of the iteration after the range is fixed.
\<close>

definition scan_end :: "u64 \<Rightarrow> u64 \<Rightarrow> u64" where
  "scan_end observed latest =
     (if latest > observed + defaultBlocksToSearch then observed + defaultBlocksToSearch else latest)"

definition scan_range :: "'e Orchestrator \<Rightarrow> oracle_state \<Rightarrow> u64 \<Rightarrow> ('e world, oracle_state) io" where
  "scan_range l s latestHeight =
     bindE (getEthEvents l (lastObservedEthHeight s) latestHeight) (\<lambda>events.
     bindE (getLastClaimEvent l) (\<lambda>c. bindE (deref c) (\<lambda>lastClaim.
     (let newEvents = sort_slice (\<lambda>a b. Nonce a < Nonce b)
                        (filterEvents events (lc_EthereumEventNonce lastClaim)) in
      if newEvents = [] then ret (s\<lparr>lastObservedEthHeight := latestHeight\<rparr>)
      else if lc_EthereumEventNonce lastClaim + 1 \<noteq> Nonce (hd newEvents) then
        ret (s\<lparr>lastObservedEthHeight := lc_EthereumEventHeight lastClaim\<rparr>)
      else bindE (sendNewEventClaims l newEvents)
             (\<lambda>_. ret (s\<lparr>lastObservedEthHeight := latestHeight\<rparr>))))))"

definition observeEthEvents :: "'e Orchestrator \<Rightarrow> oracle_state \<Rightarrow> ('e world, oracle_state) io" where
  "observeEthEvents l s =
     bindE (n_CurrentValset (injective l)) (\<lambda>p. bindE (deref p) (\<lambda>vs.
     if \<not> bonded l vs then ret s else
     bindE (getLatestEthHeight l) (\<lambda>head.
     if head \<le> ethBlockConfirmationDelay then ret s else
     if head - ethBlockConfirmationDelay \<le> lastObservedEthHeight s then ret s else
     scan_range l s (scan_end (lastObservedEthHeight s) (head - ethBlockConfirmationDelay)))))"

text \<open>The loop body, over the oracle's state and the world.\<close>

definition oracle_iteration :: "'e Orchestrator \<Rightarrow> (oracle_state \<times> 'e world, unit) io" where
  "oracle_iteration l = (\<lambda>(s, w). case observeEthEvents l s w of
      (Ok s', w') \<Rightarrow> (Ok (), (s', w'))
    | (Err e, w') \<Rightarrow> (Err e, (s, w')) | (Panic e, w') \<Rightarrow> (Panic e, (s, w'))
    | (Exit, w') \<Rightarrow> (Exit, (s, w')) | (Diverge, w') \<Rightarrow> (Diverge, (s, w')))"

definition runOracle ::
  "'e Orchestrator \<Rightarrow> u64 \<Rightarrow> select_case list \<Rightarrow> 'e world \<Rightarrow> unit res \<times> int list \<times> oracle_state \<times> 'e world" where
  "runOracle l lastObservedBlock cs w = (case o_now l (outside w) of (t, o') \<Rightarrow>
     RunLoop (\<lambda>(s, w). case o_now l (outside w) of (t, o') \<Rightarrow> (t, (s, w\<lparr>outside := o'\<rparr>)))
       defaultLoopDur (oracle_iteration l) cs
       (\<lparr>lastResyncWithInjective = t, lastObservedEthHeight = lastObservedBlock\<rparr>, w\<lparr>outside := o'\<rparr>))"

section \<open>What is claimed\<close>

text \<open>The message that claims an event: the one of its kind, with the fields of the event.\<close>

fun claim_message :: "'e broadcastClient \<Rightarrow> event \<Rightarrow> cosmos_msg \<Rightarrow> bool" where
  "claim_message b (oldDeposit e) m \<longleftrightarrow> m = old_deposit_msg b e"
| "claim_message b (deposit e) m \<longleftrightarrow> m = deposit_msg b e"
| "claim_message b (withdrawal e) m \<longleftrightarrow> m = withdrawal_msg b e"
| "claim_message b (valsetUpdate e) m \<longleftrightarrow> (\<exists>members.
     claim_members (bc_geth b) (vu_Validators e) (vu_Powers e) = Ok members \<and> m = valset_msg b e members)"
| "claim_message b (erc20Deployment e) m \<longleftrightarrow> m = erc20_msg b e"

lemma claim_message_nonce: "claim_message b e m \<Longrightarrow> claim_nonce m = Some (Nonce e)"
  by (cases e) (auto simp: old_deposit_msg_def deposit_msg_def withdrawal_msg_def valset_msg_def erc20_msg_def)

text \<open>The sequence \<open>xs\<close> of accepted broadcasts claims the events \<open>es\<close>, in their order.\<close>

definition claims :: "'e broadcastClient \<Rightarrow> event list \<Rightarrow> (cosmos_msg \<times> bool) list \<Rightarrow> bool" where
  "claims b es xs \<longleftrightarrow> list_all2 (\<lambda>e x. claim_message b e (fst x) \<and> snd x) es xs"

definition claim_of :: "'e broadcastClient \<Rightarrow> event list \<Rightarrow> cosmos_msg \<times> bool \<Rightarrow> bool" where
  "claim_of b es x \<longleftrightarrow> (\<exists>e \<in> set es. claim_message b e (fst x))"

lemma claims_member:
  assumes "claims b es xs" "e \<in> set es"
  obtains m where "(m, True) \<in> set xs" "claim_message b e m"
proof -
  obtain i where i: "i < length es" "es ! i = e" using assms(2) by (metis in_set_conv_nth)
  then have "claim_message b e (fst (xs ! i)) \<and> snd (xs ! i)" "i < length xs"
    using assms(1) by (auto simp: claims_def list_all2_conv_all_nth)
  then show thesis using that [of "fst (xs ! i)"] nth_mem [of i xs] by (metis (full_types) prod.collapse)
qed

lemma claims_nonces:
  assumes "claims b es xs"
  shows "map (the \<circ> claim_nonce \<circ> fst) xs = map Nonce es" "\<forall>x \<in> set xs. snd x"
  using assms unfolding claims_def by (induction rule: list_all2_induct) (auto dest: claim_message_nonce)

lemma claim_message_eqs:
  "claim_message b (oldDeposit e1) = (\<lambda>m. m = old_deposit_msg b e1)"
  "claim_message b (deposit e2) = (\<lambda>m. m = deposit_msg b e2)"
  "claim_message b (withdrawal e3) = (\<lambda>m. m = withdrawal_msg b e3)"
  "claim_message b (valsetUpdate e4) = (\<lambda>m. \<exists>members.
     claim_members (bc_geth b) (vu_Validators e4) (vu_Powers e4) = Ok members \<and> m = valset_msg b e4 members)"
  "claim_message b (erc20Deployment e5) = (\<lambda>m. m = erc20_msg b e5)"
  by (simp_all add: fun_eq_iff)

context injective_api
begin

lemma claim_one:
  "injective l = net \<Longrightarrow> broadcasts_one (claim_message bc e) (sendEthEventClaim l e)"
  by (cases e) (simp_all only: claim_message_eqs sendEthEventClaim.simps claims_one)

lemma send_claims_Ok:
  assumes "injective l = net"
  shows "send_claims l es w = (Ok (), w') \<Longrightarrow> \<exists>xs. broadcasts w' = broadcasts w @ xs \<and> claims bc es xs"
proof (induction es arbitrary: w)
  case Nil
  then show ?case by (simp add: send_claims_def claims_def)
next
  case (Cons e es)
  from Cons.prems obtain w1 w2 where
    1: "sendEthEventClaim l e w = (Ok (), w1)" "sleep l (1100 * 1000000) w1 = (Ok (), w2)"
      "send_claims l es w2 = (Ok (), w')"
    by (auto simp: send_claims_def elim!: io_elims)
  have "broadcasts w2 = broadcasts w1" using 1(2) by (auto simp: sleep_def)
  moreover obtain m where "claim_message bc e m" "broadcasts w1 = broadcasts w @ [(m, True)]"
    by (rule broadcasts_one_Ok [OF claim_one [OF assms] 1(1)])
  moreover obtain xs where "broadcasts w' = broadcasts w2 @ xs" "claims bc es xs"
    using Cons.IH [OF 1(3)] by blast
  ultimately have "broadcasts w' = broadcasts w @ (m, True) # xs" "claims bc (e # es) ((m, True) # xs)"
    by (simp_all add: claims_def)
  then show ?case by blast
qed

lemma send_claims_adds:
  assumes "injective l = net" "set es \<subseteq> set es'"
  shows "keeps (adds (claim_of bc es')) (send_claims l es)"
  unfolding send_claims_def
  by (intro adds.keeps_rules adds.keeps_sleep broadcasts_one_adds [OF claim_one [OF assms(1)]])
    (use assms(2) in \<open>auto simp: claim_of_def\<close>)

lemma sendEventsFn_adds:
  assumes "injective l = net"
  shows "keeps (adds (claim_of bc es)) (sendEventsFn l es)"
  unfolding sendEventsFn_def Let_def filterEvents_def
  by (intro adds.keeps_rules send_claims_adds [OF assms]
      silently_adds silent_silently) (auto simp: query_silent assms)

lemma sendEventsFn_Ok:
  assumes "injective l = net" "sendEventsFn l es w = (Ok (), w')"
  obtains claim w1 xs where
    "n_LastClaimEventByAddr net (CosmosAddr (cfg l)) w = (Ok (Some claim), w1)"
    "broadcasts w' = broadcasts w @ xs" "claims bc (filterEvents es (lc_EthereumEventNonce claim)) xs"
proof -
  obtain claim w1 where c: "n_LastClaimEventByAddr net (CosmosAddr (cfg l)) w = (Ok (Some claim), w1)"
    "(let newEvents = filterEvents es (lc_EthereumEventNonce claim)
      in if newEvents = [] then ret () else send_claims l newEvents) w1 = (Ok (), w')"
    using assms by (auto simp: sendEventsFn_def elim!: io_elims)
  have same: "broadcasts w1 = broadcasts w"
    using keepsD [OF silent_silently [OF query_silent(2)] c(1)] by (simp add: silently_def)
  have "\<exists>xs. broadcasts w' = broadcasts w1 @ xs \<and> claims bc (filterEvents es (lc_EthereumEventNonce claim)) xs"
    using c(2) send_claims_Ok [OF assms(1)]
    by (auto simp: Let_def claims_def split: if_splits)
  then show thesis using that c(1) same by auto
qed

lemma sendNewEventClaims_adds:
  assumes "injective l = net" "retry_laws (retry_Do l)"
  shows "keeps (adds (claim_of bc es)) (sendNewEventClaims l es)"
  unfolding sendNewEventClaims_def
  by (intro adds.keeps_rules adds.keeps_retry adds.keeps_capture sendEventsFn_adds assms)

lemma sendNewEventClaims_Ok:
  assumes "injective l = net" "retry_laws (retry_Do l)" "sendNewEventClaims l es w = (Ok (), w')"
  obtains claim w1 w2 xs ys where
    "n_LastClaimEventByAddr net (CosmosAddr (cfg l)) w1 = (Ok (Some claim), w2)"
    "broadcasts w' = broadcasts w @ ys @ xs" "claims bc (filterEvents es (lc_EthereumEventNonce claim)) xs"
proof -
  have "retry l (capture (\<lambda>_. NoVar) (sendEventsFn l es)) w = (Ok NoVar, w') \<or>
      (\<exists>v. retry l (capture (\<lambda>_. NoVar) (sendEventsFn l es)) w = (Ok v, w'))"
    using assms(3) by (auto simp: sendNewEventClaims_def elim!: io_elims)
  then obtain v where "retry l (capture (\<lambda>_. NoVar) (sendEventsFn l es)) w = (Ok v, w')" by blast
  then obtain w1 where w1: "adds (claim_of bc es) w w1" "capture (\<lambda>_. NoVar) (sendEventsFn l es) w1 = (Ok v, w')"
    by (rule adds.retry_success [OF assms(2) adds.keeps_capture [OF sendEventsFn_adds [OF assms(1)]]])
  then have "sendEventsFn l es w1 = (Ok (), w')"
    by (auto simp: io_simps split: prod.splits res.splits)
  then obtain claim w2 xs where "n_LastClaimEventByAddr net (CosmosAddr (cfg l)) w1 = (Ok (Some claim), w2)"
    "broadcasts w' = broadcasts w1 @ xs" "claims bc (filterEvents es (lc_EthereumEventNonce claim)) xs"
    by (rule sendEventsFn_Ok [OF assms(1)])
  with w1(1) show thesis using that by (auto simp: adds_def)
qed

end

section \<open>The shape of an iteration\<close>

lemma retry_silently:
  assumes "retry_laws (retry_Do l)" "silent m"
  shows "keeps silently (retry l (capture var m))"
  by (intro silently.keeps_retry silently.keeps_capture silent_silently assms)

lemma fetches_silently:
  assumes "injective l = network_of q b t" "ethereum l = eth_of n" "retry_laws (retry_Do l)"
  shows "keeps silently (getLatestEthHeight l)" "keeps silently (getEthEvents l x y)"
    "keeps silently (getLastClaimEvent l)" "keeps silently (n_CurrentValset (injective l))"
proof -
  note read = eth_net.read_silent [of n, THEN silent_silently]
  show "keeps silently (getLatestEthHeight l)"
    unfolding getLatestEthHeight_def assms(2)
    by (intro silently.keeps_rules silently.keeps_retry silently.keeps_capture assms(3) read)
  show "keeps silently (getEthEvents l x y)"
    unfolding getEthEvents_def assms(2) Let_def
    by (intro silently.keeps_rules silently.keeps_retry assms(3) read)
  show "keeps silently (getLastClaimEvent l)"
    unfolding getLastClaimEvent_def assms(1)
    by (intro silently.keeps_rules retry_silently assms(3) inj.query_silent)
  show "keeps silently (n_CurrentValset (injective l))"
    unfolding assms(1) by (intro silent_silently inj.query_silent)
qed

text \<open>The events of the scanned range that are not claimed yet, in the order they are claimed.\<close>

definition new_events :: "event list \<Rightarrow> LastClaimEvent \<Rightarrow> event list" where
  "new_events es claim =
     sort_slice (\<lambda>a b. Nonce a < Nonce b) (filterEvents es (lc_EthereumEventNonce claim))"

lemma scan_range_cases:
  assumes "injective l = network_of q b t" "ethereum l = eth_of n" "retry_laws (retry_Do l)"
    and run: "scan_range l s end' w = (r, w')"
  obtains (failed) "silently w w'" "\<And>s'. r \<noteq> Ok s'"
  | (nothing_new) es claim w1 w2 where
      "getEthEvents l (lastObservedEthHeight s) end' w = (Ok es, w1)" "getLastClaimEvent l w1 = (Ok (Some claim), w2)"
      "silently w w'" "new_events es claim = []" "r = Ok (s\<lparr>lastObservedEthHeight := end'\<rparr>)" "w2 = w'"
  | (gap) es claim w1 w2 where
      "getEthEvents l (lastObservedEthHeight s) end' w = (Ok es, w1)" "getLastClaimEvent l w1 = (Ok (Some claim), w2)"
      "silently w w'" "new_events es claim \<noteq> []"
      "Nonce (hd (new_events es claim)) \<noteq> lc_EthereumEventNonce claim + 1"
      "r = Ok (s\<lparr>lastObservedEthHeight := lc_EthereumEventHeight claim\<rparr>)" "w2 = w'"
  | (claiming) es claim w1 w2 r1 where
      "getEthEvents l (lastObservedEthHeight s) end' w = (Ok es, w1)" "getLastClaimEvent l w1 = (Ok (Some claim), w2)"
      "silently w w2" "new_events es claim \<noteq> []"
      "Nonce (hd (new_events es claim)) = lc_EthereumEventNonce claim + 1"
      "sendNewEventClaims l (new_events es claim) w2 = (r1, w')"
      "\<And>s'. r = Ok s' \<Longrightarrow> r1 = Ok () \<and> s' = s\<lparr>lastObservedEthHeight := end'\<rparr>"
  using run [unfolded scan_range_def] fetches_silently(2) [OF assms(1-3)]
proof (cases rule: silently.bindE_frameE)
  case stopped
  then show ?thesis by (rule failed)
next
  case (went_on es w1)
  note es = went_on
  from es(3) fetches_silently(3) [OF assms(1-3)] show ?thesis
  proof (cases rule: silently.bindE_frameE)
    case stopped
    then show ?thesis using silently.P_trans [OF es(2)] by (intro failed) auto
  next
    case (went_on c w2)
    then have w2: "silently w w2" using silently.P_trans [OF es(2)] by blast
    show ?thesis
    proof (cases c)
      case None
      then show ?thesis using went_on(3) w2 by (intro failed) (auto simp: io_simps)
    next
      case (Some claim)
      let ?new = "new_events es claim"
      have rest: "(if ?new = [] then ret (s\<lparr>lastObservedEthHeight := end'\<rparr>)
          else if lc_EthereumEventNonce claim + 1 \<noteq> Nonce (hd ?new) then
            ret (s\<lparr>lastObservedEthHeight := lc_EthereumEventHeight claim\<rparr>)
          else bindE (sendNewEventClaims l ?new)
                 (\<lambda>_. ret (s\<lparr>lastObservedEthHeight := end'\<rparr>))) w2 = (r, w')"
        using went_on(3) unfolding Some bindE_deref_Some Let_def new_events_def .
      consider "?new = []" | "?new \<noteq> []" "Nonce (hd ?new) \<noteq> lc_EthereumEventNonce claim + 1"
        | "?new \<noteq> []" "Nonce (hd ?new) = lc_EthereumEventNonce claim + 1" by blast
      then show ?thesis
      proof cases
        case 1
        then show ?thesis using rest es(1) went_on(1) Some w2
          by (intro nothing_new) (auto simp: io_simps)
      next
        case 2
        then show ?thesis using rest es(1) went_on(1) Some w2
          by (intro gap) (auto simp: io_simps)
      next
        case 3
        obtain r1 w3 where send: "sendNewEventClaims l ?new w2 = (r1, w3)" by fastforce
        have w3: "w3 = w'"
          and res: "\<And>s'. r = Ok s' \<Longrightarrow> r1 = Ok () \<and> s' = s\<lparr>lastObservedEthHeight := end'\<rparr>"
          using rest 3 send by (auto simp: io_simps split: res.splits)
        show ?thesis
          by (rule claiming [OF es(1) went_on(1) [unfolded Some] w2 3 send [unfolded w3] res])
      qed
    qed
  qed
qed

text \<open>An iteration either stops before it scans, or scans a range of confirmed blocks.\<close>

lemma observeEthEvents_cases:
  assumes "injective l = network_of q b t" "ethereum l = eth_of n" "retry_laws (retry_Do l)"
    and run: "observeEthEvents l s w = (r, w')"
  obtains (idle) "silently w w'" "\<And>s'. r = Ok s' \<Longrightarrow> s' = s"
  | (scans) vs head w1 w2 where "bonded l vs" "getLatestEthHeight l w1 = (Ok head, w2)" "silently w w2"
      "ethBlockConfirmationDelay < head" "lastObservedEthHeight s < head - ethBlockConfirmationDelay"
      "scan_range l s (scan_end (lastObservedEthHeight s) (head - ethBlockConfirmationDelay)) w2 = (r, w')"
      "n_CurrentValset (injective l) w = (Ok (Some vs), w1)"
  using run [unfolded observeEthEvents_def] fetches_silently(4) [OF assms(1-3)]
proof (cases rule: silently.bindE_frameE)
  case stopped
  then show ?thesis by (intro idle) auto
next
  case (went_on p w1)
  note p = went_on
  show ?thesis
  proof (cases p)
    case None
    then show ?thesis using p by (intro idle) (auto simp: io_simps)
  next
    case (Some vs)
    show ?thesis
    proof (cases "bonded l vs")
      case False
      then show ?thesis using p Some by (intro idle) (auto simp: io_simps)
    next
      case True
      have "bindE (getLatestEthHeight l) (\<lambda>head.
          if head \<le> ethBlockConfirmationDelay then ret s else
          if head - ethBlockConfirmationDelay \<le> lastObservedEthHeight s then ret s else
          scan_range l s (scan_end (lastObservedEthHeight s) (head - ethBlockConfirmationDelay))) w1 = (r, w')"
        using p(3) Some True by simp
      from this fetches_silently(1) [OF assms(1-3)] show ?thesis
      proof (cases rule: silently.bindE_frameE)
        case stopped
        then show ?thesis using silently.P_trans [OF p(2)] by (intro idle) auto
      next
        case (went_on head w2)
        have w2: "silently w w2" using silently.P_trans [OF p(2) went_on(2)] .
        show ?thesis
        proof (cases "head \<le> ethBlockConfirmationDelay \<or>
            head - ethBlockConfirmationDelay \<le> lastObservedEthHeight s")
          case True
          then show ?thesis using went_on(3) w2 by (intro idle) (auto simp: io_simps split: if_splits)
        next
          case False
          then have "scan_range l s (scan_end (lastObservedEthHeight s) (head - ethBlockConfirmationDelay)) w2 = (r, w')"
            using went_on(3) by simp
          with False went_on(1) True w2 p(1) Some show ?thesis by (intro scans) auto
        qed
      qed
    qed
  qed
qed

section \<open>Properties\<close>

interpretation by_nonce: strict_weak "\<lambda>a b. Nonce a < Nonce b"
  by unfold_locales auto

lemma new_events_set: "set (new_events es claim) = {e \<in> set es. lc_EthereumEventNonce claim < Nonce e}"
  by (auto simp: new_events_def filterEvents_def)

lemma new_events_sorted: "sorted_wrt (\<lambda>a b. Nonce a \<le> Nonce b) (new_events es claim)"
  using by_nonce.sorted_sort_slice by (simp add: new_events_def not_less)

text \<open>The range of blocks: it never reaches an unconfirmed block and never exceeds 2000 blocks.\<close>

lemma scan_end_bounds:
  assumes "uint observed + 2000 < 2 ^ 64" "observed < latest"
  shows "observed < scan_end observed latest" "scan_end observed latest \<le> latest"
    "uint (scan_end observed latest) \<le> uint observed + 2000"
proof -
  have sum: "uint (observed + 2000) = uint observed + 2000"
    using assms(1) by (simp add: uint_word_ariths mod_pos_pos_trivial)
  then show "observed < scan_end observed latest" "scan_end observed latest \<le> latest"
    "uint (scan_end observed latest) \<le> uint observed + 2000"
    using assms by (auto simp: scan_end_def defaultBlocksToSearch_def word_less_def word_le_def)
qed

text \<open>When an iteration of the oracle ends without error, its observed height is unchanged; or it moved
  forward over a range of blocks that all have 12 confirmations and number at most 2000; or, when the
  first unclaimed event found is not the next one to claim, it was reset to the height of the last
  claim. (The heights are 64-bit; the bound excludes the last 2000 of them.)\<close>

theorem oracle_height:
  assumes "injective l = network_of q b t" "ethereum l = eth_of n" "retry_laws (retry_Do l)"
    and "observeEthEvents l s w = (Ok s', w')" "uint (lastObservedEthHeight s) + 2000 < 2 ^ 64"
  shows "lastObservedEthHeight s' = lastObservedEthHeight s \<or>
    (\<exists>head w1 w2. getLatestEthHeight l w1 = (Ok head, w2) \<and> 12 < head \<and>
       lastObservedEthHeight s < lastObservedEthHeight s' \<and> lastObservedEthHeight s' \<le> head - 12 \<and>
       uint (lastObservedEthHeight s') \<le> uint (lastObservedEthHeight s) + 2000) \<or>
    (\<exists>end' es claim w1 w2 w3. getEthEvents l (lastObservedEthHeight s) end' w1 = (Ok es, w2) \<and>
       getLastClaimEvent l w2 = (Ok (Some claim), w3) \<and> new_events es claim \<noteq> [] \<and>
       Nonce (hd (new_events es claim)) \<noteq> lc_EthereumEventNonce claim + 1 \<and>
       lastObservedEthHeight s' = lc_EthereumEventHeight claim)"
  using assms(1-4)
proof (cases rule: observeEthEvents_cases)
  case idle
  then show ?thesis by simp
next
  case (scans vs head w1 w2)
  note b = scan_end_bounds [OF assms(5) scans(5)]
  have fwd: ?thesis if "lastObservedEthHeight s' =
      scan_end (lastObservedEthHeight s) (head - ethBlockConfirmationDelay)"
    using scans(2,4) b that unfolding ethBlockConfirmationDelay_def by metis
  from assms(1-3) scans(6) show ?thesis
  proof (cases rule: scan_range_cases)
    case (gap es claim w3 w4)
    then have "lastObservedEthHeight s' = lc_EthereumEventHeight claim" by simp
    with gap(1,2,4,5) show ?thesis by blast
  qed (use fwd in auto)
qed


text \<open>What a successful sending of the new events means for each event of the scanned range.\<close>

definition settled :: "'e broadcastClient \<Rightarrow> 'e Orchestrator \<Rightarrow> LastClaimEvent \<Rightarrow> (cosmos_msg \<times> bool) list \<Rightarrow> event \<Rightarrow> bool" where
  "settled b l claim xs e \<longleftrightarrow> Nonce e \<le> lc_EthereumEventNonce claim \<or>
     (\<exists>claim' w4 w5. n_LastClaimEventByAddr (injective l) (CosmosAddr (cfg l)) w4 = (Ok (Some claim'), w5) \<and>
        Nonce e \<le> lc_EthereumEventNonce claim') \<or>
     (\<exists>m. (m, True) \<in> set xs \<and> claim_message b e m)"

lemma new_events_settled:
  assumes "injective l = network_of q b t" "retry_laws (retry_Do l)"
    and "sendNewEventClaims l (new_events es claim) w = (Ok (), w')"
  obtains xs where "broadcasts w' = broadcasts w @ xs" "\<forall>e \<in> set es. settled b l claim xs e"
proof -
  obtain claim' w5 w6 xs ys where sent:
    "n_LastClaimEventByAddr (injective l) (CosmosAddr (cfg l)) w5 = (Ok (Some claim'), w6)"
    "broadcasts w' = broadcasts w @ ys @ xs"
    "claims b (filterEvents (new_events es claim) (lc_EthereumEventNonce claim')) xs"
    using inj.sendNewEventClaims_Ok [OF assms] assms(1) by metis
  have "Nonce e \<le> lc_EthereumEventNonce claim \<or> Nonce e \<le> lc_EthereumEventNonce claim' \<or>
      (\<exists>m. (m, True) \<in> set xs \<and> claim_message b e m)" if "e \<in> set es" for e
  proof (cases "Nonce e \<le> lc_EthereumEventNonce claim \<or> Nonce e \<le> lc_EthereumEventNonce claim'")
    case False
    then have "e \<in> set (filterEvents (new_events es claim) (lc_EthereumEventNonce claim'))"
      using that new_events_set [of es claim] by (auto simp: filterEvents_def not_le)
    from claims_member [OF sent(3) this] show ?thesis by blast
  qed auto
  then have "\<forall>e \<in> set es. settled b l claim (ys @ xs) e"
    using sent(1) unfolding settled_def by (metis Un_iff set_append)
  with sent(2) show thesis by (rule that)
qed

text \<open>When the oracle's height moved and was not reset, every event it found between the old and the new
  height is settled: its nonce was already claimed when the range was scanned, or when the last
  attempt to send re-read the last claim, or this iteration broadcast its claim message and
  Injective accepted it.\<close>

theorem oracle_no_event_skipped:
  assumes "injective l = network_of q b t" "ethereum l = eth_of n" "retry_laws (retry_Do l)"
    and "observeEthEvents l s w = (Ok s', w')"
    and "lastObservedEthHeight s' \<noteq> lastObservedEthHeight s"
  shows "\<exists>end' es claim xs w1 w2 w3. getEthEvents l (lastObservedEthHeight s) end' w1 = (Ok es, w2) \<and>
    getLastClaimEvent l w2 = (Ok (Some claim), w3) \<and> broadcasts w' = broadcasts w @ xs \<and>
    (lastObservedEthHeight s' = lc_EthereumEventHeight claim \<and> xs = [] \<or>
     lastObservedEthHeight s' = end' \<and>
       (\<forall>e \<in> set es. Nonce e \<le> lc_EthereumEventNonce claim \<or>
          (\<exists>claim' w4 w5. n_LastClaimEventByAddr (injective l) (CosmosAddr (cfg l)) w4 = (Ok (Some claim'), w5) \<and>
             Nonce e \<le> lc_EthereumEventNonce claim') \<or>
          (\<exists>m. (m, True) \<in> set xs \<and> claim_message b e m)))"
  using assms(1-4)
proof (cases rule: observeEthEvents_cases)
  case idle
  then show ?thesis using assms(5) by simp
next
  case (scans vs head w1 w2)
  let ?upto = "scan_end (lastObservedEthHeight s) (head - ethBlockConfirmationDelay)"
  from assms(1-3) scans(6) show ?thesis
  proof (cases rule: scan_range_cases)
    case failed
    then show ?thesis using failed(2) [of s'] by simp
  next
    case (nothing_new es claim w3 w4)
    have "\<forall>e \<in> set es. Nonce e \<le> lc_EthereumEventNonce claim"
      using nothing_new(4) new_events_set [of es claim] by (auto simp: not_less)
    moreover have "broadcasts w' = broadcasts w @ []"
      using scans(3) nothing_new(3) by (simp add: silently_def)
    moreover have "lastObservedEthHeight s' = ?upto" using nothing_new(5) by simp
    ultimately show ?thesis using nothing_new(1,2) by blast
  next
    case (gap es claim w3 w4)
    have "broadcasts w' = broadcasts w @ []" using scans(3) gap(3) by (simp add: silently_def)
    moreover have "lastObservedEthHeight s' = lc_EthereumEventHeight claim" using gap(6) by simp
    ultimately show ?thesis using gap(1,2) by blast
  next
    case (claiming es claim w3 w4 r1)
    have r1: "r1 = Ok ()" and s': "lastObservedEthHeight s' = ?upto" using claiming(7) [OF refl] by simp_all
    obtain xs where "broadcasts w' = broadcasts w4 @ xs" "\<forall>e \<in> set es. settled b l claim xs e"
      using new_events_settled [OF assms(1,3) claiming(6) [unfolded r1]] .
    moreover from this(1) have "broadcasts w' = broadcasts w @ xs"
      using scans(3) claiming(3) by (simp add: silently_def)
    ultimately show ?thesis using s' claiming(1,2) unfolding settled_def by blast
  qed
qed


section \<open>A concrete run\<close>

definition sample_oracle :: oracle_state where
  "sample_oracle = \<lparr>lastResyncWithInjective = 0, lastObservedEthHeight = 20\<rparr>"

lemma sample_height: "getLatestEthHeight sample_orchestrator w = (Ok 100, w)"
proof -
  let ?m = "capture (\<lambda>h. HeightVar (big_Uint64 h)) (wrapE ''failed to get latest ethereum header''
      (e_GetHeaderByNumber (ethereum sample_orchestrator)))"
  have c: "?m w = (Ok (HeightVar 100), w)"
    by (simp add: sample_orchestrator_parts eth_of_def GetHeaderByNumber_def sample_eth_def
        sample_node_def io_simps big_Uint64_def)
  show ?thesis
    unfolding getLatestEthHeight_def bindE_simp sample_retry [where m = ?m, OF c] by (simp add: io_simps)
qed

lemma sample_last_claim:
  "n_LastClaimEventByAddr (injective sample_orchestrator) a w =
     (Ok (Some \<lparr>lc_EthereumEventNonce = 4, lc_EthereumEventHeight = 10\<rparr>), w)"
  by (simp add: sample_orchestrator_parts network_sel LastClaimEventByAddr_def query_eq sample_queries_def)

lemma sample_getLastClaim:
  "getLastClaimEvent sample_orchestrator w =
     (Ok (Some \<lparr>lc_EthereumEventNonce = 4, lc_EthereumEventHeight = 10\<rparr>), w)"
proof -
  let ?m = "capture ClaimVar (n_LastClaimEventByAddr (injective sample_orchestrator)
      (CosmosAddr (cfg sample_orchestrator)))"
  have c: "?m w = (Ok (ClaimVar (Some \<lparr>lc_EthereumEventNonce = 4, lc_EthereumEventHeight = 10\<rparr>)), w)"
    by (simp add: io_simps sample_last_claim)
  show ?thesis
    unfolding getLastClaimEvent_def bindE_simp sample_retry [where m = ?m, OF c] by (simp add: io_simps)
qed

lemma sample_events:
  "getEthEvents sample_orchestrator x y w =
     (Ok ((if x \<le> 30 \<and> 30 \<le> y then [oldDeposit sample_deposit] else []) @
          (if x \<le> 25 \<and> 25 \<le> y then [valsetUpdate sample_update] else [])), w)"
  (is "_ = (Ok ?es, w)")
proof -
  have bind: "en_bind sample_eth = sample_bindings sample_emitted" by (simp add: sample_eth_def)
  have "sc_BlockNumber sample_deposit = 30" "vu_BlockNumber sample_update = 25"
    by (simp_all add: sample_deposit_def sample_update_def)
  then show ?thesis
    unfolding getEthEvents_def Let_def
    by (subst bindE_simp, subst sample_retry [of _ w "EventsVar ?es" w])
      (simp_all add: sample_orchestrator_parts eth_of_def listed_getters [OF bind] sample_emitted_def no_events_def io_simps)
qed

lemma sample_nonces:
  "big_Uint64 (sc_EventNonce sample_deposit) = 5" "big_Uint64 (vu_EventNonce sample_update) = 2"
  by (simp_all add: sample_deposit_def sample_update_def big_Uint64_def)

lemma sample_new: "new_events [oldDeposit sample_deposit, valsetUpdate sample_update]
    \<lparr>lc_EthereumEventNonce = 4, lc_EthereumEventHeight = 10\<rparr> = [oldDeposit sample_deposit]"
  by (simp add: new_events_def filterEvents_def sample_deposit_def sample_update_def big_Uint64_def)

lemma sample_claim_sent:
  "\<exists>w'. sendEthEventClaim sample_orchestrator (oldDeposit sample_deposit) w = (Ok (), w')"
  by (simp add: sample_orchestrator_parts network_sel SendOldDepositClaim_def broadcast_msg_def
      sample_broadcaster_def Let_def)

lemma sample_claims_sent:
  "\<exists>w'. sendNewEventClaims sample_orchestrator [oldDeposit sample_deposit] (sample_world 0) = (Ok (), w')"
proof -
  let ?m = "capture (\<lambda>_. NoVar) (sendEventsFn sample_orchestrator [oldDeposit sample_deposit])"
  obtain w' where sent: "sendEthEventClaim sample_orchestrator (oldDeposit sample_deposit) (sample_world 0) = (Ok (), w')"
    using sample_claim_sent by blast
  have new: "filterEvents [oldDeposit sample_deposit] 4 = [oldDeposit sample_deposit]"
    by (simp add: filterEvents_def sample_deposit_def big_Uint64_def)
  have "\<exists>w''. ?m (sample_world 0) = (Ok NoVar, w'')"
    using sent by (simp add: sendEventsFn_def io_simps sample_last_claim new send_claims_def sleep_def)
  then obtain w'' where c: "?m (sample_world 0) = (Ok NoVar, w'')" by blast
  show ?thesis
    unfolding sendNewEventClaims_def bindE_simp sample_retry [where m = ?m, OF c] by (simp add: io_simps)
qed

lemma sample_observe:
  "\<exists>w'. observeEthEvents sample_orchestrator sample_oracle (sample_world 0) =
     (Ok (sample_oracle\<lparr>lastObservedEthHeight := 88\<rparr>), w')"
proof -
  have vs: "n_CurrentValset (injective sample_orchestrator) w = (Ok (Some sample_active), w)" for w
    by (simp add: sample_orchestrator_parts network_sel CurrentValset_def query_eq sample_queries_def)
  have two: "replicate (unat (2 :: address)) c = [c, c]" for c :: char
  proof -
    have "unat (2 :: address) = Suc (Suc 0)" by code_simp
    then show ?thesis by (simp only: replicate.simps)
  qed
  have bonded: "bonded sample_orchestrator sample_active"
    by (simp only: bonded_def sample_active_def sample_parts unary_geth_def Orchestrator.simps Config.simps
        Valset.simps geth_lib.simps BridgeValidator.simps two) simp
  show ?thesis
    using sample_claims_sent sample_new
    by (auto simp: observeEthEvents_def scan_range_def io_simps vs bonded sample_height sample_events
        sample_getLastClaim Let_def new_events_def sample_oracle_def ethBlockConfirmationDelay_def
        scan_end_def defaultBlocksToSearch_def sample_deposit_def big_Uint64_def)
qed

theorem oracle_height_witness:
  "\<exists>w'. observeEthEvents sample_orchestrator sample_oracle (sample_world 0) =
     (Ok (sample_oracle\<lparr>lastObservedEthHeight := 88\<rparr>), w') \<and>
     (\<exists>head w1 w2. getLatestEthHeight sample_orchestrator w1 = (Ok head, w2) \<and> 88 \<le> head - 12)"
proof -
  obtain w' where run: "observeEthEvents sample_orchestrator sample_oracle (sample_world 0) =
     (Ok (sample_oracle\<lparr>lastObservedEthHeight := 88\<rparr>), w')" using sample_observe by blast
  from oracle_height [OF sample_orchestrator_parts run] have "\<exists>head w1 w2.
      getLatestEthHeight sample_orchestrator w1 = (Ok head, w2) \<and> 88 \<le> head - 12"
    by (simp add: sample_oracle_def sample_getLastClaim sample_height)
  with run show ?thesis by blast
qed


theorem oracle_no_event_skipped_witness:
  "\<exists>w' m. observeEthEvents sample_orchestrator sample_oracle (sample_world 0) =
      (Ok (sample_oracle\<lparr>lastObservedEthHeight := 88\<rparr>), w') \<and>
    (m, True) \<in> set (broadcasts w') \<and> m = old_deposit_msg sample_broadcaster sample_deposit"
proof -
  obtain w' where run: "observeEthEvents sample_orchestrator sample_oracle (sample_world 0) =
     (Ok (sample_oracle\<lparr>lastObservedEthHeight := 88\<rparr>), w')" using sample_observe by blast
  have "lastObservedEthHeight (sample_oracle\<lparr>lastObservedEthHeight := 88\<rparr>) \<noteq> lastObservedEthHeight sample_oracle"
    by (simp add: sample_oracle_def)
  from oracle_no_event_skipped [OF sample_orchestrator_parts run this]
  have "\<exists>m. (m, True) \<in> set (broadcasts w') \<and> m = old_deposit_msg sample_broadcaster sample_deposit"
    by (auto simp: sample_events sample_getLastClaim sample_last_claim sample_nonces sample_oracle_def
        sample_world_def)
  with run show ?thesis by blast
qed


end
