(* ===== verification/Signer.thy ===== *)
theory Signer
  imports OrchestratorCore
begin

text \<open>
  \<open>orchestrator/signer.go\<close>: the signer confirms on Injective the validator sets and the batch it has not
  confirmed yet, with a signature of the orchestrator's Ethereum key over the hash the contract checks.
\<close>

text \<open>\<open>x, _ = f()\<close>: the errors of the two queries are dropped, and what was not read is nil.\<close>

definition value_or :: "'a \<Rightarrow> ('w, 'a) io \<Rightarrow> ('w, 'a) io" where
  "value_or d m = bindE (attempt m) (\<lambda>r. case r of Inl _ \<Rightarrow> ret d | Inr x \<Rightarrow> ret x)"

definition signValidatorSets :: "'e Orchestrator \<Rightarrow> hash \<Rightarrow> ('e world, unit) io" where
  "signValidatorSets l peggyID =
     bindE (retry l (capture ValsetsVar
              (value_or [] (n_OldestUnsignedValsets (injective l) (CosmosAddr (cfg l)))))) (\<lambda>v.
       if as_valsets v = [] then ret ()
       else forE (as_valsets v) (\<lambda>vs.
              bindE (retry l (capture (\<lambda>_. NoVar)
                       (n_SendValsetConfirm (injective l) (EthereumAddr (cfg l)) peggyID vs)))
                (\<lambda>_. ret ())))"

definition signNewBatch :: "'e Orchestrator \<Rightarrow> hash \<Rightarrow> ('e world, unit) io" where
  "signNewBatch l peggyID =
     bindE (retry l (capture BatchVar
              (value_or None (n_OldestUnsignedTransactionBatch (injective l) (CosmosAddr (cfg l)))))) (\<lambda>v.
       case as_batch v of
         None \<Rightarrow> ret ()
       | Some oldestUnsignedBatch \<Rightarrow>
           bindE (retry l (capture (\<lambda>_. NoVar)
                    (n_SendBatchConfirm (injective l) (EthereumAddr (cfg l)) peggyID oldestUnsignedBatch)))
             (\<lambda>_. ret ()))"

definition sign :: "'e Orchestrator \<Rightarrow> hash \<Rightarrow> ('e world, unit) io" where
  "sign l peggyID = bindE (signValidatorSets l peggyID) (\<lambda>_. signNewBatch l peggyID)"

definition runSigner ::
  "'e Orchestrator \<Rightarrow> hash \<Rightarrow> select_case list \<Rightarrow> 'e world \<Rightarrow> unit res \<times> int list \<times> 'e world" where
  "runSigner s peggyID cs w =
     RunLoop (\<lambda>w. case o_now s (outside w) of (t, o') \<Rightarrow> (t, w\<lparr>outside := o'\<rparr>))
       defaultLoopDur (sign s peggyID) cs w"

section \<open>What a confirmation contains\<close>

text \<open>The key's signature over the hash of the set or of the batch, with its nonce.\<close>

definition valset_confirmed :: "'e broadcastClient \<Rightarrow> address \<Rightarrow> hash \<Rightarrow> Valset \<Rightarrow> cosmos_msg \<Rightarrow> bool" where
  "valset_confirmed b eth pid vs m \<longleftrightarrow> (\<exists>h f sig.
     EncodeValsetConfirm (bc_geth b) (bc_abi b) pid vs = Ok h \<and> ethSignFn b = Some f \<and>
     f eth (hash_bytes h) = Inr sig \<and>
     m = ValsetConfirm \<lparr>vc_Orchestrator = from_str b, vc_EthAddress = AddressHex (bc_geth b) eth,
       vc_Nonce = vs_Nonce vs, vc_Signature = Bytes2Hex (bc_geth b) sig\<rparr>)"

definition batch_confirmed :: "'e broadcastClient \<Rightarrow> address \<Rightarrow> hash \<Rightarrow> OutgoingTxBatch \<Rightarrow> cosmos_msg \<Rightarrow> bool" where
  "batch_confirmed b eth pid batch m \<longleftrightarrow> (\<exists>h f sig.
     EncodeTxBatchConfirm (bc_geth b) (bc_abi b) pid batch = Ok h \<and> ethSignFn b = Some f \<and>
     f eth (hash_bytes h) = Inr sig \<and>
     m = ConfirmBatch \<lparr>cb_Orchestrator = from_str b, cb_Nonce = ob_BatchNonce batch,
       cb_Signature = Bytes2Hex (bc_geth b) sig, cb_EthSigner = AddressHex (bc_geth b) eth,
       cb_TokenContract = ob_TokenContract batch\<rparr>)"

text \<open>The value of a step that broadcasts nothing, for a send that depends on it.\<close>

lemma broadcasts_one_bind_Ok:
  assumes "keeps silently m" "\<And>x w w'. m w = (Ok x, w') \<Longrightarrow> broadcasts_one Q (f x)"
  shows "broadcasts_one Q (bindE m f)"
  unfolding broadcasts_one_def
proof (intro allI impI)
  fix w r w'
  assume "bindE m f w = (r, w')"
  then show "one_sent Q r w w'" using assms(1)
  proof (cases rule: silently.bindE_frameE)
    case stopped
    then show ?thesis by (cases r) (auto simp: one_sent_def silently_def)
  next
    case (went_on x w1)
    then have "one_sent Q r w1 w'" using assms(2) by (simp add: broadcasts_one_def)
    then show ?thesis using went_on(2) one_sent_same by (auto simp: silently_def)
  qed
qed

lemma SendConfirm_signed:
  "broadcasts_one (valset_confirmed b eth pid vs) (SendValsetConfirm b eth pid vs)"
  "broadcasts_one (batch_confirmed b eth pid batch) (SendBatchConfirm b eth pid batch)"
proof -
  have sig: "\<exists>f. ethSignFn b = Some f \<and> f eth (hash_bytes h) = Inr s" if "eth_sign b eth h w = (Ok s, w')" for h s w w'
    using that by (auto simp: eth_sign_def elim!: io_elims split: sum.splits)
  have hash: "c = Ok h" if "pure_call c w = (Ok h, w')" for c and h :: hash and w w' :: "'c world"
    using that by (simp add: io_simps)
  have silent: "keeps silently (eth_sign b eth h)" "keeps silently (pure_call c)"
    for h and c :: "hash res"
    by (intro silent_silently, simp add: silent_def eth_sign_keeps) (rule silently.keeps_pure_call)
  show "broadcasts_one (valset_confirmed b eth pid vs) (SendValsetConfirm b eth pid vs)"
    unfolding SendValsetConfirm_def
    by (intro broadcasts_one_bind_Ok broadcast_msg_one silent)
      (auto simp: valset_confirmed_def dest!: sig hash)
  show "broadcasts_one (batch_confirmed b eth pid batch) (SendBatchConfirm b eth pid batch)"
    unfolding SendBatchConfirm_def
    by (intro broadcasts_one_bind_Ok broadcast_msg_one silent)
      (auto simp: batch_confirmed_def dest!: sig hash)
qed

section \<open>What the signer does\<close>

text \<open>
  Retrying a send: what is broadcast satisfies \<open>Q\<close>, and on success the last message was accepted.
\<close>

lemma retry_send:
  assumes "retry_laws (retry_Do l)" "broadcasts_one Q m"
  shows "keeps (adds (\<lambda>x. Q (fst x))) (retry l (capture var m))"
    and "retry l (capture var m) w = (Ok v, w') \<Longrightarrow> \<exists>xs msg. broadcasts w' = broadcasts w @ xs \<and>
      (msg, True) \<in> set xs \<and> Q msg"
proof -
  have one: "keeps (adds (\<lambda>x. Q (fst x))) (capture var m)"
    by (intro adds.keeps_capture broadcasts_one_adds [OF assms(2)]) simp
  then show "keeps (adds (\<lambda>x. Q (fst x))) (retry l (capture var m))" by (rule adds.keeps_retry [OF assms(1)])
  assume "retry l (capture var m) w = (Ok v, w')"
  then obtain w1 where w1: "adds (\<lambda>x. Q (fst x)) w w1" "capture var m w1 = (Ok v, w')"
    by (rule adds.retry_success [OF assms(1) one])
  then obtain x where "m w1 = (Ok x, w')" by (auto simp: io_simps split: prod.splits res.splits)
  then obtain msg where "Q msg" "broadcasts w' = broadcasts w1 @ [(msg, True)]"
    by (rule broadcasts_one_Ok [OF assms(2)])
  then show "\<exists>xs msg. broadcasts w' = broadcasts w @ xs \<and> (msg, True) \<in> set xs \<and> Q msg"
    using w1(1) by (auto simp: adds_def)
qed

text \<open>A read whose error is dropped, retried: it is silent, and its value is that of a read or the default.\<close>

lemma retry_read:
  assumes "retry_laws (retry_Do l)" "silent m"
  shows "keeps silently (retry l (capture var (value_or d m)))"
    and "retry l (capture var (value_or d m)) w = (Ok v, w') \<Longrightarrow> \<exists>w1 x. silently w w1 \<and> v = var x \<and>
      (m w1 = (Ok x, w') \<or> x = d \<and> (\<exists>e. m w1 = (Err e, w')))"
proof -
  have fn: "keeps silently (capture var (value_or d m))"
    unfolding value_or_def by (intro silently.keeps_capture silently.keeps_rules silent_silently assms(2))
  then show "keeps silently (retry l (capture var (value_or d m)))" by (rule silently.keeps_retry [OF assms(1)])
  assume "retry l (capture var (value_or d m)) w = (Ok v, w')"
  then obtain w1 where "silently w w1" "capture var (value_or d m) w1 = (Ok v, w')"
    by (rule silently.retry_success [OF assms(1) fn])
  then show "\<exists>w1 x. silently w w1 \<and> v = var x \<and> (m w1 = (Ok x, w') \<or> x = d \<and> (\<exists>e. m w1 = (Err e, w')))"
    by (intro exI [of _ w1]) (auto simp: value_or_def io_simps split: prod.splits res.splits sum.splits)
qed

lemma retry_each:
  assumes "retry_laws (retry_Do l)" "\<And>x. broadcasts_one (Q x) (send x)"
  defines "body \<equiv> (\<lambda>x. bindE (retry l (capture (\<lambda>_. NoVar) (send x))) (\<lambda>_. ret ()))"
  shows "keeps (adds (\<lambda>y. \<exists>x \<in> set xs. Q x (fst y))) (forE xs body)"
    and "forE xs body w = (Ok u, w') \<Longrightarrow> \<exists>ys. broadcasts w' = broadcasts w @ ys \<and>
      (\<forall>x \<in> set xs. \<exists>msg. (msg, True) \<in> set ys \<and> Q x msg)"
proof -
  have "keeps (adds (\<lambda>y. \<exists>x \<in> set xs. Q x (fst y))) (retry l (capture (\<lambda>_. NoVar) (send x)))" if "x \<in> set xs" for x
    using retry_send(1) [OF assms(1,2)] that by (fastforce simp: keeps_def adds_def)
  then show "keeps (adds (\<lambda>y. \<exists>x \<in> set xs. Q x (fst y))) (forE xs body)"
    unfolding body_def by (intro adds.keeps_rules)
  show "\<exists>ys. broadcasts w' = broadcasts w @ ys \<and> (\<forall>x \<in> set xs. \<exists>msg. (msg, True) \<in> set ys \<and> Q x msg)"
    if "forE xs body w = (Ok u, w')"
    using that
  proof (induction xs arbitrary: w)
    case (Cons x xs)
    then obtain v w1 where 1: "retry l (capture (\<lambda>_. NoVar) (send x)) w = (Ok v, w1)" "forE xs body w1 = (Ok u, w')"
      by (auto simp: body_def elim!: bindE_OkE)
    obtain ys where ys: "broadcasts w' = broadcasts w1 @ ys" "\<forall>x \<in> set xs. \<exists>msg. (msg, True) \<in> set ys \<and> Q x msg"
      using Cons.IH [OF 1(2)] by blast
    obtain zs msg where "broadcasts w1 = broadcasts w @ zs" "(msg, True) \<in> set zs" "Q x msg"
      using retry_send(2) [OF assms(1,2) 1(1)] by blast
    with ys show ?case by (intro exI [of _ "zs @ ys"]) auto
  qed simp
qed

text \<open>The shape of both operations: read what is unsigned, then send a confirmation for each item.\<close>

lemma read_and_send:
  assumes "retry_laws (retry_Do l)" "silent m" "\<And>x. broadcasts_one (Q x) (send x)"
    and "bindE (retry l (capture var (value_or d m))) (\<lambda>v. forE (items v)
      (\<lambda>x. bindE (retry l (capture (\<lambda>_. NoVar) (send x))) (\<lambda>_. ret ()))) w = (r, w')"
  obtains (stopped) "silently w w'" "\<And>u. r \<noteq> Ok u"
    | (sent) x w1 w2 xs where "silently w w1" "m w1 = (Ok x, w2) \<or> x = d \<and> (\<exists>e. m w1 = (Err e, w2))"
        "submitted w' = submitted w" "broadcasts w' = broadcasts w @ xs"
        "\<forall>y \<in> set xs. \<exists>z \<in> set (items (var x)). Q z (fst y)"
        "\<And>u. r = Ok u \<Longrightarrow> \<forall>z \<in> set (items (var x)). \<exists>msg. (msg, True) \<in> set xs \<and> Q z msg"
  using assms(4) retry_read(1) [OF assms(1,2)]
proof (cases rule: silently.bindE_frameE)
  case (went_on v w2)
  obtain w1 x where read: "silently w w1" "v = var x" "m w1 = (Ok x, w2) \<or> x = d \<and> (\<exists>e. m w1 = (Err e, w2))"
    using retry_read(2) [OF assms(1,2) went_on(1)] by blast
  have "adds (\<lambda>y. \<exists>z \<in> set (items v). Q z (fst y)) w2 w'"
    using keepsD [OF retry_each(1) [OF assms(1,3)] went_on(3)] .
  then obtain xs where xs: "submitted w' = submitted w" "broadcasts w' = broadcasts w @ xs"
    "\<forall>y \<in> set xs. \<exists>z \<in> set (items v). Q z (fst y)"
    using went_on(2) by (auto simp: adds_def silently_def)
  have "\<forall>z \<in> set (items v). \<exists>msg. (msg, True) \<in> set xs \<and> Q z msg" if "r = Ok u" for u
    using retry_each(2) [OF assms(1,3) went_on(3) [unfolded that]] xs(2) went_on(2) by (auto simp: silently_def)
  then show thesis using sent read xs by blast
qed (use stopped in blast)

lemma forE_guarded: "(if xs = [] then ret () else forE xs f) = forE xs f"
  by simp

lemma forE_option:
  "(case x of None \<Rightarrow> ret () | Some b \<Rightarrow> bindE (f b) (\<lambda>_. ret ())) =
    forE (case x of None \<Rightarrow> [] | Some b \<Rightarrow> [b]) (\<lambda>b. bindE (f b) (\<lambda>_. ret ()))"
  by (cases x) (simp_all add: bindE_assoc)

lemma sign_parts:
  "signValidatorSets l pid =
     bindE (retry l (capture ValsetsVar (value_or [] (n_OldestUnsignedValsets (injective l) (CosmosAddr (cfg l))))))
       (\<lambda>v. forE (as_valsets v) (\<lambda>vs. bindE (retry l (capture (\<lambda>_. NoVar)
          (n_SendValsetConfirm (injective l) (EthereumAddr (cfg l)) pid vs))) (\<lambda>_. ret ())))"
  "signNewBatch l pid =
     bindE (retry l (capture BatchVar (value_or None (n_OldestUnsignedTransactionBatch (injective l) (CosmosAddr (cfg l))))))
       (\<lambda>v. forE (case as_batch v of None \<Rightarrow> [] | Some b \<Rightarrow> [b]) (\<lambda>b. bindE (retry l (capture (\<lambda>_. NoVar)
          (n_SendBatchConfirm (injective l) (EthereumAddr (cfg l)) pid b))) (\<lambda>_. ret ())))"
  unfolding signValidatorSets_def signNewBatch_def forE_guarded forE_option by simp_all

text \<open>C17. However a run of \<open>signValidatorSets\<close> ends, it submits nothing to Ethereum and each message it broadcasts
  confirms one of the unsigned validator sets Injective returned (none, if the query failed), with the
  orchestrator's signature over the hash of that set; when it succeeds, a confirmation of each of these sets
  has been accepted.\<close>

theorem signer_confirms_valsets:
  assumes "injective l = network_of q b t" "retry_laws (retry_Do l)" "signValidatorSets l pid w = (r, w')"
  shows "\<exists>sets xs w1 w2. silently w w1 \<and>
    ((\<forall>u. r \<noteq> Ok u) \<and> sets = [] \<or> n_OldestUnsignedValsets (injective l) (CosmosAddr (cfg l)) w1 = (Ok sets, w2) \<or>
     sets = [] \<and> (\<exists>e. n_OldestUnsignedValsets (injective l) (CosmosAddr (cfg l)) w1 = (Err e, w2))) \<and>
    submitted w' = submitted w \<and> broadcasts w' = broadcasts w @ xs \<and>
    (\<forall>x \<in> set xs. \<exists>vs \<in> set sets. valset_confirmed b (EthereumAddr (cfg l)) pid vs (fst x)) \<and>
    (r = Ok () \<longrightarrow> (\<forall>vs \<in> set sets. \<exists>msg. (msg, True) \<in> set xs \<and> valset_confirmed b (EthereumAddr (cfg l)) pid vs msg))"
proof -
  have read: "silent (n_OldestUnsignedValsets (injective l) a)" for a
    unfolding assms(1) by (rule inj.query_silent)
  have send: "broadcasts_one (valset_confirmed b (EthereumAddr (cfg l)) pid vs)
      (n_SendValsetConfirm (injective l) (EthereumAddr (cfg l)) pid vs)" for vs
    unfolding assms(1) network_sel by (rule SendConfirm_signed)
  from assms(2) read send assms(3) [unfolded sign_parts] show ?thesis
  proof (cases rule: read_and_send)
    case stopped
    then show ?thesis by (intro exI [of _ "[]"] exI [of _ w]) (auto simp: silently_def)
  next
    case (sent x w1 w2 xs)
    then show ?thesis by (intro exI [of _ x] exI [of _ xs] exI [of _ w1] exI [of _ w2]) auto
  qed
qed

text \<open>C18. The same for \<open>signNewBatch\<close> and the oldest unsigned batch.\<close>

theorem signer_confirms_batch:
  assumes "injective l = network_of q b t" "retry_laws (retry_Do l)" "signNewBatch l pid w = (r, w')"
  shows "\<exists>batch xs w1 w2. silently w w1 \<and>
    ((\<forall>u. r \<noteq> Ok u) \<and> batch = None \<or>
     n_OldestUnsignedTransactionBatch (injective l) (CosmosAddr (cfg l)) w1 = (Ok batch, w2) \<or>
     batch = None \<and> (\<exists>e. n_OldestUnsignedTransactionBatch (injective l) (CosmosAddr (cfg l)) w1 = (Err e, w2))) \<and>
    submitted w' = submitted w \<and> broadcasts w' = broadcasts w @ xs \<and>
    (\<forall>x \<in> set xs. \<exists>b'. batch = Some b' \<and> batch_confirmed b (EthereumAddr (cfg l)) pid b' (fst x)) \<and>
    (\<forall>b'. r = Ok () \<and> batch = Some b' \<longrightarrow> (\<exists>msg. (msg, True) \<in> set xs \<and> batch_confirmed b (EthereumAddr (cfg l)) pid b' msg))"
proof -
  have read: "silent (n_OldestUnsignedTransactionBatch (injective l) a)" for a
    unfolding assms(1) by (rule inj.query_silent)
  have send: "broadcasts_one (batch_confirmed b (EthereumAddr (cfg l)) pid b')
      (n_SendBatchConfirm (injective l) (EthereumAddr (cfg l)) pid b')" for b'
    unfolding assms(1) network_sel by (rule SendConfirm_signed)
  from assms(2) read send assms(3) [unfolded sign_parts] show ?thesis
  proof (cases rule: read_and_send)
    case stopped
    then show ?thesis by (intro exI [of _ None] exI [of _ "[]"] exI [of _ w]) (auto simp: silently_def)
  next
    case (sent x w1 w2 xs)
    then show ?thesis
      by (intro exI [of _ x] exI [of _ xs] exI [of _ w1] exI [of _ w2]) (auto split: option.splits)
  qed
qed

section \<open>A concrete run\<close>

lemma sample_unsigned:
  "n_OldestUnsignedValsets (injective sample_orchestrator) a w = (Ok [sample_new_valset], w)"
  "n_OldestUnsignedTransactionBatch (injective sample_orchestrator) a w = (Ok (Some sample_batch), w)"
  by (simp_all add: sample_orchestrator_parts network_sel query_defs query_eq sample_queries_def)

lemma sample_confirm_sent:
  "\<exists>w'. n_SendValsetConfirm (injective sample_orchestrator) eth pid sample_new_valset w = (Ok (), w')"
  "\<exists>w'. n_SendBatchConfirm (injective sample_orchestrator) eth pid sample_batch w = (Ok (), w')"
proof -
  have "\<exists>h. EncodeValsetConfirm unary_geth sample_abi pid sample_new_valset = Ok h"
    using EncodeValsetConfirm_eq [OF sample_coder_laws, of sample_new_valset 0 unary_geth pid]
    by (simp add: sample_new_valset_def sample_valset_def)
  then show "\<exists>w'. n_SendValsetConfirm (injective sample_orchestrator) eth pid sample_new_valset w = (Ok (), w')"
    by (auto simp: sample_orchestrator_parts network_sel SendValsetConfirm_def sample_broadcaster_def eth_sign_def
        io_simps broadcast_msg_def Let_def)
  have "\<exists>h. EncodeTxBatchConfirm unary_geth sample_abi pid sample_batch = Ok h"
    using EncodeTxBatchConfirm_eq [OF sample_coder_laws, of sample_batch unary_geth pid]
    by (simp add: sample_batch_def)
  then show "\<exists>w'. n_SendBatchConfirm (injective sample_orchestrator) eth pid sample_batch w = (Ok (), w')"
    by (auto simp: sample_orchestrator_parts network_sel SendBatchConfirm_def sample_broadcaster_def eth_sign_def
        io_simps broadcast_msg_def Let_def)
qed

lemma sample_signs:
  "\<exists>w'. signValidatorSets sample_orchestrator pid w = (Ok (), w')"
  "\<exists>w'. signNewBatch sample_orchestrator pid w = (Ok (), w')"
proof -
  obtain w1 where "n_SendValsetConfirm (injective sample_orchestrator) (EthereumAddr (cfg sample_orchestrator)) pid
      sample_new_valset w = (Ok (), w1)" using sample_confirm_sent(1) by blast
  then have "capture (\<lambda>_. NoVar) (n_SendValsetConfirm (injective sample_orchestrator)
      (EthereumAddr (cfg sample_orchestrator)) pid sample_new_valset) w = (Ok NoVar, w1)" by (simp add: io_simps)
  moreover have "capture ValsetsVar (value_or [] (n_OldestUnsignedValsets (injective sample_orchestrator)
      (CosmosAddr (cfg sample_orchestrator)))) w = (Ok (ValsetsVar [sample_new_valset]), w)"
    by (simp add: io_simps value_or_def sample_unsigned)
  ultimately show "\<exists>w'. signValidatorSets sample_orchestrator pid w = (Ok (), w')"
    by (simp add: sign_parts bindE_simp sample_retry io_simps)
  obtain w2 where "n_SendBatchConfirm (injective sample_orchestrator) (EthereumAddr (cfg sample_orchestrator)) pid
      sample_batch w = (Ok (), w2)" using sample_confirm_sent(2) by blast
  then have "capture (\<lambda>_. NoVar) (n_SendBatchConfirm (injective sample_orchestrator)
      (EthereumAddr (cfg sample_orchestrator)) pid sample_batch) w = (Ok NoVar, w2)" by (simp add: io_simps)
  moreover have "capture BatchVar (value_or None (n_OldestUnsignedTransactionBatch (injective sample_orchestrator)
      (CosmosAddr (cfg sample_orchestrator)))) w = (Ok (BatchVar (Some sample_batch)), w)"
    by (simp add: io_simps value_or_def sample_unsigned)
  ultimately show "\<exists>w'. signNewBatch sample_orchestrator pid w = (Ok (), w')"
    by (simp add: sign_parts bindE_simp sample_retry io_simps)
qed

theorem signer_confirms_valsets_witness:
  "\<exists>w' msg. signValidatorSets sample_orchestrator 77 (sample_world 0) = (Ok (), w') \<and>
     (msg, True) \<in> set (broadcasts w') \<and> valset_confirmed sample_broadcaster 2 77 sample_new_valset msg"
proof -
  obtain w' where run: "signValidatorSets sample_orchestrator 77 (sample_world 0) = (Ok (), w')"
    using sample_signs by blast
  have "EthereumAddr (cfg sample_orchestrator) = 2" by (simp add: sample_parts)
  with signer_confirms_valsets [OF sample_orchestrator_parts(1,3) run] run show ?thesis
    by (auto simp: sample_unsigned)
qed

theorem signer_confirms_batch_witness:
  "\<exists>w' msg. signNewBatch sample_orchestrator 77 (sample_world 0) = (Ok (), w') \<and>
     (msg, True) \<in> set (broadcasts w') \<and> batch_confirmed sample_broadcaster 2 77 sample_batch msg"
proof -
  obtain w' where run: "signNewBatch sample_orchestrator 77 (sample_world 0) = (Ok (), w')"
    using sample_signs by blast
  have "EthereumAddr (cfg sample_orchestrator) = 2" by (simp add: sample_parts)
  with signer_confirms_batch [OF sample_orchestrator_parts(1,3) run] run show ?thesis
    by (auto simp: sample_unsigned)
qed

end
