(* ===== verification/PriceFeed.thy ===== *)
theory PriceFeed
  imports World GoFloat
begin

text \<open>
  \<open>orchestrator/pricefeed/coingecko.go\<close>: the price of a token in dollars, read from an HTTP endpoint. The
  parser and printer of \<open>net/url\<close>, the HTTP client and the JSON decoder are arguments; what the code
  does with a response, whatever it contains, is modelled in full.
\<close>

definition maxRespBytes :: nat where
  "maxRespBytes = 10 * 1024 * 1024"

definition zeroPrice :: rat where
  "zeroPrice = 0"

text \<open>What \<open>json.Unmarshal\<close> stores in an \<open>interface{}\<close>.\<close>

datatype json =
    JNull
  | JBool bool
  | JNumber rat
  | JString string
  | JArray "json list"
  | JObject "string \<Rightarrow> json option"

text \<open>A response body: the bytes the server sends, and the error that ends them early, if any.\<close>

record http_body =
  hb_Data :: bytes
  hb_Err :: "goerr option"

record url =
  u_Base :: string
  u_Path :: string
  u_RawQuery :: "(string \<times> string) list"

record 'e http_lib =
  url_Parse :: "string \<Rightarrow> goerr + url"
  url_ParseRequestURI :: "string \<Rightarrow> goerr + url"
  url_String :: "url \<Rightarrow> string"
  path_Join :: "string list \<Rightarrow> string"
  http_NewRequest :: "string \<Rightarrow> goerr + string"
  http_Do :: "string \<Rightarrow> ('e, http_body) libfun"
  json_Unmarshal :: "bytes \<Rightarrow> goerr + json"

record feed_Config =
  BaseURL :: string

record CoingeckoPriceFeed =
  fc_config :: feed_Config
  fc_interval :: int

definition checkCoingeckoConfig :: "feed_Config option \<Rightarrow> feed_Config" where
  "checkCoingeckoConfig cfg =
     (let c = (case cfg of None \<Rightarrow> \<lparr>BaseURL = []\<rparr> | Some c \<Rightarrow> c)
      in if BaseURL c = [] then c\<lparr>BaseURL := ''https://api.coingecko.com/api/v3''\<rparr> else c)"

definition NewCoingeckoPriceFeed :: "int \<Rightarrow> feed_Config option \<Rightarrow> CoingeckoPriceFeed" where
  "NewCoingeckoPriceFeed interval endpointConfig =
     \<lparr>fc_config = checkCoingeckoConfig endpointConfig, fc_interval = interval\<rparr>"

definition urlJoin :: "'e http_lib \<Rightarrow> string \<Rightarrow> string list \<Rightarrow> string res" where
  "urlJoin H baseURL segments = (case url_Parse H baseURL of
      Inl e \<Rightarrow> Panic e
    | Inr u \<Rightarrow> Ok (url_String H (u\<lparr>u_Path := path_Join H (u_Path u # segments)\<rparr>)))"

text \<open>\<open>ioutil.ReadAll\<close> of an \<open>io.LimitReader\<close>: an error beyond the limit is not seen.\<close>

definition read_limited :: "nat \<Rightarrow> http_body \<Rightarrow> goerr + bytes" where
  "read_limited limit b =
     (if limit \<le> length (hb_Data b) then Inr (take limit (hb_Data b))
      else (case hb_Err b of Some e \<Rightarrow> Inl e | None \<Rightarrow> Inr (hb_Data b)))"

text \<open>The price in a decoded response. A token whose price is not a number is a failed type assertion.\<close>

definition price_in :: "string \<Rightarrow> json \<Rightarrow> rat res" where
  "price_in token f = (case f of
      JObject m \<Rightarrow> (case m token of
          None \<Rightarrow> Err (ErrorNew ''failed to get contract address'')
        | Some JNull \<Rightarrow> Err (ErrorNew ''failed to get contract address'')
        | Some (JObject n) \<Rightarrow> (case n ''usd'' of
              Some (JNumber p) \<Rightarrow> Ok p
            | _ \<Rightarrow> Panic (ErrorNew ''interface conversion''))
        | Some _ \<Rightarrow> Err (ErrorNew ''failed to cast value type: map[string]interface{}''))
    | _ \<Rightarrow> Err (ErrorNew ''failed to cast response type: map[string]interface{}''))"

definition token_key :: "geth_lib \<Rightarrow> address \<Rightarrow> string" where
  "token_key G erc20Contract = ToLower (AddressHex G erc20Contract)"

definition QueryUSDPrice ::
  "geth_lib \<Rightarrow> 'e http_lib \<Rightarrow> CoingeckoPriceFeed \<Rightarrow> address \<Rightarrow> ('e world, rat) io" where
  "QueryUSDPrice G H cp erc20Contract =
     bindE (pure_call (urlJoin H (BaseURL (fc_config cp)) [''simple'', ''token_price'', ''ethereum''])) (\<lambda>joined.
     (case url_ParseRequestURI H joined of
        Inl e \<Rightarrow> fatal
      | Inr u \<Rightarrow>
          (let reqURL = url_String H (u\<lparr>u_RawQuery :=
                 [(''contract_addresses'', token_key G erc20Contract), (''vs_currencies'', ''usd'')]\<rparr>)
           in (case http_NewRequest H reqURL of
                 Inl e \<Rightarrow> fatal
               | Inr req \<Rightarrow>
                   bindE (wrapE (''failed to fetch price from '' @ reqURL) (lib (http_Do H req))) (\<lambda>resp.
                   (case read_limited maxRespBytes resp of
                      Inl e \<Rightarrow> throw (Wrapped (''failed to read response body from '' @ reqURL) e)
                    | Inr respBody \<Rightarrow>
                        (case json_Unmarshal H respBody of
                           Inl e \<Rightarrow> throw e
                         | Inr f \<Rightarrow> pure_call (price_in (token_key G erc20Contract) f))))))))"

definition CheckFeeThreshold ::
  "geth_lib \<Rightarrow> decimal_lib \<Rightarrow> 'e http_lib \<Rightarrow> CoingeckoPriceFeed \<Rightarrow> address \<Rightarrow> int \<Rightarrow> rat \<Rightarrow> ('e world, bool) io" where
  "CheckFeeThreshold G D H cp erc20Contract totalFee minFeeInUSD =
     bindE (attempt (QueryUSDPrice G H cp erc20Contract)) (\<lambda>r. case r of
        Inl _ \<Rightarrow> ret False
      | Inr tokenPriceInUSD \<Rightarrow>
          (let totalFeeInUSDDec = dec_Mul D (dec_NewFromBigInt D totalFee (- 18)) (dec_NewFromFloat D tokenPriceInUSD)
           in ret (dec_LessThan D (dec_NewFromFloat D minFeeInUSD) totalFeeInUSDDec)))"

section \<open>What the feed answers\<close>

text \<open>Only the outside world is touched.\<close>

lemma QueryUSDPrice_keeps:
  "keeps same_broadcasts (QueryUSDPrice G H cp a)" "keeps same_submitted (QueryUSDPrice G H cp a)"
  unfolding QueryUSDPrice_def Let_def
  by (intro same_broadcasts.keeps_rules lib_keeps, intro same_submitted.keeps_rules lib_keeps)

text \<open>A feed that works up to the response, for the statements about responses.\<close>

definition answers :: "geth_lib \<Rightarrow> 'e http_lib \<Rightarrow> CoingeckoPriceFeed \<Rightarrow> address \<Rightarrow> 'e \<Rightarrow> json \<Rightarrow> 'e \<Rightarrow> bool" where
  "answers G H cp a o1 f o2 \<longleftrightarrow> (\<exists>joined u req resp body.
     urlJoin H (BaseURL (fc_config cp)) [''simple'', ''token_price'', ''ethereum''] = Ok joined \<and>
     url_ParseRequestURI H joined = Inr u \<and>
     http_NewRequest H (url_String H (u\<lparr>u_RawQuery :=
       [(''contract_addresses'', token_key G a), (''vs_currencies'', ''usd'')]\<rparr>)) = Inr req \<and>
     http_Do H req o1 = (Inr resp, o2) \<and> read_limited maxRespBytes resp = Inr body \<and>
     json_Unmarshal H body = Inr f)"

lemma QueryUSDPrice_answered:
  assumes "answers G H cp a (outside w) f o'"
  shows "QueryUSDPrice G H cp a w = (price_in (token_key G a) f, w\<lparr>outside := o'\<rparr>)"
  using assms by (auto simp: answers_def QueryUSDPrice_def io_simps Let_def)

lemma QueryUSDPrice_OkD:
  assumes "QueryUSDPrice G H cp a w = (Ok p, w')"
  shows "\<exists>f o'. answers G H cp a (outside w) f o' \<and> w' = w\<lparr>outside := o'\<rparr> \<and> price_in (token_key G a) f = Ok p"
  using assms
  by (auto simp: QueryUSDPrice_def answers_def io_simps Let_def split: sum.splits prod.splits res.splits)

lemma price_in_Ok_iff:
  "price_in token f = Ok p \<longleftrightarrow> (\<exists>m n. f = JObject m \<and> m token = Some (JObject n) \<and> n ''usd'' = Some (JNumber p))"
  by (auto simp: price_in_def split: json.splits option.splits)

text \<open>The feed reports a price exactly if the response is a JSON object with an object for the token's address
  in lower case, in which \<open>usd\<close> is a number, and that number is the price.\<close>

theorem QueryUSDPrice_iff:
  "(\<exists>w'. QueryUSDPrice G H cp a w = (Ok p, w')) \<longleftrightarrow>
   (\<exists>m n o'. answers G H cp a (outside w) (JObject m) o' \<and> m (token_key G a) = Some (JObject n) \<and>
      n ''usd'' = Some (JNumber p))"
  (is "?reports \<longleftrightarrow> ?contains")
proof
  assume ?reports
  then obtain f o' where "answers G H cp a (outside w) f o'" "price_in (token_key G a) f = Ok p"
    using QueryUSDPrice_OkD by blast
  then show ?contains unfolding price_in_Ok_iff by blast
next
  assume ?contains
  then obtain m o' where "answers G H cp a (outside w) (JObject m) o'" "price_in (token_key G a) (JObject m) = Ok p"
    unfolding price_in_Ok_iff by blast
  then show ?reports using QueryUSDPrice_answered by metis
qed

end
