(* ===== verification/BatchCreator.thy ===== *)
theory BatchCreator
  imports OrchestratorCore PriceFeed
begin

text \<open>
  \<open>orchestrator/batch_creator.go\<close>: the batch creator asks Injective to build a batch of withdrawals for each
  token whose collected fees are worth the configured minimum.
\<close>

definition getTokenDenom :: "'e Orchestrator \<Rightarrow> address \<Rightarrow> string" where
  "getTokenDenom l tokenAddr = (case ERC20ContractMapping (cfg l) tokenAddr of
      Some cosmosDenom \<Rightarrow> cosmosDenom
    | None \<Rightarrow> PeggyDenomString (o_sdk l) tokenAddr)"

definition checkMinBatchFee ::
  "'e Orchestrator \<Rightarrow> BatchFees \<Rightarrow> address \<Rightarrow> u8 \<Rightarrow> ('e world, bool) io" where
  "checkMinBatchFee l fee tokenAddress tokenDecimals =
     (if MinBatchFeeUSD (cfg l) = 0 then ret True
      else bindE (attempt (priceFeed l tokenAddress)) (\<lambda>r. case r of
             Inl _ \<Rightarrow> ret False
           | Inr tokenPriceUSDFloat \<Rightarrow>
               (let minFeeUSD = dec_NewFromFloat (o_dec l) (MinBatchFeeUSD (cfg l));
                    tokenPriceUSD = dec_NewFromFloat (o_dec l) tokenPriceUSDFloat;
                    totalFeeUSD = dec_Mul (o_dec l)
                      (dec_NewFromBigInt (o_dec l) (bf_TotalFees fee) (- 1 * uint tokenDecimals)) tokenPriceUSD
                in if dec_LessThan (o_dec l) totalFeeUSD minFeeUSD then ret False else ret True)))"

definition requestTokenBatch :: "'e Orchestrator \<Rightarrow> BatchFees \<Rightarrow> ('e world, unit) io" where
  "requestTokenBatch l fee =
     (let tokenAddress = HexToAddress (o_geth l) (bf_Token fee);
          tokenDenom = getTokenDenom l tokenAddress
      in bindE (attempt (e_TokenDecimals (ethereum l) tokenAddress)) (\<lambda>r. case r of
           Inl _ \<Rightarrow> ret ()
         | Inr tokenDecimals \<Rightarrow>
             bindE (checkMinBatchFee l fee tokenAddress tokenDecimals) (\<lambda>enough.
               if \<not> enough then ret ()
               else bindE (attempt (n_SendRequestBatch (injective l) tokenDenom)) (\<lambda>_. ret ()))))"

definition getUnbatchedTokenFees :: "'e Orchestrator \<Rightarrow> ('e world, BatchFees list) io" where
  "getUnbatchedTokenFees l =
     bindE (retry l (capture FeesVar (n_UnbatchedTokensWithFees (injective l)))) (\<lambda>v. ret (as_fees v))"

definition requestTokenBatches :: "'e Orchestrator \<Rightarrow> ('e world, unit) io" where
  "requestTokenBatches l = bindE (attempt (getUnbatchedTokenFees l)) (\<lambda>r. case r of
      Inl _ \<Rightarrow> ret ()
    | Inr fees \<Rightarrow> if fees = [] then ret () else forE fees (requestTokenBatch l))"

definition runBatchCreator ::
  "'e Orchestrator \<Rightarrow> select_case list \<Rightarrow> 'e world \<Rightarrow> unit res \<times> int list \<times> 'e world" where
  "runBatchCreator s cs w =
     RunLoop (\<lambda>w. case o_now s (outside w) of (t, o') \<Rightarrow> (t, w\<lparr>outside := o'\<rparr>))
       defaultLoopDur (requestTokenBatches s) cs w"

section \<open>What is requested\<close>

text \<open>The fees of a token are worth the minimum: none is configured, or the price feed gave a price at which they are.\<close>

definition worth_batching :: "'e Orchestrator \<Rightarrow> BatchFees \<Rightarrow> bool" where
  "worth_batching l fee \<longleftrightarrow> (let token = HexToAddress (o_geth l) (bf_Token fee) in
     \<exists>decimals w1 w2. e_TokenDecimals (ethereum l) token w1 = (Ok decimals, w2) \<and>
       (MinBatchFeeUSD (cfg l) = 0 \<or>
        (\<exists>price w3. priceFeed l token w2 = (Ok price, w3) \<and>
           dec_NewFromFloat (o_dec l) (MinBatchFeeUSD (cfg l)) \<le>
             of_int (bf_TotalFees fee) / 10 ^ unat decimals * dec_NewFromFloat (o_dec l) price)))"

definition feed_silent :: "'e Orchestrator \<Rightarrow> bool" where
  "feed_silent l \<longleftrightarrow> (\<forall>a. keeps silently (priceFeed l a))"

lemma checkMinBatchFee_silent: "feed_silent l \<Longrightarrow> keeps silently (checkMinBatchFee l fee a d)"
  unfolding checkMinBatchFee_def Let_def feed_silent_def by (intro silently.keeps_rules) auto

lemma total_fee:
  assumes "decimal_laws D"
  shows "dec_Mul D (dec_NewFromBigInt D n (- 1 * uint decimals)) p = of_int n / 10 ^ unat decimals * p"
proof -
  have "(10::rat) powi (- int k) = 1 / 10 ^ k" for k by (simp add: power_int_minus divide_inverse)
  from this [of "unat decimals"] have "(10::rat) powi (- 1 * uint decimals) = 1 / 10 ^ unat decimals" by simp
  then show ?thesis unfolding decimal_laws_eq [OF assms] by simp
qed

lemma checkMinBatchFee_OkD:
  assumes "decimal_laws (o_dec l)" "checkMinBatchFee l fee token decimals w = (Ok True, w')"
  shows "MinBatchFeeUSD (cfg l) = 0 \<or> (\<exists>price w1. priceFeed l token w = (Ok price, w1) \<and>
    dec_NewFromFloat (o_dec l) (MinBatchFeeUSD (cfg l)) \<le>
      of_int (bf_TotalFees fee) / 10 ^ unat decimals * dec_NewFromFloat (o_dec l) price)"
proof (cases "MinBatchFeeUSD (cfg l) = 0")
  case False
  note total = total_fee [OF assms(1)]
  note less = decimal_laws_eq(3) [OF assms(1)]
  obtain r w1 where "attempt (priceFeed l token) w = (Ok r, w1)"
    "(case r of Inl _ \<Rightarrow> ret False | Inr price \<Rightarrow> ret (\<not> of_int (bf_TotalFees fee) / 10 ^ unat decimals *
       dec_NewFromFloat (o_dec l) price < dec_NewFromFloat (o_dec l) (MinBatchFeeUSD (cfg l)))) w1 = (Ok True, w')"
    using assms(2) False unfolding checkMinBatchFee_def Let_def total less
    by (auto elim!: bindE_OkE split: sum.splits if_splits)
  then show ?thesis by (auto elim!: attempt_OkE simp: not_less)
qed simp

text \<open>The requests a run for the fees \<open>fees\<close> may make.\<close>

definition request_for :: "'e Orchestrator \<Rightarrow> BatchFees list \<Rightarrow> cosmos_msg \<times> bool \<Rightarrow> bool" where
  "request_for l fees x \<longleftrightarrow> (\<exists>fee \<in> set fees. worth_batching l fee \<and>
     (\<exists>orch. fst x = RequestBatch (getTokenDenom l (HexToAddress (o_geth l) (bf_Token fee))) orch))"

lemma requestTokenBatch_adds:
  assumes "injective l = network_of q b t" "ethereum l = eth_of n" "feed_silent l" "decimal_laws (o_dec l)"
    and "fee \<in> set fees"
  shows "keeps (adds (request_for l fees)) (requestTokenBatch l fee)"
proof -
  let ?token = "HexToAddress (o_geth l) (bf_Token fee)"
  have send: "keeps (adds (request_for l fees)) (n_SendRequestBatch (injective l) (getTokenDenom l ?token))"
    if "worth_batching l fee"
    unfolding assms(1) by (rule broadcasts_one_adds [OF inj.request_one]) (use that assms(5) in \<open>auto simp: request_for_def\<close>)
  have dec: "keeps (adds (request_for l fees)) (attempt (e_TokenDecimals (ethereum l) ?token))"
    unfolding assms(2) by (intro adds.keeps_rules silently_adds silent_silently eth_net.read_silent)
  have fee: "keeps (adds (request_for l fees)) (checkMinBatchFee l fee ?token decimals)" for decimals
    by (intro silently_adds checkMinBatchFee_silent assms(3))
  have enough: "worth_batching l fee"
    if "e_TokenDecimals (ethereum l) ?token w1 = (Ok decimals, w2)"
      "checkMinBatchFee l fee ?token decimals w2 = (Ok True, w3)" for w1 w2 w3 decimals
    using checkMinBatchFee_OkD [OF assms(4) that(2)] that(1) unfolding worth_batching_def Let_def by blast
  show ?thesis
  proof (rule keepsI)
    fix w r w'
    assume "requestTokenBatch l fee w = (r, w')"
    then show "adds (request_for l fees) w w'"
      unfolding requestTokenBatch_def Let_def using dec
    proof (cases rule: adds.bindE_frameE)
      case (went_on x w1)
      show ?thesis
      proof (cases x)
        case (Inr decimals)
        then have "e_TokenDecimals (ethereum l) ?token w = (Ok decimals, w1)"
          using went_on(1) by (auto elim!: attempt_OkE)
        from went_on(3) [unfolded Inr sum.case] fee have "adds (request_for l fees) w1 w'"
        proof (cases rule: adds.bindE_frameE)
          case (went_on yes w2)
          have "worth_batching l fee" if yes
            using enough \<open>e_TokenDecimals (ethereum l) ?token w = (Ok decimals, w1)\<close> went_on(1) that by simp
          then have "keeps (adds (request_for l fees)) (if \<not> yes then ret ()
              else bindE (attempt (n_SendRequestBatch (injective l) (getTokenDenom l ?token))) (\<lambda>_. ret ()))"
            by (intro adds.keeps_rules send) simp_all
          then show ?thesis using keepsD went_on(2,3) adds.P_trans by metis
        qed
        then show ?thesis using went_on(2) adds.P_trans by blast
      qed (use went_on in \<open>simp add: io_simps\<close>)
    qed
  qed
qed

lemma getUnbatchedTokenFees_silent:
  assumes "injective l = network_of q b t" "retry_laws (retry_Do l)"
  shows "keeps silently (getUnbatchedTokenFees l)"
  unfolding getUnbatchedTokenFees_def assms(1)
  by (intro silently.keeps_rules silently.keeps_retry silently.keeps_capture assms(2) silent_silently inj.query_silent)


text \<open>C22. With a minimum configured, and the decimals and the price of the token known, \<open>requestTokenBatch\<close> sends
  its request exactly if the fees, in whole tokens, times the price are at least the minimum; whether the
  request is then accepted or refused, it returns normally.\<close>

theorem requestTokenBatch_decides:
  assumes "decimal_laws (o_dec l)" "MinBatchFeeUSD (cfg l) \<noteq> 0"
    and "e_TokenDecimals (ethereum l) (HexToAddress (o_geth l) (bf_Token fee)) w = (Ok decimals, w1)"
    and "priceFeed l (HexToAddress (o_geth l) (bf_Token fee)) w1 = (Ok price, w2)"
    and "injective l = network_of q b t"
  shows "\<exists>w'. requestTokenBatch l fee w = (Ok (), w') \<and>
    (if of_int (bf_TotalFees fee) / 10 ^ unat decimals * dec_NewFromFloat (o_dec l) price
        < dec_NewFromFloat (o_dec l) (MinBatchFeeUSD (cfg l))
     then w' = w2
     else \<exists>orch ok. broadcasts w' = broadcasts w2 @
       [(RequestBatch (getTokenDenom l (HexToAddress (o_geth l) (bf_Token fee))) orch, ok)])"
proof -
  let ?token = "HexToAddress (o_geth l) (bf_Token fee)"
  let ?less = "of_int (bf_TotalFees fee) / 10 ^ unat decimals * dec_NewFromFloat (o_dec l) price
        < dec_NewFromFloat (o_dec l) (MinBatchFeeUSD (cfg l))"
  have "checkMinBatchFee l fee ?token decimals w1 = (Ok (\<not> ?less), w2)"
    unfolding checkMinBatchFee_def total_fee [OF assms(1)] decimal_laws_eq(3) [OF assms(1)] Let_def
    using assms(2,4) by (simp add: io_simps)
  then have run: "requestTokenBatch l fee w = (if ?less then (Ok (), w2)
      else bindE (attempt (n_SendRequestBatch (injective l) (getTokenDenom l ?token))) (\<lambda>_. ret ()) w2)"
    using assms(3) by (simp add: requestTokenBatch_def io_simps Let_def)
  have "\<exists>w' orch ok. bindE (attempt (n_SendRequestBatch (injective l) d)) (\<lambda>_. ret ()) w2 = (Ok (), w') \<and>
      broadcasts w' = broadcasts w2 @ [(RequestBatch d orch, ok)]" for d
    unfolding assms(5) network_sel SendRequestBatch_def broadcast_msg_def
    by (auto simp: io_simps Let_def split: prod.splits sum.splits)
  then show ?thesis using run by auto
qed

text \<open>If the feed's answer for the first token has an entry without a \<open>usd\<close> price, the type assertion on it
  panics and the loop of the batch creator ends with an error; the other tokens are not looked at.\<close>

theorem missing_price_stops_loop:
  assumes "priceFeed l = QueryUSDPrice G H cp" "MinBatchFeeUSD (cfg l) \<noteq> 0"
    and "o_now l (outside w) = (start, o1)"
    and "getUnbatchedTokenFees l (w\<lparr>outside := o1\<rparr>) = (Ok (fee # fees), w1)"
    and "e_TokenDecimals (ethereum l) (HexToAddress (o_geth l) (bf_Token fee)) w1 = (Ok decimals, w2)"
    and "answers G H cp (HexToAddress (o_geth l) (bf_Token fee)) (outside w2) (JObject m) o2"
    and "m (token_key G (HexToAddress (o_geth l) (bf_Token fee))) = Some (JObject entry)" "entry ''usd'' = None"
  shows "\<exists>e. runBatchCreator l (TimerFired # cs) w = (Err e, [], w2\<lparr>outside := o2\<rparr>)"
proof -
  let ?token = "HexToAddress (o_geth l) (bf_Token fee)"
  have "priceFeed l ?token w2 = (Panic (ErrorNew ''interface conversion''), w2\<lparr>outside := o2\<rparr>)"
    using QueryUSDPrice_answered [OF assms(6)] assms(1,7,8) by (simp add: price_in_def)
  then have "requestTokenBatch l fee w1 = (Panic (ErrorNew ''interface conversion''), w2\<lparr>outside := o2\<rparr>)"
    using assms(2,5) by (simp add: requestTokenBatch_def checkMinBatchFee_def Let_def io_simps)
  then have "requestTokenBatches l (w\<lparr>outside := o1\<rparr>) = (Panic (ErrorNew ''interface conversion''), w2\<lparr>outside := o2\<rparr>)"
    using assms(4) by (simp add: requestTokenBatches_def io_simps)
  then show ?thesis using assms(3) by (simp add: runBatchCreator_def)
qed

section \<open>Concrete runs\<close>

text \<open>A feed that answers every request with the same JSON value, and an orchestrator with a minimum fee.\<close>

definition constant_http :: "json \<Rightarrow> nat http_lib" where
  "constant_http f = \<lparr>url_Parse = (\<lambda>s. Inr \<lparr>u_Base = s, u_Path = [], u_RawQuery = []\<rparr>),
     url_ParseRequestURI = (\<lambda>s. Inr \<lparr>u_Base = s, u_Path = [], u_RawQuery = []\<rparr>),
     url_String = u_Base, path_Join = concat, http_NewRequest = Inr,
     http_Do = (\<lambda>_ k. (Inr \<lparr>hb_Data = [], hb_Err = None\<rparr>, k)), json_Unmarshal = (\<lambda>_. Inr f)\<rparr>"

definition sample_feed :: CoingeckoPriceFeed where
  "sample_feed = NewCoingeckoPriceFeed 10 None"

definition sample_creator :: "json \<Rightarrow> nat Orchestrator" where
  "sample_creator f = sample_orchestrator
     \<lparr>cfg := sample_config\<lparr>MinBatchFeeUSD := 1, RelayerMode := True\<rparr>, priceFeed := QueryUSDPrice unary_geth (constant_http f) sample_feed\<rparr>"

definition priced :: "rat \<Rightarrow> json" where
  "priced p = JObject (\<lambda>_. Some (JObject [''usd'' \<mapsto> JNumber p]))"

definition unpriced :: json where
  "unpriced = JObject (\<lambda>_. Some (JObject Map.empty))"

lemma sample_answers: "answers unary_geth (constant_http f) sample_feed a k f k"
  by (auto simp: answers_def urlJoin_def constant_http_def read_limited_def maxRespBytes_def)

lemma sample_creator_parts:
  "injective (sample_creator f) = network_of sample_queries sample_broadcaster sample_rpc"
  "ethereum (sample_creator f) = eth_of sample_eth"
  "retry_laws (retry_Do (sample_creator f))" "decimal_laws (o_dec (sample_creator f))"
  "priceFeed (sample_creator f) = QueryUSDPrice unary_geth (constant_http f) sample_feed"
  "MinBatchFeeUSD (cfg (sample_creator f)) = 1" "o_now (sample_creator f) = (\<lambda>k. (int k, k))"
  "o_dec (sample_creator f) = exact_decimals" "retry_Do (sample_creator f) = simple_retry"
  "maxAttempts (sample_creator f) = 10" "o_geth (sample_creator f) = unary_geth"
  by (simp_all add: sample_creator_def sample_parts simple_retry_laws exact_decimals_laws)

lemma sample_creator_reads:
  "getUnbatchedTokenFees (sample_creator f) w = (Ok sample_fees, w)"
  "e_TokenDecimals (ethereum (sample_creator f)) a w = (Ok 18, w)"
proof -
  have "capture FeesVar (n_UnbatchedTokensWithFees (injective (sample_creator f))) w = (Ok (FeesVar sample_fees), w)"
    by (simp add: sample_creator_parts io_simps network_sel query_defs query_eq sample_queries_def)
  then have "retry (sample_creator f) (capture FeesVar (n_UnbatchedTokensWithFees (injective (sample_creator f)))) w =
      (Ok (FeesVar sample_fees), w)"
    by (simp add: retry_def sample_creator_parts numeral_eq_Suc)
  then show "getUnbatchedTokenFees (sample_creator f) w = (Ok sample_fees, w)"
    by (simp add: getUnbatchedTokenFees_def io_simps)
  show "e_TokenDecimals (ethereum (sample_creator f)) a w = (Ok 18, w)"
    by (simp add: sample_creator_parts io_simps eth_of_def TokenDecimals_def sample_eth_def sample_node_def
        big_SetBytes_def big_Uint64_def)
qed

lemma sample_price_read:
  "priceFeed (sample_creator (priced p)) a w = (Ok p, w)"
  using QueryUSDPrice_answered [OF sample_answers, of "priced p" a w]
  by (simp add: sample_creator_parts priced_def price_in_def)

lemma sample_creator_requests:
  "\<exists>w'. requestTokenBatches (sample_creator (priced (10 ^ 16))) (sample_world 0) = (Ok (), w') \<and> broadcasts w' \<noteq> []"
proof -
  let ?l = "sample_creator (priced (10 ^ 16))" and ?fee = "\<lparr>bf_Token = ''t'', bf_TotalFees = 100\<rparr>"
  have "\<not> dec_LessThan exact_decimals (dec_Mul exact_decimals (dec_NewFromBigInt exact_decimals 100 (- 1 * uint (18::u8)))
      (dec_NewFromFloat exact_decimals (10 ^ 16))) (dec_NewFromFloat exact_decimals 1)"
    unfolding total_fee [OF exact_decimals_laws] by (simp add: exact_decimals_def)
  then have "checkMinBatchFee ?l ?fee a 18 w = (Ok True, w)" for a w
    unfolding checkMinBatchFee_def Let_def by (simp add: sample_creator_parts sample_price_read [unfolded sample_creator_parts] io_simps)
  then have "requestTokenBatch ?l ?fee w = bindE (attempt (n_SendRequestBatch (injective ?l)
      (getTokenDenom ?l (HexToAddress (o_geth ?l) ''t'')))) (\<lambda>_. ret ()) w" for w
    by (simp add: requestTokenBatch_def sample_creator_reads(2) io_simps Let_def)
  then show ?thesis
    by (simp add: requestTokenBatches_def sample_creator_reads(1) sample_fees_def io_simps sample_creator_parts(1)
        network_sel SendRequestBatch_def broadcast_msg_def sample_broadcaster_def Let_def)
qed

theorem requestTokenBatch_decides_witness:
  "\<exists>w'. requestTokenBatch (sample_creator (priced (10 ^ 16))) \<lparr>bf_Token = ''t'', bf_TotalFees = 100\<rparr> (sample_world 0) =
     (Ok (), w') \<and> broadcasts w' \<noteq> []"
  using requestTokenBatch_decides
    [OF sample_creator_parts(4) _ sample_creator_reads(2) sample_price_read sample_creator_parts(1),
      of "10 ^ 16" "\<lparr>bf_Token = ''t'', bf_TotalFees = 100\<rparr>" "sample_world 0"]
  by (auto simp: sample_creator_parts exact_decimals_def)


theorem missing_price_stops_loop_witness:
  "\<exists>e w'. runBatchCreator (sample_creator unpriced) [TimerFired, TimerFired] (sample_world 0) = (Err e, [], w')"
proof -
  have "o_now (sample_creator unpriced) (outside (sample_world 0)) = (0, 0)"
    by (simp add: sample_creator_parts sample_world_def)
  moreover have "getUnbatchedTokenFees (sample_creator unpriced) (sample_world 0\<lparr>outside := 0\<rparr>) =
      (Ok [\<lparr>bf_Token = ''t'', bf_TotalFees = 100\<rparr>], sample_world 0\<lparr>outside := 0\<rparr>)"
    by (simp add: sample_creator_reads sample_fees_def)
  moreover note sample_creator_reads(2)
  moreover have "answers unary_geth (constant_http unpriced) sample_feed a k (JObject (\<lambda>_. Some (JObject Map.empty))) k" for a k
    using sample_answers [of unpriced] by (simp add: unpriced_def)
  ultimately show ?thesis
    using missing_price_stops_loop [OF sample_creator_parts(5), of unpriced "sample_world 0" 0 0 "\<lparr>bf_Token = ''t'', bf_TotalFees = 100\<rparr>"
        "[]" "sample_world 0\<lparr>outside := 0\<rparr>" 18 "sample_world 0\<lparr>outside := 0\<rparr>" "\<lambda>_. Some (JObject Map.empty)" 0 Map.empty "[TimerFired]"]
    by (force simp: sample_creator_parts)
qed

end
