(* ===== verification/EthUtil.thy ===== *)
theory EthUtil
  imports BridgeTypes
begin

text \<open>
  \<open>orchestrator/ethereum/util/peggy.go\<close>: the order of addresses, the validation of address strings, and
  the two representations of a token, an ERC20 and a coin of the Injective chain. The parse of a
  denomination is proved to undo its construction.
\<close>

section \<open>Addresses\<close>

text \<open>\<open>bytes.Compare(e, o) == -1\<close>: lexicographic on the bytes, a proper prefix being less.\<close>

fun EthAddrLessThan :: "string \<Rightarrow> string \<Rightarrow> bool" where
  "EthAddrLessThan e [] = False"
| "EthAddrLessThan [] (c # cs) = True"
| "EthAddrLessThan (b # bs) (c # cs) =
     (if b = c then EthAddrLessThan bs cs else (of_char b :: nat) < of_char c)"

lemma EthAddrLessThan_asym: "EthAddrLessThan a b \<Longrightarrow> \<not> EthAddrLessThan b a"
  by (induction a b rule: EthAddrLessThan.induct) (auto split: if_splits)

lemma EthAddrLessThan_total: "a \<noteq> b \<Longrightarrow> EthAddrLessThan a b \<or> EthAddrLessThan b a"
proof (induction a b rule: EthAddrLessThan.induct)
  case (1 e)
  then show ?case by (cases e) auto
next
  case (3 b bs c cs)
  have "(of_char b :: nat) < of_char c \<or> (of_char c :: nat) < of_char b" if "b \<noteq> c"
    using that by (metis linorder_less_linear of_char_eq_iff)
  then show ?case using 3 by (cases "b = c") auto
qed simp

lemma EthAddrLessThan_trans: "EthAddrLessThan a b \<Longrightarrow> EthAddrLessThan b c \<Longrightarrow> EthAddrLessThan a c"
proof (induction a b arbitrary: c rule: EthAddrLessThan.induct)
  case (2 x xs)
  then show ?case by (cases c) auto
next
  case (3 b bs x xs)
  then show ?case by (cases c) (auto split: if_splits)
qed simp

lemma not_EthAddrLessThan_trans:
  assumes "\<not> EthAddrLessThan b a" "\<not> EthAddrLessThan c b"
  shows "\<not> EthAddrLessThan c a"
  using assms by (metis EthAddrLessThan_asym EthAddrLessThan_total EthAddrLessThan_trans)

definition ETHContractAddressLen :: nat where
  "ETHContractAddressLen = 42"

definition is_hex :: "char \<Rightarrow> bool" where
  "is_hex c \<longleftrightarrow> (let n = of_char c :: nat in
     48 \<le> n \<and> n \<le> 57 \<or> 97 \<le> n \<and> n \<le> 102 \<or> 65 \<le> n \<and> n \<le> 70)"

text \<open>The regular expression \<open>^0x[0-9a-fA-F]{40}$\<close>.\<close>

definition hexRx :: "string \<Rightarrow> bool" where
  "hexRx a \<longleftrightarrow> take 2 a = ''0x'' \<and> length a = 42 \<and> list_all is_hex (drop 2 a)"

definition ValidateEthAddress :: "string \<Rightarrow> unit res" where
  "ValidateEthAddress a =
     (if length a = 0 then Err (ErrorNew ''empty address provided'')
      else if \<not> hexRx a then Err (ErrorNew (''address('' @ a @ '') doesn't match Hex-encoding regex''))
      else if length a \<noteq> ETHContractAddressLen then
        Err (ErrorNew (''address('' @ a @ '') of the wrong length''))
      else Ok ())"

lemma ValidateEthAddress_Ok_iff: "ValidateEthAddress a = Ok () \<longleftrightarrow> hexRx a"
  by (auto simp: ValidateEthAddress_def hexRx_def ETHContractAddressLen_def)

section \<open>Tokens\<close>

record ERC20Token =
  et_Amount :: int
  et_Contract :: address

definition NewERC20Token :: "geth_lib \<Rightarrow> u64 \<Rightarrow> string \<Rightarrow> ERC20Token" where
  "NewERC20Token G amt contract = \<lparr>et_Amount = big_SetUint64 amt, et_Contract = HexToAddress G contract\<rparr>"

definition PeggyDenomPrefix :: string where
  "PeggyDenomPrefix = ''inj''"

definition PeggyDenomSeperator :: char where
  "PeggyDenomSeperator = CHR ''/''"

definition PeggyDenomLen :: nat where
  "PeggyDenomLen = length PeggyDenomPrefix + 1 + ETHContractAddressLen"

text \<open>\<open>sdk.NewCoin\<close> panics on an invalid coin; which coins it accepts is an argument.\<close>

definition PeggyCoin :: "geth_lib \<Rightarrow> (Coin \<Rightarrow> bool) \<Rightarrow> ERC20Token \<Rightarrow> Coin res" where
  "PeggyCoin G valid e =
     (let c = \<lparr>coin_Denom = PeggyDenomPrefix @ [PeggyDenomSeperator] @ AddressHex G (et_Contract e),
               coin_Amount = et_Amount e\<rparr>
      in if valid c then Ok c else Panic (ErrorNew ''invalid coin''))"

definition ValidateBasic :: "ERC20Token \<Rightarrow> unit res" where
  "ValidateBasic e = Ok ()"

definition ERC20Token_Add :: "ERC20Token \<Rightarrow> ERC20Token \<Rightarrow> ERC20Token res" where
  "ERC20Token_Add e o1 =
     (if et_Contract e \<noteq> et_Contract o1 then Panic (PanicValue ''invalid contract address'')
      else Ok \<lparr>et_Amount = et_Amount e + et_Amount o1, et_Contract = et_Contract e\<rparr>)"

text \<open>\<open>strings.Split\<close> with a separator of one character.\<close>

fun split_at :: "char \<Rightarrow> string \<Rightarrow> string list" where
  "split_at sep [] = [[]]"
| "split_at sep (c # cs) =
     (if c = sep then [] # split_at sep cs
      else (case split_at sep cs of [] \<Rightarrow> [[c]] | p # ps \<Rightarrow> (c # p) # ps))"

definition ValidatePeggyCoin :: "Coin \<Rightarrow> string res" where
  "ValidatePeggyCoin v =
     (let parts = split_at PeggyDenomSeperator (coin_Denom v) in
      if length parts < 2 then Err (ErrorNew ''denom not valid, fewer seperators than expected'')
      else
        (let denomPrefix = parts ! 0; contract = parts ! 1; err = ValidateEthAddress contract in
         if length parts \<noteq> 2 then Err (ErrorNew ''denom not valid, more seperators than expected'')
         else if denomPrefix \<noteq> PeggyDenomPrefix then Err (ErrorNew ''denom prefix not equal to expected'')
         else if err \<noteq> Ok () then Err (ErrorNew ''error validating ethereum contract address'')
         else if length (coin_Denom v) \<noteq> PeggyDenomLen then
           Err (ErrorNew ''len(denom) not equal to PeggyDenomLen'')
         else Ok contract))"

definition ERC20FromPeggyCoin :: "geth_lib \<Rightarrow> Coin \<Rightarrow> ERC20Token res" where
  "ERC20FromPeggyCoin G v = (case ValidatePeggyCoin v of
      Ok contract \<Rightarrow> Ok \<lparr>et_Amount = coin_Amount v, et_Contract = HexToAddress G contract\<rparr>
    | _ \<Rightarrow> Err (ErrorNew ''isn't a valid peggy coin''))"

section \<open>Properties\<close>

lemma split_at_ne: "split_at sep s \<noteq> []"
  by (induction s) (auto split: list.splits)

lemma split_at_none: "sep \<notin> set s \<Longrightarrow> split_at sep s = [s]"
  by (induction s) auto

lemma split_at_append: "sep \<notin> set s \<Longrightarrow> split_at sep (s @ sep # t) = s # split_at sep t"
  by (induction s) auto

text \<open>Splitting loses nothing: joining the parts with the separator gives the string back.\<close>

lemma split_at_join: "foldr (\<lambda>p acc. if acc = None then Some p else Some (p @ sep # the acc))
    (split_at sep s) None = Some s"
proof (induction s)
  case (Cons c cs)
  then show ?case using split_at_ne [of sep cs] by (auto split: list.splits if_splits)
qed simp

lemma hexRx_no_separator:
  assumes "hexRx a"
  shows "PeggyDenomSeperator \<notin> set a"
proof -
  have "set a = set (take 2 a) \<union> set (drop 2 a)" by (metis append_take_drop_id set_append)
  moreover have "PeggyDenomSeperator \<notin> set (take 2 a)"
    using assms by (simp add: hexRx_def PeggyDenomSeperator_def)
  moreover have "\<not> is_hex PeggyDenomSeperator" by code_simp
  then have "PeggyDenomSeperator \<notin> set (drop 2 a)"
    using assms by (metis hexRx_def list_all_iff)
  ultimately show ?thesis by blast
qed

lemma ValidatePeggyCoin_char:
  "ValidatePeggyCoin v = Ok contract \<longleftrightarrow>
     hexRx contract \<and> coin_Denom v = PeggyDenomPrefix @ [PeggyDenomSeperator] @ contract"
proof
  assume ok: "ValidatePeggyCoin v = Ok contract"
  obtain p where parts: "split_at PeggyDenomSeperator (coin_Denom v) = [p, contract]"
    and p: "p = PeggyDenomPrefix" and c: "ValidateEthAddress contract = Ok ()"
    using ok by (auto simp: ValidatePeggyCoin_def Let_def numeral_2_eq_2 length_Suc_conv split: if_splits)
  have "coin_Denom v = PeggyDenomPrefix @ [PeggyDenomSeperator] @ contract"
    using split_at_join [of PeggyDenomSeperator "coin_Denom v"] parts p by simp
  then show "hexRx contract \<and> coin_Denom v = PeggyDenomPrefix @ [PeggyDenomSeperator] @ contract"
    using c by (simp add: ValidateEthAddress_Ok_iff)
next
  assume h: "hexRx contract \<and> coin_Denom v = PeggyDenomPrefix @ [PeggyDenomSeperator] @ contract"
  have "PeggyDenomSeperator \<notin> set PeggyDenomPrefix"
    by (simp add: PeggyDenomSeperator_def PeggyDenomPrefix_def)
  then have "split_at PeggyDenomSeperator (coin_Denom v) = [PeggyDenomPrefix, contract]"
    using h by (simp add: split_at_append split_at_none hexRx_no_separator)
  moreover have "length (coin_Denom v) = PeggyDenomLen"
    using h by (simp add: PeggyDenomLen_def hexRx_def ETHContractAddressLen_def)
  ultimately show "ValidatePeggyCoin v = Ok contract"
    using h by (simp add: ValidatePeggyCoin_def Let_def ValidateEthAddress_Ok_iff)
qed

text \<open>A coin is accepted as a peggy coin exactly if its denomination is the prefix, the separator and the
  address that is returned, which matches the address pattern.\<close>

theorem ValidatePeggyCoin_iff:
  "ValidatePeggyCoin v = Ok contract \<longleftrightarrow>
     hexRx contract \<and> coin_Denom v = PeggyDenomPrefix @ [PeggyDenomSeperator] @ contract"
  by (rule ValidatePeggyCoin_char)

text \<open>C34. A token turned into a coin and back is the token it was, when addresses are printed as \<open>0x\<close> and
  forty hexadecimal digits and parsing undoes printing.\<close>

theorem ERC20FromPeggyCoin_PeggyCoin:
  assumes "geth_hex_roundtrip G" "\<And>a. hexRx (AddressHex G a)" "PeggyCoin G valid e = Ok c"
  shows "ERC20FromPeggyCoin G c = Ok e"
proof -
  have c: "c = \<lparr>coin_Denom = PeggyDenomPrefix @ [PeggyDenomSeperator] @ AddressHex G (et_Contract e),
      coin_Amount = et_Amount e\<rparr>"
    using assms(3) by (auto simp: PeggyCoin_def Let_def split: if_splits)
  then have "ValidatePeggyCoin c = Ok (AddressHex G (et_Contract e))"
    using assms(2) by (simp add: ValidatePeggyCoin_char)
  then show ?thesis
    using assms(1) c by (simp add: ERC20FromPeggyCoin_def geth_hex_roundtrip_def)
qed

section \<open>Hexadecimal addresses\<close>

text \<open>An instance of the printing and parsing of addresses, without the mixed-case checksum.\<close>

fun hex_digits :: "nat \<Rightarrow> nat \<Rightarrow> nat list" where
  "hex_digits 0 n = []"
| "hex_digits (Suc k) n = hex_digits k (n div 16) @ [n mod 16]"

definition hex_char :: "nat \<Rightarrow> char" where
  "hex_char d = char_of (if d < 10 then 48 + d else 87 + d)"

definition hex_val :: "char \<Rightarrow> nat" where
  "hex_val c = (let n = of_char c in if n < 58 then n - 48 else n - 87)"

definition hex_geth :: geth_lib where
  "hex_geth =
     \<lparr>HexToAddress = (\<lambda>s. of_nat (foldl (\<lambda>n c. n * 16 + hex_val c) 0 (drop 2 s))),
      AddressHex = (\<lambda>a. ''0x'' @ map hex_char (hex_digits 40 (unat a))),
      FromHex = map of_char, BytesToHash = foldl (\<lambda>h b. push_bit 8 h + ucast b) 0,
      Bytes2Hex = map (\<lambda>b. char_of (unat b))\<rparr>"

lemma length_hex_digits [simp]: "length (hex_digits k n) = k"
  by (induction k arbitrary: n) auto

lemma hex_digits_small: "d \<in> set (hex_digits k n) \<Longrightarrow> d < 16"
  by (induction k arbitrary: n) auto

lemma hex_val_char: "d < 16 \<Longrightarrow> hex_val (hex_char d) = d"
  by (auto simp: hex_val_def hex_char_def Let_def)

lemma foldl_hex_digits: "foldl (\<lambda>n d. n * 16 + d) 0 (hex_digits k n) = n mod 16 ^ k"
proof (induction k arbitrary: n)
  case (Suc k)
  have "n mod 16 ^ Suc k = n div 16 mod 16 ^ k * 16 + n mod 16"
    using mod_mult2_eq [of n 16 "16 ^ k"] by (simp add: mult.commute)
  then show ?case using Suc by simp
qed simp

lemma hex_geth_roundtrip: "geth_hex_roundtrip hex_geth"
proof -
  have "foldl (\<lambda>n c. n * 16 + hex_val c) 0 (map hex_char (hex_digits 40 n)) = n mod 16 ^ 40" for n
  proof -
    have "foldl (\<lambda>n c. n * 16 + hex_val c) a (map hex_char ds) = foldl (\<lambda>n d. n * 16 + d) a ds"
      if "\<forall>d \<in> set ds. d < 16" for a ds
      using that by (induction ds arbitrary: a) (auto simp: hex_val_char)
    then show ?thesis using hex_digits_small foldl_hex_digits by metis
  qed
  moreover have "unat a mod 16 ^ 40 = unat a" for a :: address
    using unsigned_less [of a, where ?'a = nat] by simp
  ultimately show ?thesis by (simp add: geth_hex_roundtrip_def hex_geth_def)
qed

lemma hex_geth_hexRx: "hexRx (AddressHex hex_geth a)"
proof -
  have "is_hex (hex_char d)" if "d < 16" for d
    using that by (auto simp: is_hex_def hex_char_def Let_def)
  then show ?thesis using hex_digits_small
    by (auto simp: hexRx_def hex_geth_def list_all_iff)
qed

theorem ERC20FromPeggyCoin_PeggyCoin_witness:
  "ERC20FromPeggyCoin hex_geth
     \<lparr>coin_Denom = PeggyDenomPrefix @ [PeggyDenomSeperator] @ AddressHex hex_geth 0xdac17f958d2ee523a2206206994597c13d831ec7,
      coin_Amount = 7\<rparr> = Ok \<lparr>et_Amount = 7, et_Contract = 0xdac17f958d2ee523a2206206994597c13d831ec7\<rparr>"
  by (rule ERC20FromPeggyCoin_PeggyCoin [OF hex_geth_roundtrip hex_geth_hexRx, of "\<lambda>_. True"])
    (simp add: PeggyCoin_def Let_def)

end
