(* ===== verification/Relayer.thy ===== *)
theory Relayer
  imports OrchestratorCore EthUtil
begin

text \<open>
  \<open>orchestrator/relayer.go\<close>: the relayer finds the validator set the contract holds, and sends it the
  latest confirmed validator set and batch. The search for the set walks backwards through the
  blocks in windows of 2000 and is a total function here, with its termination proof.
\<close>

definition defaultRelayerLoopDur :: int where
  "defaultRelayerLoopDur = 5 * 60 * 1000000000"

definition findValsetBlocksToSearch :: u64 where
  "findValsetBlocksToSearch = 2000"

section \<open>Validators\<close>

type_synonym BridgeValidators = "BridgeValidator list"

definition validator_less :: "BridgeValidator \<Rightarrow> BridgeValidator \<Rightarrow> bool" where
  "validator_less a b =
     (if bv_Power a = bv_Power b then EthAddrLessThan (bv_EthereumAddress a) (bv_EthereumAddress b)
      else bv_Power a > bv_Power b)"

definition Sort :: "BridgeValidators \<Rightarrow> BridgeValidators" where
  "Sort b = sort_slice validator_less b"

definition HasDuplicates :: "BridgeValidators \<Rightarrow> bool" where
  "HasDuplicates b \<longleftrightarrow> card (bv_EthereumAddress ` set b) \<noteq> length b"

definition GetPowers :: "BridgeValidators \<Rightarrow> u64 list" where
  "GetPowers b = map bv_Power b"

text \<open>
  \<open>checkIfValsetsDiffer\<close>: the warnings it logs, and the set given to it, whose members it may have
  reordered in place. The members of the other set are not used afterwards.
\<close>

fun member_warnings :: "BridgeValidator list \<Rightarrow> BridgeValidator list \<Rightarrow> string list" where
  "member_warnings (e # es) (m # ms) =
     (if bv_EthereumAddress e \<noteq> bv_EthereumAddress m then [''Valsets are different, a sorting error?''] else []) @
     (if bv_Power e \<noteq> bv_Power m then [''Valsets are different, a sorting error?''] else []) @
     member_warnings es ms"
| "member_warnings es ms = []"

definition checkIfValsetsDiffer :: "Valset option \<Rightarrow> Valset \<Rightarrow> string list \<times> Valset" where
  "checkIfValsetsDiffer cosmosValset ethereumValset = (case cosmosValset of
      None \<Rightarrow>
        if vs_Nonce ethereumValset = 0 then ([], ethereumValset)
        else ([''Cosmos does not have a valset for nonce from Ethereum chain. Possible bridge hijacking!''],
              ethereumValset)
    | Some cv \<Rightarrow>
        if vs_Nonce cv \<noteq> vs_Nonce ethereumValset then
          ([''Cosmos does have a wrong valset nonce, differs from Ethereum chain. Possible bridge hijacking!''],
           ethereumValset)
        else if length (vs_Members cv) \<noteq> length (vs_Members ethereumValset) then
          ([''Cosmos and Ethereum Valsets have different length. Possible bridge hijacking!''],
           ethereumValset)
        else
          (let ethereumValset' = ethereumValset\<lparr>vs_Members := Sort (vs_Members ethereumValset)\<rparr>
           in (member_warnings (vs_Members ethereumValset') (Sort (vs_Members cv)), ethereumValset')))"

section \<open>The validator set on Ethereum\<close>

text \<open>\<open>sort.Reverse\<close> of the order by nonce.\<close>

definition later_update :: "PeggyValsetUpdatedEvent \<Rightarrow> PeggyValsetUpdatedEvent \<Rightarrow> bool" where
  "later_update a b \<longleftrightarrow> vu_NewValsetNonce b < vu_NewValsetNonce a"

text \<open>A power without a validator is a run-time panic.\<close>

fun event_members :: "geth_lib \<Rightarrow> int list \<Rightarrow> address list \<Rightarrow> BridgeValidator list res" where
  "event_members G [] vs = Ok []"
| "event_members G (p # ps) [] = Panic (ErrorNew ''index out of range'')"
| "event_members G (p # ps) (v # vs) = (case event_members G ps vs of
     Ok ms \<Rightarrow> Ok (\<lparr>bv_Power = big_Uint64 p, bv_EthereumAddress = AddressHex G v\<rparr> # ms)
   | e \<Rightarrow> e)"

definition event_valset :: "geth_lib \<Rightarrow> PeggyValsetUpdatedEvent \<Rightarrow> Valset res" where
  "event_valset G ev = (case event_members G (vu_Powers ev) (vu_Validators ev) of
      Ok ms \<Rightarrow> Ok \<lparr>vs_Nonce = big_Uint64 (vu_NewValsetNonce ev), vs_Members = ms, vs_Height = 0,
                   vs_RewardAmount = Some (vu_RewardAmount ev),
                   vs_RewardToken = AddressHex G (vu_RewardToken ev)\<rparr>
    | Err e \<Rightarrow> Err e | Panic e \<Rightarrow> Panic e | Exit \<Rightarrow> Exit | Diverge \<Rightarrow> Diverge)"

definition search_start :: "u64 \<Rightarrow> u64" where
  "search_start currentBlock =
     (if currentBlock \<le> findValsetBlocksToSearch then 0 else currentBlock - findValsetBlocksToSearch)"

lemma search_start_less: "0 < currentBlock \<Longrightarrow> search_start currentBlock < currentBlock"
  unfolding search_start_def findValsetBlocksToSearch_def
  by (auto simp: word_less_nat_alt word_le_nat_alt unat_sub_if_size word_size)

function search_valset :: "'e Orchestrator \<Rightarrow> Valset option \<Rightarrow> u64 \<Rightarrow> ('e world, Valset) io" where
  "search_valset l cosmosValset currentBlock =
     (if currentBlock > 0 then
        bindE (wrapE ''failed to filter past ValsetUpdated events from Ethereum''
                 (e_GetValsetUpdatedEvents (ethereum l) (search_start currentBlock) currentBlock))
          (\<lambda>events. case sort_slice later_update events of
             [] \<Rightarrow> search_valset l cosmosValset (search_start currentBlock)
           | ev # _ \<Rightarrow> bindE (pure_call (event_valset (o_geth l) ev))
               (\<lambda>valset. ret (snd (checkIfValsetsDiffer cosmosValset valset))))
      else throw ErrNotFound)"
  by pat_completeness auto

termination
  by (relation "measure (\<lambda>(l, c, b). unat b)")
    (auto simp: word_less_nat_alt [symmetric] search_start_less)

declare search_valset.simps [simp del]

definition findLatestValsetOnEth :: "'e Orchestrator \<Rightarrow> ('e world, Valset) io" where
  "findLatestValsetOnEth l =
     bindE (wrapE ''failed to get latest ethereum header'' (e_GetHeaderByNumber (ethereum l))) (\<lambda>header.
     bindE (wrapE ''failed to get latest valset nonce on Ethereum'' (e_GetValsetNonce (ethereum l))) (\<lambda>nonce.
     bindE (wrapE ''failed to get Injective valset'' (n_ValsetAt (injective l) (big_Uint64 nonce)))
       (\<lambda>cosmosValset. search_valset l cosmosValset (big_Uint64 header))))"

definition getLatestEthValset :: "'e Orchestrator \<Rightarrow> ('e world, Valset) io" where
  "getLatestEthValset l = bindE (retry l (capture ValsetVar (findLatestValsetOnEth l)))
     (\<lambda>v. deref (as_valset v))"

section \<open>Relaying a validator set\<close>

fun latest_confirmed_valset ::
  "'e Orchestrator \<Rightarrow> Valset list \<Rightarrow> ('e world, (Valset \<times> MsgValsetConfirm list) option) io" where
  "latest_confirmed_valset l [] = ret None"
| "latest_confirmed_valset l (vset # sets) =
     bindE (wrapE ''failed to get validator set confirmations for nonce''
              (n_AllValsetConfirms (injective l) (vs_Nonce vset))) (\<lambda>sigs.
       if sigs = [] then latest_confirmed_valset l sets else ret (Some (vset, sigs)))"

text \<open>\<open>time.Since\<close> of a block's time, compared with the configured offset.\<close>

definition offset_passed :: "'e Orchestrator \<Rightarrow> u64 \<Rightarrow> int \<Rightarrow> ('e world, bool) io" where
  "offset_passed l height offset = bindE (attempt (n_GetBlock (injective l) height)) (\<lambda>r. case r of
      Inl _ \<Rightarrow> ret False
    | Inr block \<Rightarrow> bindE (time_Now (o_now l)) (\<lambda>t. ret (\<not> t - rb_Time block \<le> offset)))"

definition shouldRelayValset :: "'e Orchestrator \<Rightarrow> Valset \<Rightarrow> ('e world, bool) io" where
  "shouldRelayValset l vs = bindE (attempt (e_GetValsetNonce (ethereum l))) (\<lambda>r. case r of
      Inl _ \<Rightarrow> ret False
    | Inr latestEthereumValsetNonce \<Rightarrow>
        if vs_Nonce vs \<le> big_Uint64 latestEthereumValsetNonce then ret False
        else offset_passed l (vs_Height vs) (RelayValsetOffsetDur (cfg l)))"

definition relayValset :: "'e Orchestrator \<Rightarrow> Valset \<Rightarrow> ('e world, unit) io" where
  "relayValset l latestEthValset =
     bindE (wrapE ''failed to get latest validator set from Injective'' (n_LatestValsets (injective l)))
       (\<lambda>sets. bindE (latest_confirmed_valset l sets) (\<lambda>found. case found of
          None \<Rightarrow> ret ()
        | Some (latestConfirmedValset, confirmations) \<Rightarrow>
            bindE (shouldRelayValset l latestConfirmedValset) (\<lambda>should.
              if \<not> should then ret ()
              else bindE (e_SendEthValsetUpdate (ethereum l) latestEthValset latestConfirmedValset confirmations)
                     (\<lambda>_. ret ()))))"

section \<open>Relaying a batch\<close>

text \<open>The loop does not stop at the first confirmed batch: the last one is kept.\<close>

fun oldest_confirmed_batch ::
  "'e Orchestrator \<Rightarrow> u64 \<Rightarrow> OutgoingTxBatch list \<Rightarrow> (OutgoingTxBatch \<times> MsgConfirmBatch list) option \<Rightarrow>
     ('e world, (OutgoingTxBatch \<times> MsgConfirmBatch list) option) io" where
  "oldest_confirmed_batch l ethHeight [] found = ret found"
| "oldest_confirmed_batch l ethHeight (batch # batches) found =
     (if ob_BatchTimeout batch \<le> ethHeight then oldest_confirmed_batch l ethHeight batches found
      else bindE (n_TransactionBatchSignatures (injective l) (ob_BatchNonce batch)
                    (HexToAddress (o_geth l) (ob_TokenContract batch))) (\<lambda>sigs.
             if sigs = [] then oldest_confirmed_batch l ethHeight batches found
             else oldest_confirmed_batch l ethHeight batches (Some (batch, sigs))))"

definition shouldRelayBatch :: "'e Orchestrator \<Rightarrow> OutgoingTxBatch \<Rightarrow> ('e world, bool) io" where
  "shouldRelayBatch l batch =
     bindE (attempt (e_GetTxBatchNonce (ethereum l) (HexToAddress (o_geth l) (ob_TokenContract batch))))
       (\<lambda>r. case r of
          Inl _ \<Rightarrow> ret False
        | Inr latestEthBatch \<Rightarrow>
            if ob_BatchNonce batch \<le> big_Uint64 latestEthBatch then ret False
            else offset_passed l (ob_Block batch) (RelayBatchOffsetDur (cfg l)))"

definition relayTokenBatch :: "'e Orchestrator \<Rightarrow> Valset \<Rightarrow> ('e world, unit) io" where
  "relayTokenBatch l latestEthValset =
     bindE (n_LatestTransactionBatches (injective l)) (\<lambda>batches.
     bindE (e_GetHeaderByNumber (ethereum l)) (\<lambda>latestEthHeight.
     bindE (oldest_confirmed_batch l (big_Uint64 latestEthHeight) batches None) (\<lambda>found. case found of
       None \<Rightarrow> ret ()
     | Some (oldestConfirmedBatch, confirmations) \<Rightarrow>
         bindE (shouldRelayBatch l oldestConfirmedBatch) (\<lambda>should.
           if \<not> should then ret ()
           else bindE (attempt (e_SendTransactionBatch (ethereum l) latestEthValset oldestConfirmedBatch confirmations))
                  (\<lambda>_. ret ())))))"

section \<open>One iteration\<close>

text \<open>
  The two tasks run in goroutines of a \<open>ParanoidGroup\<close>. Here one runs after the other, in the order
  \<open>swapped\<close> chooses; \<open>wait\<close> is what \<open>Wait\<close> answers for the outcomes of the tasks (see \<open>Loops\<close>). A
  panic in a goroutine of the group is not recovered and ends the process.
\<close>

fun run_tasks :: "('w, captured) io list \<Rightarrow> goerr option list \<Rightarrow> ('w, goerr option list) io" where
  "run_tasks [] rs = ret rs"
| "run_tasks (m # ms) rs = (\<lambda>w. case m w of
     (Ok _, w') \<Rightarrow> run_tasks ms (rs @ [None]) w'
   | (Err e, w') \<Rightarrow> run_tasks ms (rs @ [Some e]) w'
   | (Panic _, w') \<Rightarrow> (Exit, w')
   | (Exit, w') \<Rightarrow> (Exit, w')
   | (Diverge, w') \<Rightarrow> (Diverge, w'))"

definition relay_tasks :: "'e Orchestrator \<Rightarrow> Valset \<Rightarrow> ('e world, captured) io list" where
  "relay_tasks l ethValset =
     (if RelayValsets (cfg l) then [retry l (capture (\<lambda>_. NoVar) (relayValset l ethValset))] else []) @
     (if RelayBatches (cfg l) then [retry l (capture (\<lambda>_. NoVar) (relayTokenBatch l ethValset))] else [])"

definition relay ::
  "(goerr option list \<Rightarrow> goerr option) \<Rightarrow> bool \<Rightarrow> 'e Orchestrator \<Rightarrow> ('e world, unit) io" where
  "relay wait swapped l =
     bindE (getLatestEthValset l) (\<lambda>ethValset.
     (let ts = relay_tasks l ethValset in
      if ts = [] then ret ()
      else bindE (run_tasks (if swapped then rev ts else ts) []) (\<lambda>rs.
             case wait rs of None \<Rightarrow> ret () | Some e \<Rightarrow> throw e)))"

definition runRelayer ::
  "(goerr option list \<Rightarrow> goerr option) \<Rightarrow> bool \<Rightarrow> 'e Orchestrator \<Rightarrow> select_case list \<Rightarrow> 'e world \<Rightarrow>
     unit res \<times> int list \<times> 'e world" where
  "runRelayer wait swapped s cs w =
     (if \<not> RelayValsets (cfg s) \<and> \<not> RelayBatches (cfg s) then (Ok (), [], w)
      else RunLoop (\<lambda>w. case o_now s (outside w) of (t, o') \<Rightarrow> (t, w\<lparr>outside := o'\<rparr>))
             defaultRelayerLoopDur (relay wait swapped s) cs w)"

section \<open>The order of validators\<close>

interpretation by_power: strict_weak validator_less
proof
  show "\<not> validator_less y x" if "validator_less x y" for x y
    using that EthAddrLessThan_asym by (auto simp: validator_less_def split: if_splits)
  show "\<not> validator_less z x" if "\<not> validator_less y x" "\<not> validator_less z y" for x y z
  proof -
    have "bv_Power y \<le> bv_Power x" "bv_Power z \<le> bv_Power y"
      using that by (auto simp: validator_less_def split: if_splits)
    then consider "bv_Power z < bv_Power x" | "bv_Power z = bv_Power x" "bv_Power y = bv_Power x"
      by fastforce
    then show ?thesis
    proof cases
      case 1
      then show ?thesis by (auto simp: validator_less_def)
    next
      case 2
      then have "\<not> EthAddrLessThan (bv_EthereumAddress y) (bv_EthereumAddress x)"
        "\<not> EthAddrLessThan (bv_EthereumAddress z) (bv_EthereumAddress y)"
        using that by (simp_all add: validator_less_def)
      then have "\<not> EthAddrLessThan (bv_EthereumAddress z) (bv_EthereumAddress x)"
        by (rule not_EthAddrLessThan_trans)
      then show ?thesis using 2 by (simp add: validator_less_def)
    qed
  qed
qed

interpretation by_update_nonce: strict_weak later_update
  by unfold_locales (auto simp: later_update_def)

lemma HasDuplicates_iff: "HasDuplicates b \<longleftrightarrow> \<not> distinct (map bv_EthereumAddress b)"
  unfolding HasDuplicates_def
  by (metis card_distinct distinct_card image_set length_map)

text \<open>Sorting keeps the validators and puts them in descending order of power, equal powers in ascending
  order of address; without duplicate addresses there is only one such order, so the result does not
  depend on how the library sorts or on the order the validators came in.\<close>

theorem Sort_canonical:
  assumes "\<not> HasDuplicates b" "mset c = mset b"
  shows "mset (Sort b) = mset b \<and> sorted_wrt (\<lambda>x y. \<not> validator_less y x) (Sort b) \<and> Sort c = Sort b"
proof -
  have dist: "distinct (map bv_EthereumAddress b)" using assms(1) by (simp add: HasDuplicates_iff)
  have total: "validator_less x y \<or> validator_less y x" if "x \<in> set b" "y \<in> set b" "x \<noteq> y" for x y
  proof -
    have "bv_EthereumAddress x \<noteq> bv_EthereumAddress y"
      using dist that by (metis distinct_map inj_on_contraD)
    then show ?thesis using EthAddrLessThan_total by (auto simp: validator_less_def)
  qed
  have "Sort c = sort_slice validator_less b"
    by (rule by_power.sort_slice_unique)
      (use total assms(2) by_power.sorted_sort_slice in \<open>auto simp: Sort_def\<close>)
  then show ?thesis using by_power.sorted_sort_slice by (simp add: Sort_def)
qed

theorem Sort_canonical_witness:
  "Sort [\<lparr>bv_Power = 1, bv_EthereumAddress = ''0xb''\<rparr>, \<lparr>bv_Power = 1, bv_EthereumAddress = ''0xa''\<rparr>] =
   Sort [\<lparr>bv_Power = 1, bv_EthereumAddress = ''0xa''\<rparr>, \<lparr>bv_Power = 1, bv_EthereumAddress = ''0xb''\<rparr>]"
  using Sort_canonical
    [of "[\<lparr>bv_Power = 1, bv_EthereumAddress = ''0xa''\<rparr>, \<lparr>bv_Power = 1, bv_EthereumAddress = ''0xb''\<rparr>]"
        "[\<lparr>bv_Power = 1, bv_EthereumAddress = ''0xb''\<rparr>, \<lparr>bv_Power = 1, bv_EthereumAddress = ''0xa''\<rparr>]"]
  by (simp add: HasDuplicates_def)

section \<open>The search for the validator set\<close>

text \<open>The events of a node whose history is \<open>evs\<close>.\<close>

definition in_range :: "u64 \<Rightarrow> u64 \<Rightarrow> PeggyValsetUpdatedEvent \<Rightarrow> bool" where
  "in_range s t e \<longleftrightarrow> s \<le> vu_BlockNumber e \<and> vu_BlockNumber e \<le> t"

definition history :: "'e eth_Network \<Rightarrow> PeggyValsetUpdatedEvent list \<Rightarrow> bool" where
  "history eth evs \<longleftrightarrow> (\<forall>s t w. e_GetValsetUpdatedEvents eth s t w = (Ok (filter (in_range s t) evs), w))"

text \<open>Later updates have higher nonces: the contract refuses any other.\<close>

definition nonces_grow :: "PeggyValsetUpdatedEvent list \<Rightarrow> bool" where
  "nonces_grow evs \<longleftrightarrow> (\<forall>e \<in> set evs. \<forall>e' \<in> set evs. vu_BlockNumber e < vu_BlockNumber e' \<longrightarrow>
     vu_NewValsetNonce e < vu_NewValsetNonce e')"

lemma hd_later_update:
  assumes "sort_slice later_update xs = ev # rest"
  shows "ev \<in> set xs" "\<And>e. e \<in> set xs \<Longrightarrow> vu_NewValsetNonce e \<le> vu_NewValsetNonce ev"
proof -
  have set: "set xs = insert ev (set rest)" using set_sort_slice [of later_update xs] assms by simp
  then show "ev \<in> set xs" by simp
  have "sorted_wrt (\<lambda>x y. \<not> later_update y x) (ev # rest)"
    using by_update_nonce.sorted_sort_slice [of xs] assms by simp
  then show "vu_NewValsetNonce e \<le> vu_NewValsetNonce ev" if "e \<in> set xs" for e
    using that set by (auto simp: later_update_def)
qed

lemma search_valset_finds:
  assumes "history (ethereum l) evs" "nonces_grow evs" "0 < cur"
  shows "if \<exists>e \<in> set evs. vu_BlockNumber e \<le> cur
    then \<exists>ev \<in> set evs. vu_BlockNumber ev \<le> cur \<and>
      (\<forall>e \<in> set evs. vu_BlockNumber e \<le> cur \<longrightarrow> vu_NewValsetNonce e \<le> vu_NewValsetNonce ev) \<and>
      search_valset l cv cur w = bindE (pure_call (event_valset (o_geth l) ev))
        (\<lambda>valset. ret (snd (checkIfValsetsDiffer cv valset))) w
    else search_valset l cv cur w = (Err ErrNotFound, w)"
  using assms(3)
proof (induction "unat cur" arbitrary: cur rule: less_induct)
  case less
  let ?win = "filter (in_range (search_start cur) cur) evs"
  have step: "search_valset l cv cur w = (case sort_slice later_update ?win of
      [] \<Rightarrow> search_valset l cv (search_start cur) w
    | ev # _ \<Rightarrow> bindE (pure_call (event_valset (o_geth l) ev))
        (\<lambda>valset. ret (snd (checkIfValsetsDiffer cv valset))) w)"
    using assms(1) less.prems
    by (subst search_valset.simps) (simp add: history_def io_simps split: list.splits)
  have start: "search_start cur < cur" using search_start_less less.prems .
  show ?case
  proof (cases "sort_slice later_update ?win")
    case Nil
    then have "?win = []" by simp
    then have none: "vu_BlockNumber e \<le> cur \<longleftrightarrow> vu_BlockNumber e < search_start cur" if "e \<in> set evs" for e
      using that start by (auto simp: filter_empty_conv in_range_def)
    show ?thesis
    proof (cases "0 < search_start cur")
      case True
      have iff: "vu_BlockNumber e \<le> cur \<longleftrightarrow> vu_BlockNumber e \<le> search_start cur" if "e \<in> set evs" for e
        using that none [OF that] start \<open>?win = []\<close> by (fastforce simp: filter_empty_conv in_range_def)
      have "unat (search_start cur) < unat cur" using start by (simp add: word_less_nat_alt)
      from less.hyps [OF this True] show ?thesis
        by (simp add: step Nil iff cong: bex_cong ball_cong conj_cong)
    next
      case False
      then have "search_start cur = 0" by (simp add: word_gt_0)
      with none have no_event: "\<not> (\<exists>e \<in> set evs. vu_BlockNumber e \<le> cur)" by auto
      have "search_valset l cv cur w = search_valset l cv 0 w"
        using step Nil \<open>search_start cur = 0\<close> by simp
      also have "\<dots> = (Err ErrNotFound, w)"
        by (simp add: search_valset.simps [of _ _ 0] io_simps)
      finally show ?thesis using no_event by simp
    qed
  next
    case (Cons ev rest)
    note hd = hd_later_update [OF Cons]
    have ev: "ev \<in> set evs" "in_range (search_start cur) cur ev" using hd(1) by auto
    have "vu_NewValsetNonce e \<le> vu_NewValsetNonce ev" if "e \<in> set evs" "vu_BlockNumber e \<le> cur" for e
    proof (cases "search_start cur \<le> vu_BlockNumber e")
      case True
      then show ?thesis using hd(2) that by (auto simp: in_range_def)
    next
      case False
      then have "vu_BlockNumber e < vu_BlockNumber ev" using ev(2) by (auto simp: in_range_def)
      then show ?thesis using assms(2) that ev(1) by (force simp: nonces_grow_def)
    qed
    moreover have "vu_BlockNumber ev \<le> cur" using ev(2) by (simp add: in_range_def)
    ultimately have "\<exists>e \<in> set evs. vu_BlockNumber e \<le> cur"
      "\<exists>ev \<in> set evs. vu_BlockNumber ev \<le> cur \<and>
        (\<forall>e \<in> set evs. vu_BlockNumber e \<le> cur \<longrightarrow> vu_NewValsetNonce e \<le> vu_NewValsetNonce ev) \<and>
        search_valset l cv cur w = bindE (pure_call (event_valset (o_geth l) ev))
          (\<lambda>valset. ret (snd (checkIfValsetsDiffer cv valset))) w"
      using ev(1) by (auto simp: step Cons)
    then show ?thesis by simp
  qed
qed

section \<open>What is relayed\<close>

interpretation quiet: pause_frame same_broadcasts
  by unfold_locales (auto simp: same_broadcasts_def pause_def)

interpretation submitting: pause_frame "submits Q" for Q
  by unfold_locales (auto simp: submits_def pause_def)

lemma silently_keeps:
  assumes "keeps silently m"
  shows "keeps same_broadcasts m" "keeps (submits Q) m"
  using assms by (auto simp: keeps_def silently_def same_broadcasts_def submits_def)

lemma silent_offset_passed: "silent (n_GetBlock (injective l) h) \<Longrightarrow> keeps silently (offset_passed l h d)"
  unfolding offset_passed_def
  by (intro silently.keeps_rules silent_silently) (auto simp: silent_def time_Now_keeps)

context injective_api
begin

lemma latest_confirmed_silent:
  assumes "injective l = net"
  shows "keeps silently (latest_confirmed_valset l sets)"
proof (induction sets)
  case (Cons s sets)
  then show ?case unfolding latest_confirmed_valset.simps assms
    by (intro silently.keeps_rules silent_silently [OF query_silent(7)])
qed (auto intro: silently.keeps_rules)

lemma oldest_confirmed_silent:
  assumes "injective l = net"
  shows "keeps silently (oldest_confirmed_batch l h bs found)"
proof (induction bs arbitrary: found)
  case (Cons b bs)
  then show ?case unfolding oldest_confirmed_batch.simps assms
    by (intro silently.keeps_rules silent_silently [OF query_silent(11)])
qed (auto intro: silently.keeps_rules)

end

text \<open>The first set of the list with a confirmation, and the last batch that is not timed out and has one.\<close>

definition chosen_valset ::
  "'e Orchestrator \<Rightarrow> Valset list \<Rightarrow> 'e world \<Rightarrow> Valset \<Rightarrow> MsgValsetConfirm list \<Rightarrow> 'e world \<Rightarrow> bool" where
  "chosen_valset l sets w vset sigs w' \<longleftrightarrow> (\<exists>before after w1. sets = before @ vset # after \<and>
     latest_confirmed_valset l before w = (Ok None, w1) \<and>
     n_AllValsetConfirms (injective l) (vs_Nonce vset) w1 = (Ok sigs, w') \<and> sigs \<noteq> [])"

definition chosen_batch ::
  "'e Orchestrator \<Rightarrow> u64 \<Rightarrow> OutgoingTxBatch list \<Rightarrow> OutgoingTxBatch \<Rightarrow> MsgConfirmBatch list \<Rightarrow> 'e world \<Rightarrow> bool" where
  "chosen_batch l height batches batch sigs w' \<longleftrightarrow> (\<exists>before after w1 w2. batches = before @ batch # after \<and>
     height < ob_BatchTimeout batch \<and>
     n_TransactionBatchSignatures (injective l) (ob_BatchNonce batch)
       (HexToAddress (o_geth l) (ob_TokenContract batch)) w1 = (Ok sigs, w2) \<and> sigs \<noteq> [] \<and>
     oldest_confirmed_batch l height after None w2 = (Ok None, w'))"

lemma latest_confirmed_valset_Ok:
  assumes "latest_confirmed_valset l sets w = (Ok (Some (vset, sigs)), w')"
  shows "chosen_valset l sets w vset sigs w'"
  using assms
proof (induction sets arbitrary: w)
  case (Cons s sets)
  then obtain sg w1 where 1: "n_AllValsetConfirms (injective l) (vs_Nonce s) w = (Ok sg, w1)"
    "(if sg = [] then latest_confirmed_valset l sets else ret (Some (s, sg))) w1 = (Ok (Some (vset, sigs)), w')"
    by (auto elim!: bindE_OkE)
  show ?case
  proof (cases "sg = []")
    case True
    then have "chosen_valset l sets w1 vset sigs w'" using 1(2) Cons.IH by simp
    then obtain before after w2 where "sets = before @ vset # after"
      "latest_confirmed_valset l before w1 = (Ok None, w2)"
      "n_AllValsetConfirms (injective l) (vs_Nonce vset) w2 = (Ok sigs, w')" "sigs \<noteq> []"
      unfolding chosen_valset_def by blast
    then show ?thesis unfolding chosen_valset_def using 1(1) True
      by (intro exI [of _ "s # before"] exI [of _ after] exI [of _ w2]) (simp add: io_simps)
  next
    case False
    then show ?thesis unfolding chosen_valset_def using 1
      by (intro exI [of _ "[]"] exI [of _ sets] exI [of _ w]) simp
  qed
qed simp

lemma oldest_confirmed_batch_Ok:
  assumes "oldest_confirmed_batch l h bs found w = (Ok res, w')"
  shows "res = found \<and> oldest_confirmed_batch l h bs None w = (Ok None, w') \<or>
    (\<exists>batch sigs. res = Some (batch, sigs) \<and> chosen_batch l h bs batch sigs w')"
  using assms
proof (induction bs arbitrary: found w)
  case Nil
  then show ?case by simp
next
  case (Cons b bs)
  have later: "chosen_batch l h (b # bs) batch sigs w'" if "chosen_batch l h bs batch sigs w'" for batch sigs
    using that unfolding chosen_batch_def by (metis append_Cons)
  show ?case
  proof (cases "ob_BatchTimeout b \<le> h")
    case True
    then show ?thesis using Cons.IH [of found w] Cons.prems later by auto
  next
    case False
    with Cons.prems obtain sg w1 where 1:
      "n_TransactionBatchSignatures (injective l) (ob_BatchNonce b)
         (HexToAddress (o_geth l) (ob_TokenContract b)) w = (Ok sg, w1)"
      "oldest_confirmed_batch l h bs (if sg = [] then found else Some (b, sg)) w1 = (Ok res, w')"
      by (auto elim!: bindE_OkE split: if_splits)
    from Cons.IH [OF 1(2)] show ?thesis
    proof (elim disjE exE conjE)
      assume *: "res = (if sg = [] then found else Some (b, sg))" "oldest_confirmed_batch l h bs None w1 = (Ok None, w')"
      show ?thesis
      proof (cases "sg = []")
        case True
        then show ?thesis using * 1(1) False by (simp add: io_simps)
      next
        case sg: False
        then have "chosen_batch l h (b # bs) b sg w'"
          unfolding chosen_batch_def using * 1(1) False by (intro exI [of _ "[]"] exI [of _ bs] exI [of _ w] exI [of _ w1]) (simp add: not_le)
        then show ?thesis using * sg by simp
      qed
    qed (use later in blast)
  qed
qed


text \<open>When the choice is worth relaying: its nonce is above the one on Ethereum and its block is old enough.\<close>

lemma shouldRelay_Ok:
  "shouldRelayValset l vs w = (Ok True, w') \<Longrightarrow> \<exists>k w1. e_GetValsetNonce (ethereum l) w = (Ok k, w1) \<and>
     big_Uint64 k < vs_Nonce vs \<and> offset_passed l (vs_Height vs) (RelayValsetOffsetDur (cfg l)) w1 = (Ok True, w')"
  "shouldRelayBatch l b w = (Ok True, w') \<Longrightarrow> \<exists>k w1.
     e_GetTxBatchNonce (ethereum l) (HexToAddress (o_geth l) (ob_TokenContract b)) w = (Ok k, w1) \<and>
     big_Uint64 k < ob_BatchNonce b \<and> offset_passed l (ob_Block b) (RelayBatchOffsetDur (cfg l)) w1 = (Ok True, w')"
  by (auto simp: shouldRelayValset_def shouldRelayBatch_def elim!: io_elims split: if_splits)

lemma shouldRelay_silent:
  assumes "injective l = network_of q b t" "ethereum l = eth_of n"
  shows "keeps silently (shouldRelayValset l vs)" "keeps silently (shouldRelayBatch l batch)"
  unfolding shouldRelayValset_def shouldRelayBatch_def assms
  by (intro silently.keeps_rules silent_offset_passed silent_silently eth_net.read_silent;
      simp add: assms inj.query_silent)+

text \<open>
  The common shape of the two tasks: read, choose, decide, submit. Everything before the submission is
  silent, so a run either is silent or reaches it.
\<close>

lemma relay_shape:
  assumes "bindE fetch (\<lambda>x. bindE (pick x) (\<lambda>found. case found of None \<Rightarrow> ret ()
      | Some (v, sigs) \<Rightarrow> bindE (should v) (\<lambda>yes. if \<not> yes then ret ()
          else bindE (send v sigs) (\<lambda>_. ret ())))) w = (r, w')"
    and "keeps silently fetch" "\<And>x. keeps silently (pick x)" "\<And>v. keeps silently (should v)"
  obtains (quiet) "silently w w'"
    | (sends) x w1 v sigs w2 w3 r1 where "fetch w = (Ok x, w1)" "pick x w1 = (Ok (Some (v, sigs)), w2)"
        "should v w2 = (Ok True, w3)" "silently w w3" "send v sigs w3 = (r1, w')"
  using assms(1,2)
proof (cases rule: silently.bindE_frameE)
  case fetched: (went_on x w1)
  from fetched(3) assms(3) show thesis
  proof (cases rule: silently.bindE_frameE)
    case chosen: (went_on found w2)
    have w2: "silently w w2" using fetched(2) chosen(2) silently.P_trans by blast
    show thesis
    proof (cases found)
      case None
      then show thesis using quiet w2 chosen(3) by (simp add: io_simps)
    next
      case (Some p)
      obtain v sigs where p: "p = (v, sigs)" by (cases p)
      from chosen(3) Some p have "bindE (should v) (\<lambda>yes. if \<not> yes then ret ()
          else bindE (send v sigs) (\<lambda>_. ret ())) w2 = (r, w')" by simp
      then show thesis using assms(4)
      proof (cases rule: silently.bindE_frameE)
        case (went_on yes w3)
        have w3: "silently w w3" using w2 went_on(2) silently.P_trans by blast
        obtain r1 w4 where "send v sigs w3 = (r1, w4)" by fastforce
        then show thesis using sends [of x w1 v sigs w2 w3 r1] quiet fetched(1) chosen(1) went_on w3 Some p
          by (cases yes; cases r1) (auto simp: io_simps)
      qed (use quiet w2 silently.P_trans in blast)
    qed
  qed (use quiet fetched(2) silently.P_trans in blast)
qed (use quiet in blast)

text \<open>C12. One attempt of \<open>relayValset\<close> changes nothing, on Injective or on Ethereum, unless it reaches its one
  submission. Then the set it submits is the first of Injective's latest sets that has confirmations, its
  nonce is above the one the contract reported after that choice, the configured time has passed since its
  block, and all that is submitted are calls of the contract that replace the given set by it.\<close>

theorem relayValset_submits:
  assumes "injective l = network_of q b t" "ethereum l = eth_of n"
    and "signer_faithful (fromSigner (EVMCommitter (en_PeggyContract n)))"
    and "relayValset l ethValset w = (r, w')"
  shows "silently w w' \<or>
    (\<exists>sets w1 vset sigs w2 k w3 w4 r1. n_LatestValsets (injective l) w = (Ok sets, w1) \<and>
       chosen_valset l sets w1 vset sigs w2 \<and>
       e_GetValsetNonce (ethereum l) w2 = (Ok k, w3) \<and> big_Uint64 k < vs_Nonce vset \<and>
       offset_passed l (vs_Height vset) (RelayValsetOffsetDur (cfg l)) w3 = (Ok True, w4) \<and> silently w w4 \<and>
       e_SendEthValsetUpdate (ethereum l) ethValset vset sigs w4 = (r1, w') \<and>
       same_broadcasts w4 w' \<and> submits (update_call n ethValset vset sigs) w4 w')"
proof -
  have fetch: "keeps silently (wrapE msg (n_LatestValsets (injective l)))" for msg
    unfolding assms(1) by (intro silently.keeps_rules silent_silently inj.query_silent)
  have pick: "keeps silently (latest_confirmed_valset l sets)" for sets
    using assms(1) by (rule inj.latest_confirmed_silent)
  from assms(4) [unfolded relayValset_def] fetch pick shouldRelay_silent(1) [OF assms(1,2)] show ?thesis
  proof (cases rule: relay_shape)
    case (sends sets w1 vset sigs w2 w4 r1)
    have "same_broadcasts w4 w'" "submits (update_call n ethValset vset sigs) w4 w'"
      using sends(5) unfolding assms(2)
      by (auto dest: keepsD [OF eth_net.no_broadcast(1)] keepsD [OF eth_net.update_submits [OF assms(3)]])
    moreover have "n_LatestValsets (injective l) w = (Ok sets, w1)" using sends(1) by simp
    ultimately show ?thesis
      using latest_confirmed_valset_Ok [OF sends(2)] shouldRelay_Ok(1) [OF sends(3)] sends(4,5) by blast
  qed blast
qed

text \<open>C11. One attempt of \<open>relayTokenBatch\<close>, likewise: the batch it submits is the last of Injective's batches that
  had not timed out at the height the Ethereum node reported and has confirmations, its nonce is above the
  last one the contract executed for the token, the configured time has passed since its block, and all that
  is submitted are calls of the contract with this batch. A failing submission is not an error of the task.\<close>

theorem relayTokenBatch_submits:
  assumes "injective l = network_of q b t" "ethereum l = eth_of n"
    and "signer_faithful (fromSigner (EVMCommitter (en_PeggyContract n)))"
    and "relayTokenBatch l ethValset w = (r, w')"
  shows "silently w w' \<or>
    (\<exists>batches w1 height w2 batch sigs w3 k w4 w5 r1. n_LatestTransactionBatches (injective l) w = (Ok batches, w1) \<and>
       e_GetHeaderByNumber (ethereum l) w1 = (Ok height, w2) \<and>
       chosen_batch l (big_Uint64 height) batches batch sigs w3 \<and>
       e_GetTxBatchNonce (ethereum l) (HexToAddress (o_geth l) (ob_TokenContract batch)) w3 = (Ok k, w4) \<and>
       big_Uint64 k < ob_BatchNonce batch \<and>
       offset_passed l (ob_Block batch) (RelayBatchOffsetDur (cfg l)) w4 = (Ok True, w5) \<and> silently w w5 \<and>
       e_SendTransactionBatch (ethereum l) ethValset batch sigs w5 = (r1, w') \<and>
       (\<forall>e. r1 = Err e \<longrightarrow> r = Ok ()) \<and>
       same_broadcasts w5 w' \<and> submits (batch_call n ethValset batch sigs) w5 w')"
proof -
  define fetch where "fetch = bindE (n_LatestTransactionBatches (injective l)) (\<lambda>batches.
    bindE (e_GetHeaderByNumber (ethereum l)) (\<lambda>h. ret (batches, h)))"
  define pick where "pick = (\<lambda>(batches, h). oldest_confirmed_batch l (big_Uint64 h) batches None)"
  define send where "send = (\<lambda>batch sigs. attempt (e_SendTransactionBatch (ethereum l) ethValset batch sigs))"
  have run: "bindE fetch (\<lambda>x. bindE (pick x) (\<lambda>found. case found of None \<Rightarrow> ret ()
      | Some (v, sigs) \<Rightarrow> bindE (shouldRelayBatch l v) (\<lambda>yes. if \<not> yes then ret ()
          else bindE (send v sigs) (\<lambda>_. ret ())))) w = (r, w')"
    using assms(4) unfolding relayTokenBatch_def fetch_def pick_def send_def by (simp add: bindE_assoc)
  have fetch: "keeps silently fetch"
    unfolding fetch_def assms(1,2)
    by (intro silently.keeps_rules silent_silently inj.query_silent eth_net.read_silent)
  have pick: "keeps silently (pick x)" for x
    unfolding pick_def by (cases x) (use inj.oldest_confirmed_silent assms(1) in auto)
  from run fetch pick shouldRelay_silent(2) [OF assms(1,2)] show ?thesis
  proof (cases rule: relay_shape)
    case (sends x w2 batch sigs w3 w5 r1)
    obtain batches w1 height where x: "x = (batches, height)"
      "n_LatestTransactionBatches (injective l) w = (Ok batches, w1)" "e_GetHeaderByNumber (ethereum l) w1 = (Ok height, w2)"
      using sends(1) unfolding fetch_def by (auto elim!: bindE_OkE)
    have chosen: "chosen_batch l (big_Uint64 height) batches batch sigs w3"
      using sends(2) x(1) oldest_confirmed_batch_Ok by (fastforce simp: pick_def)
    obtain r2 where r2: "e_SendTransactionBatch (ethereum l) ethValset batch sigs w5 = (r2, w')"
      using sends(5) by (auto simp: send_def io_simps split: prod.splits res.splits)
    have "same_broadcasts w5 w'" "submits (batch_call n ethValset batch sigs) w5 w'"
      using r2 unfolding assms(2)
      by (auto dest: keepsD [OF eth_net.no_broadcast(2)] keepsD [OF eth_net.batch_submits [OF assms(3)]])
    moreover have "r = Ok ()" if "r2 = Err e" for e
      using run sends r2 that by (simp add: send_def io_simps)
    ultimately show ?thesis
      using x chosen shouldRelay_Ok(2) [OF sends(3)] sends(4) r2 by blast
  qed blast
qed

context frame
begin

lemma keeps_list_case:
  "keeps P m \<Longrightarrow> (\<And>x xs. keeps P (f x xs)) \<Longrightarrow> keeps P (case ys of [] \<Rightarrow> m | x # xs \<Rightarrow> f x xs)"
  by (cases ys) simp_all

lemma keeps_run_tasks:
  assumes "\<And>m. m \<in> set ms \<Longrightarrow> keeps P m"
  shows "keeps P (run_tasks ms rs)"
  using assms
proof (induction ms arbitrary: rs)
  case Nil
  then show ?case by (auto intro: keeps_rules)
next
  case (Cons m ms)
  show ?case
  proof (rule keepsI)
    fix w r w'
    assume run: "run_tasks (m # ms) rs w = (r, w')"
    obtain r1 w1 where m: "m w = (r1, w1)" by (cases "m w")
    then have "P w w1" using Cons.prems keepsD by fastforce
    moreover have "P w1 w'" if "run_tasks ms rs' w1 = (r, w')" for rs'
      using keepsD [OF Cons.IH that] Cons.prems by simp
    ultimately show "P w w'" using run m by (cases r1) (auto intro: P_trans)
  qed
qed

end

lemma relayValset_keeps:
  assumes "injective l = network_of q b t" "ethereum l = eth_of n"
  shows "keeps same_broadcasts (relayValset l ethValset)"
    and "signer_faithful (fromSigner (EVMCommitter (en_PeggyContract n))) \<Longrightarrow>
      (\<And>vset sigs tx. update_call n ethValset vset sigs tx \<Longrightarrow> Q tx) \<Longrightarrow>
      keeps (submits Q) (relayValset l ethValset)"
proof -
  note silent = silent_silently [OF inj.query_silent(6)] inj.latest_confirmed_silent [OF assms(1)]
    shouldRelay_silent [OF assms]
  show "keeps same_broadcasts (relayValset l ethValset)"
    unfolding relayValset_def assms
    by (intro same_broadcasts.keeps_rules silent [THEN silently_keeps(1)] eth_net.no_broadcast)
  show "keeps (submits Q) (relayValset l ethValset)"
    if "signer_faithful (fromSigner (EVMCommitter (en_PeggyContract n)))"
      "\<And>vset sigs tx. update_call n ethValset vset sigs tx \<Longrightarrow> Q tx"
  proof -
    have "keeps (submits Q) (e_SendEthValsetUpdate (eth_of n) ethValset vset sigs)" for vset sigs
      using eth_net.update_submits [OF that(1)] that(2) by (fastforce simp: keeps_def submits_def)
    then show ?thesis
      unfolding relayValset_def assms
      by (intro submits.keeps_rules silent [THEN silently_keeps(2)])
  qed
qed


lemma relayTokenBatch_keeps:
  assumes "injective l = network_of q b t" "ethereum l = eth_of n"
  shows "keeps same_broadcasts (relayTokenBatch l ethValset)"
    and "signer_faithful (fromSigner (EVMCommitter (en_PeggyContract n))) \<Longrightarrow>
      (\<And>batch sigs tx. batch_call n ethValset batch sigs tx \<Longrightarrow> Q tx) \<Longrightarrow>
      keeps (submits Q) (relayTokenBatch l ethValset)"
proof -
  note silent = silent_silently [OF inj.query_silent(9)] silent_silently [OF eth_net.read_silent(1)]
    inj.oldest_confirmed_silent [OF assms(1)] shouldRelay_silent [OF assms]
  show "keeps same_broadcasts (relayTokenBatch l ethValset)"
    unfolding relayTokenBatch_def assms
    by (intro same_broadcasts.keeps_rules silent [THEN silently_keeps(1)] eth_net.no_broadcast)
  show "keeps (submits Q) (relayTokenBatch l ethValset)"
    if "signer_faithful (fromSigner (EVMCommitter (en_PeggyContract n)))"
      "\<And>batch sigs tx. batch_call n ethValset batch sigs tx \<Longrightarrow> Q tx"
  proof -
    have "keeps (submits Q) (e_SendTransactionBatch (eth_of n) ethValset batch sigs)" for batch sigs
      using eth_net.batch_submits [OF that(1)] that(2) by (fastforce simp: keeps_def submits_def)
    then show ?thesis
      unfolding relayTokenBatch_def assms
      by (intro submits.keeps_rules silent [THEN silently_keeps(2)])
  qed
qed

lemma search_valset_silent:
  assumes "ethereum l = eth_of n"
  shows "keeps silently (search_valset l cv cur)"
proof (induction "unat cur" arbitrary: cur rule: less_induct)
  case less
  have "keeps silently (search_valset l cv (search_start cur))" if "0 < cur"
    by (rule less) (use search_start_less [OF that] in \<open>simp add: word_less_nat_alt\<close>)
  then show ?case
    by (subst search_valset.simps, unfold assms)
      (intro silently.keeps_rules silently.keeps_list_case silent_silently [OF eth_net.read_silent(6)])
qed

lemma getLatestEthValset_silent:
  assumes "injective l = network_of q b t" "ethereum l = eth_of n" "retry_laws (retry_Do l)"
  shows "keeps silently (getLatestEthValset l)"
  unfolding getLatestEthValset_def findLatestValsetOnEth_def
  by (intro silently.keeps_rules silently.keeps_retry silently.keeps_capture assms(3)
      search_valset_silent [OF assms(2)] silent_silently)
    (simp_all add: assms inj.query_silent eth_net.read_silent)

text \<open>However an iteration of the relayer ends, in whatever order its tasks run and whatever is retried, it
  broadcasts nothing to Injective; and everything it submits to Ethereum is a validator set update or a
  batch, of the kinds the configuration enables, built on the validator set the search found.\<close>

theorem relay_submits:
  assumes "injective l = network_of q b t" "ethereum l = eth_of n" "retry_laws (retry_Do l)"
    and "signer_faithful (fromSigner (EVMCommitter (en_PeggyContract n)))"
    and "relay wait swapped l w = (r, w')"
  shows "same_broadcasts w w' \<and> (submitted w' = submitted w \<or>
    (\<exists>ethValset w1. getLatestEthValset l w = (Ok ethValset, w1) \<and> silently w w1 \<and>
       submits (\<lambda>tx. RelayValsets (cfg l) \<and> (\<exists>vset sigs. update_call n ethValset vset sigs tx) \<or>
                     RelayBatches (cfg l) \<and> (\<exists>batch sigs. batch_call n ethValset batch sigs tx)) w1 w'))"
  using assms(5) [unfolded relay_def] getLatestEthValset_silent [OF assms(1-3)]
proof (cases rule: silently.bindE_frameE)
  case stopped
  then show ?thesis by (simp add: silently_def same_broadcasts_def)
next
  case (went_on ethValset w1)
  let ?Q = "\<lambda>tx. RelayValsets (cfg l) \<and> (\<exists>vset sigs. update_call n ethValset vset sigs tx) \<or>
    RelayBatches (cfg l) \<and> (\<exists>batch sigs. batch_call n ethValset batch sigs tx)"
  let ?ts = "relay_tasks l ethValset"
  let ?body = "if ?ts = [] then ret () else bindE (run_tasks (if swapped then rev ?ts else ?ts) []) (\<lambda>rs.
    case wait rs of None \<Rightarrow> ret () | Some e \<Rightarrow> throw e)"
  have "keeps same_broadcasts m" if "m \<in> set ?ts" for m
    using that assms(1-3)
    by (auto simp: relay_tasks_def split: if_splits
        intro!: quiet.keeps_retry quiet.keeps_capture relayValset_keeps(1) relayTokenBatch_keeps(1))
  then have "keeps same_broadcasts ?body"
    by (intro same_broadcasts.keeps_rules same_broadcasts.keeps_run_tasks) (auto split: if_splits)
  moreover have "keeps (submits ?Q) m" if "m \<in> set ?ts" for m
    using that assms(1-4)
    by (auto simp: relay_tasks_def split: if_splits
        intro!: submitting.keeps_retry submitting.keeps_capture relayValset_keeps(2) relayTokenBatch_keeps(2))
  then have "keeps (submits ?Q) ?body"
    by (intro submits.keeps_rules submits.keeps_run_tasks) (auto split: if_splits)
  ultimately have "same_broadcasts w1 w'" "submits ?Q w1 w'"
    using went_on(3) by (auto simp: Let_def dest: keepsD)
  with went_on(1,2) show ?thesis by (auto simp: silently_def same_broadcasts_def)
qed

section \<open>The set the search returns\<close>

lemma event_members_eq:
  "length vs = length ps \<Longrightarrow> event_members G ps vs =
     Ok (map2 (\<lambda>p v. \<lparr>bv_Power = big_Uint64 p, bv_EthereumAddress = AddressHex G v\<rparr>) ps vs)"
  by (induction G ps vs rule: event_members.induct) auto

lemma checkIfValsetsDiffer_same:
  "vs_Nonce (snd (checkIfValsetsDiffer cv v)) = vs_Nonce v"
  "mset (vs_Members (snd (checkIfValsetsDiffer cv v))) = mset (vs_Members v)"
  by (auto simp: checkIfValsetsDiffer_def Let_def Sort_def split: option.split)

text \<open>C23. The search ends with the set of the update with the highest nonce of all the updates up to the head of
  the chain, wherever in the chain it is, when later updates have higher nonces and an event lists as many
  powers as validators: the nonce and, up to their order, the members of the set are those of the event.\<close>

theorem findLatestValsetOnEth_latest:
  assumes "history (ethereum l) evs" "nonces_grow evs"
    and "e_GetHeaderByNumber (ethereum l) w = (Ok head, w1)"
    and "e_GetValsetNonce (ethereum l) w1 = (Ok nonce, w2)"
    and "n_ValsetAt (injective l) (big_Uint64 nonce) w2 = (Ok cosmosValset, w3)"
    and "0 < big_Uint64 head" "\<exists>e \<in> set evs. vu_BlockNumber e \<le> big_Uint64 head"
    and "\<And>e. e \<in> set evs \<Longrightarrow> length (vu_Validators e) = length (vu_Powers e)"
  shows "\<exists>ev valset. ev \<in> set evs \<and> vu_BlockNumber ev \<le> big_Uint64 head \<and>
    (\<forall>e \<in> set evs. vu_BlockNumber e \<le> big_Uint64 head \<longrightarrow> vu_NewValsetNonce e \<le> vu_NewValsetNonce ev) \<and>
    findLatestValsetOnEth l w = (Ok valset, w3) \<and>
    vs_Nonce valset = big_Uint64 (vu_NewValsetNonce ev) \<and>
    mset (vs_Members valset) = mset (map2 (\<lambda>p v. \<lparr>bv_Power = big_Uint64 p, bv_EthereumAddress = AddressHex (o_geth l) v\<rparr>)
      (vu_Powers ev) (vu_Validators ev))"
proof -
  obtain ev where ev: "ev \<in> set evs" "vu_BlockNumber ev \<le> big_Uint64 head"
    "\<forall>e \<in> set evs. vu_BlockNumber e \<le> big_Uint64 head \<longrightarrow> vu_NewValsetNonce e \<le> vu_NewValsetNonce ev"
    "search_valset l cosmosValset (big_Uint64 head) w3 = bindE (pure_call (event_valset (o_geth l) ev))
       (\<lambda>valset. ret (snd (checkIfValsetsDiffer cosmosValset valset))) w3"
    using search_valset_finds [OF assms(1,2,6), of cosmosValset w3] assms(7) by auto
  obtain v where v: "event_valset (o_geth l) ev = Ok v" "vs_Nonce v = big_Uint64 (vu_NewValsetNonce ev)"
    "vs_Members v = map2 (\<lambda>p v. \<lparr>bv_Power = big_Uint64 p, bv_EthereumAddress = AddressHex (o_geth l) v\<rparr>)
       (vu_Powers ev) (vu_Validators ev)"
    using event_members_eq [OF assms(8) [OF ev(1)], of "o_geth l"] by (simp add: event_valset_def)
  have "findLatestValsetOnEth l w = (Ok (snd (checkIfValsetsDiffer cosmosValset v)), w3)"
    using assms(3-5) ev(4) v(1) by (simp add: findLatestValsetOnEth_def io_simps)
  then show ?thesis using ev(1-3) v(2,3) checkIfValsetsDiffer_same by metis
qed

text \<open>The comparison with Injective's set is meant to warn only, but it sorts the set the search returns: when
  both have the same nonce and number of members, the members come back in the order of \<open>Sort\<close>, which is
  not the order of the event, and of the contract's checkpoint, unless that was sorted already.\<close>

theorem checkIfValsetsDiffer_reorders:
  assumes "vs_Nonce cosmosValset = vs_Nonce ethereumValset"
    and "length (vs_Members cosmosValset) = length (vs_Members ethereumValset)"
  shows "vs_Members (snd (checkIfValsetsDiffer (Some cosmosValset) ethereumValset)) = Sort (vs_Members ethereumValset) \<and>
    (\<not> sorted_wrt (\<lambda>x y. \<not> validator_less y x) (vs_Members ethereumValset) \<longrightarrow>
       vs_Members (snd (checkIfValsetsDiffer (Some cosmosValset) ethereumValset)) \<noteq> vs_Members ethereumValset)"
proof -
  have "vs_Members (snd (checkIfValsetsDiffer (Some cosmosValset) ethereumValset)) = Sort (vs_Members ethereumValset)"
    using assms by (simp add: checkIfValsetsDiffer_def Let_def)
  then show ?thesis using by_power.sorted_sort_slice [of "vs_Members ethereumValset"] by (auto simp: Sort_def)
qed

section \<open>Concrete runs\<close>

definition unsorted_valset :: Valset where
  "unsorted_valset = sample_valset\<lparr>vs_Members := [\<lparr>bv_Power = 1, bv_EthereumAddress = ''1''\<rparr>,
     \<lparr>bv_Power = 2, bv_EthereumAddress = ''11''\<rparr>]\<rparr>"

theorem checkIfValsetsDiffer_reorders_witness:
  "vs_Members (snd (checkIfValsetsDiffer (Some unsorted_valset) unsorted_valset)) \<noteq> vs_Members unsorted_valset"
proof -
  have "\<not> sorted_wrt (\<lambda>x y. \<not> validator_less y x) (vs_Members unsorted_valset)"
    by (simp add: unsorted_valset_def validator_less_def)
  then show ?thesis using checkIfValsetsDiffer_reorders [of unsorted_valset unsorted_valset] by blast
qed

definition sample_relayer :: "nat Orchestrator" where
  "sample_relayer = sample_orchestrator\<lparr>ethereum := eth_of sample_eth\<rparr>"

lemma sample_history: "history (ethereum sample_relayer) [sample_update]"
  using listed_getters(4) [of sample_eth sample_emitted]
  by (simp add: history_def in_range_def sample_relayer_def eth_of_def sample_eth_def sample_emitted_def)

lemma sample_relayer_reads:
  "e_GetHeaderByNumber (ethereum sample_relayer) w = (Ok 100, w)"
  "e_GetValsetNonce (ethereum sample_relayer) w = (Ok 4, w)"
  "n_ValsetAt (injective sample_relayer) k w = (Ok (Some sample_valset), w)"
  by (simp_all add: sample_relayer_def eth_of_def GetHeaderByNumber_def net_GetValsetNonce_def GetValsetNonce_def
      sample_eth_def sample_node_def sample_contract_def io_simps sample_orchestrator_parts network_sel
      ValsetAt_def query_eq sample_queries_def)

theorem findLatestValsetOnEth_latest_witness:
  "\<exists>valset. findLatestValsetOnEth sample_relayer (sample_world 0) = (Ok valset, sample_world 0) \<and> vs_Nonce valset = 4"
proof -
  have "nonces_grow [sample_update]" "0 < big_Uint64 100" "vu_BlockNumber sample_update \<le> big_Uint64 100"
    "length (vu_Validators sample_update) = length (vu_Powers sample_update)"
    "big_Uint64 (vu_NewValsetNonce sample_update) = 4"
    by (simp_all add: nonces_grow_def big_Uint64_def sample_update_def)
  then show ?thesis
    using findLatestValsetOnEth_latest [OF sample_history _ sample_relayer_reads, of "sample_world 0"] by force
qed

lemma sample_choice:
  "n_LatestValsets (injective sample_orchestrator) w = (Ok [sample_new_valset], w)"
  "n_AllValsetConfirms (injective sample_orchestrator) k w = (Ok (sample_valset_confirms sample_sig), w)"
  "n_LatestTransactionBatches (injective sample_orchestrator) w = (Ok [sample_batch], w)"
  "n_TransactionBatchSignatures (injective sample_orchestrator) k a w = (Ok (sample_batch_confirms sample_sig), w)"
  "n_GetBlock (injective sample_orchestrator) h w = (Ok \<lparr>rb_Time = - 1000, rb_TxHashes = []\<rparr>, w)"
  "e_GetValsetNonce (ethereum sample_orchestrator) w = (Ok 4, w)"
  "e_GetTxBatchNonce (ethereum sample_orchestrator) a w = (Ok 0, w)"
  "e_GetHeaderByNumber (ethereum sample_orchestrator) w = (Ok 100, w)"
  by (simp_all add: eth_of_def GetHeaderByNumber_def net_GetValsetNonce_def GetValsetNonce_def
      net_GetTxBatchNonce_def GetTxBatchNonce_def sample_eth_def sample_node_def sample_contract_def io_simps
      sample_orchestrator_parts network_sel query_defs query_eq sample_queries_def GetBlock_def sample_rpc_def)

lemma sample_relays:
  "\<exists>w'. relayValset sample_orchestrator sample_valset (sample_world 0) = (Ok (), w') \<and> submitted w' \<noteq> []"
  "\<exists>w'. relayTokenBatch sample_orchestrator sample_valset (sample_world 0) = (Ok (), w') \<and> submitted w' \<noteq> []"
proof -
  have send: "e_SendEthValsetUpdate (ethereum sample_orchestrator) = SendEthValsetUpdate sample_env sample_contract"
    "e_SendTransactionBatch (ethereum sample_orchestrator) = SendTransactionBatch sample_env sample_contract"
    by (simp_all add: sample_orchestrator_parts eth_of_def sample_eth_def)
  have now: "o_now sample_orchestrator = (\<lambda>k. (int k, k))" "RelayValsetOffsetDur (cfg sample_orchestrator) = 10"
    "RelayBatchOffsetDur (cfg sample_orchestrator) = 10"
    by (simp_all add: sample_parts)
  have w: "(sample_world 0)\<lparr>outside := 0\<rparr> = sample_world 0" "outside (sample_world k) = k" for k :: nat
    by (simp_all add: sample_world_def)
  have passed: "offset_passed sample_orchestrator h 10 (sample_world 0) = (Ok True, sample_world 0)" for h
    by (simp add: offset_passed_def io_simps sample_choice now w)
  have "vs_Nonce sample_new_valset = 5" by (simp add: sample_new_valset_def)
  then have "shouldRelayValset sample_orchestrator sample_new_valset (sample_world 0) = (Ok True, sample_world 0)"
    by (simp add: shouldRelayValset_def io_simps sample_choice passed now big_Uint64_def)
  then show "\<exists>w'. relayValset sample_orchestrator sample_valset (sample_world 0) = (Ok (), w') \<and> submitted w' \<noteq> []"
    using sample_update sample_confirms_ne by (auto simp: relayValset_def io_simps sample_choice send)
  have batch: "ob_BatchNonce sample_batch = 3" "ob_BatchTimeout sample_batch = 1000" by (simp_all add: sample_batch_def)
  then have "shouldRelayBatch sample_orchestrator sample_batch (sample_world 0) = (Ok True, sample_world 0)"
    by (simp add: shouldRelayBatch_def io_simps sample_choice passed now big_Uint64_def)
  then show "\<exists>w'. relayTokenBatch sample_orchestrator sample_valset (sample_world 0) = (Ok (), w') \<and> submitted w' \<noteq> []"
    using sample_submit sample_confirms_ne batch
    by (auto simp: relayTokenBatch_def io_simps sample_choice send big_Uint64_def)
qed

lemma sample_world_not_silently: "submitted w' \<noteq> [] \<Longrightarrow> \<not> silently (sample_world k) w'"
  by (simp add: silently_def sample_world_def)

lemma sample_eth_faithful: "signer_faithful (fromSigner (EVMCommitter (en_PeggyContract sample_eth)))"
  using sample_faithful by (simp add: sample_eth_def)

theorem relayValset_submits_witness:
  "\<exists>w' vset sigs w1. relayValset sample_orchestrator sample_valset (sample_world 0) = (Ok (), w') \<and>
     4 < vs_Nonce vset \<and> submits (update_call sample_eth sample_valset vset sigs) w1 w' \<and> submitted w' \<noteq> []"
proof -
  obtain w' where run: "relayValset sample_orchestrator sample_valset (sample_world 0) = (Ok (), w')" "submitted w' \<noteq> []"
    using sample_relays(1) by blast
  from relayValset_submits [OF sample_orchestrator_parts(1,2) sample_eth_faithful run(1)]
    sample_world_not_silently [OF run(2)] run show ?thesis
    by (auto simp: sample_choice big_Uint64_def)
qed

theorem relayTokenBatch_submits_witness:
  "\<exists>w' batch sigs w1. relayTokenBatch sample_orchestrator sample_valset (sample_world 0) = (Ok (), w') \<and>
     0 < ob_BatchNonce batch \<and> submits (batch_call sample_eth sample_valset batch sigs) w1 w' \<and> submitted w' \<noteq> []"
proof -
  obtain w' where run: "relayTokenBatch sample_orchestrator sample_valset (sample_world 0) = (Ok (), w')" "submitted w' \<noteq> []"
    using sample_relays(2) by blast
  from relayTokenBatch_submits [OF sample_orchestrator_parts(1,2) sample_eth_faithful run(1)]
    sample_world_not_silently [OF run(2)] run show ?thesis
    by (auto simp: sample_choice big_Uint64_def)
qed

theorem relay_submits_witness:
  "same_broadcasts (sample_world 0) (snd (relay (\<lambda>_. None) False sample_orchestrator (sample_world 0)))"
  using relay_submits [OF sample_orchestrator_parts sample_eth_faithful, of "\<lambda>_. None" False "sample_world 0"]
  by (metis prod.collapse)

end
