(* ===== verification/Orchestrator.thy ===== *)
theory Orchestrator
  imports Oracle Signer BatchCreator Relayer
begin

text \<open>
  \<open>orchestrator/orchestrator.go\<close>: the two modes of the orchestrator. Starting a mode reads where to begin and
  starts the loops; from then on the loops run side by side. Their interleaving is the step relation
  \<open>loop_step\<close>, one iteration of one loop at a time, with the outside world changing in between.
\<close>

section \<open>Starting\<close>

definition getLastClaimBlockHeight :: "'e Orchestrator \<Rightarrow> 'e Network \<Rightarrow> ('e world, u64) io" where
  "getLastClaimBlockHeight s injNet =
     bindE (n_LastClaimEventByAddr injNet (CosmosAddr (cfg s))) (\<lambda>claim.
     bindE (deref claim) (\<lambda>claim. ret (lc_EthereumEventHeight claim)))"

datatype loop = OracleLoop | SignerLoop | BatchCreatorLoop | RelayerLoop

text \<open>
  The running orchestrator: the loops of the group that have not returned, the errors of those that have, the
  oracle's state and the contract's id the signer was given.
\<close>

record 'e running =
  rn_loops :: "loop set"
  rn_errors :: "goerr list"
  rn_oracle :: oracle_state
  rn_peggyID :: hash
  rn_world :: "'e world"

text \<open>\<open>runRelayer\<close> returns at once when there is nothing to relay.\<close>

definition relayer_loop :: "'e Orchestrator \<Rightarrow> loop set" where
  "relayer_loop s = (if \<not> RelayValsets (cfg s) \<and> \<not> RelayBatches (cfg s) then {} else {RelayerLoop})"

definition startValidatorMode ::
  "'e Orchestrator \<Rightarrow> 'e Network \<Rightarrow> 'e eth_Network \<Rightarrow> ('e world, loop set \<times> u64 \<times> hash) io" where
  "startValidatorMode s injNet eth =
     bindE (value_or 0 (getLastClaimBlockHeight s injNet)) (\<lambda>lastObserved.
     bindE (if lastObserved = 0 then
              bindE (attempt (n_PeggyParams injNet)) (\<lambda>r. case r of
                Inl _ \<Rightarrow> fatal
              | Inr peggyParams \<Rightarrow> ret (pp_BridgeContractStartHeight peggyParams))
            else ret lastObserved) (\<lambda>lastObservedEthBlock.
     bindE (attempt (e_GetPeggyID eth)) (\<lambda>r. case r of
       Inl _ \<Rightarrow> fatal
     | Inr peggyContractID \<Rightarrow>
         ret ({OracleLoop, SignerLoop, BatchCreatorLoop} \<union> relayer_loop s, lastObservedEthBlock, peggyContractID))))"

definition startRelayerMode :: "'e Orchestrator \<Rightarrow> 'e Network \<Rightarrow> 'e eth_Network \<Rightarrow> ('e world, loop set \<times> u64 \<times> hash) io" where
  "startRelayerMode s injNet eth = ret ({BatchCreatorLoop} \<union> relayer_loop s, 0, 0)"

definition Run :: "'e Orchestrator \<Rightarrow> 'e Network \<Rightarrow> 'e eth_Network \<Rightarrow> ('e world, loop set \<times> u64 \<times> hash) io" where
  "Run s injNet eth = (if RelayerMode (cfg s) then startRelayerMode s injNet eth else startValidatorMode s injNet eth)"

section \<open>Running\<close>

text \<open>One iteration of a loop. Only the oracle has a state of its own.\<close>

fun iteration ::
  "(goerr option list \<Rightarrow> goerr option) \<Rightarrow> bool \<Rightarrow> 'e Orchestrator \<Rightarrow> hash \<Rightarrow> loop \<Rightarrow> oracle_state \<Rightarrow> ('e world, oracle_state) io" where
  "iteration wait swapped s pid OracleLoop st = observeEthEvents s st"
| "iteration wait swapped s pid SignerLoop st = bindE (sign s pid) (\<lambda>_. ret st)"
| "iteration wait swapped s pid BatchCreatorLoop st = bindE (requestTokenBatches s) (\<lambda>_. ret st)"
| "iteration wait swapped s pid RelayerLoop st = bindE (relay wait swapped s) (\<lambda>_. ret st)"

text \<open>
  An iteration that returns nil leaves its loop running; an error, or a panic turned into one, ends the loop and
  is kept; the graceful stop ends it without error. Between iterations the outside world moves on. (An \<open>Exit\<close>
  ends the process: there is no step.)
\<close>

inductive loop_step :: "'e Orchestrator \<Rightarrow> 'e running \<Rightarrow> 'e running \<Rightarrow> bool" for s :: "'e Orchestrator" where
  iterates: "l \<in> rn_loops r \<Longrightarrow> iteration wait swapped s (rn_peggyID r) l (rn_oracle r) (rn_world r) = (Ok st, w') \<Longrightarrow>
    loop_step s r (r\<lparr>rn_oracle := st, rn_world := w'\<rparr>)"
| fails: "l \<in> rn_loops r \<Longrightarrow> iteration wait swapped s (rn_peggyID r) l (rn_oracle r) (rn_world r) = (Err e, w') \<Longrightarrow>
    e \<noteq> ErrGracefulStop \<Longrightarrow>
    loop_step s r (r\<lparr>rn_loops := rn_loops r - {l}, rn_errors := rn_errors r @ [e], rn_world := w'\<rparr>)"
| stops: "l \<in> rn_loops r \<Longrightarrow> iteration wait swapped s (rn_peggyID r) l (rn_oracle r) (rn_world r) = (Err ErrGracefulStop, w') \<Longrightarrow>
    loop_step s r (r\<lparr>rn_loops := rn_loops r - {l}, rn_world := w'\<rparr>)"
| panics: "l \<in> rn_loops r \<Longrightarrow> iteration wait swapped s (rn_peggyID r) l (rn_oracle r) (rn_world r) = (Panic e, w') \<Longrightarrow>
    loop_step s r (r\<lparr>rn_loops := rn_loops r - {l}, rn_errors := rn_errors r @ [panicRecover e], rn_world := w'\<rparr>)"
| outside: "loop_step s r (r\<lparr>rn_world := (rn_world r)\<lparr>outside := o'\<rparr>\<rparr>)"

text \<open>The states reached from the start of a mode.\<close>

inductive orchestrator_runs :: "'e Orchestrator \<Rightarrow> 'e world \<Rightarrow> 'e running \<Rightarrow> bool" for s :: "'e Orchestrator" and w :: "'e world" where
  starts: "Run s (injective s) (ethereum s) w = (Ok (loops, height, pid), w') \<Longrightarrow>
    orchestrator_runs s w \<lparr>rn_loops = loops, rn_errors = [],
      rn_oracle = \<lparr>lastResyncWithInjective = t, lastObservedEthHeight = height\<rparr>, rn_peggyID = pid, rn_world = w'\<rparr>"
| goes_on: "orchestrator_runs s w r \<Longrightarrow> loop_step s r r' \<Longrightarrow> orchestrator_runs s w r'"

section \<open>What the loops do to the two chains\<close>

text \<open>A frame over both: what is broadcast satisfies \<open>B\<close>, what is submitted satisfies \<open>T\<close>.\<close>

definition effects :: "(cosmos_msg \<Rightarrow> bool) \<Rightarrow> (eth_tx \<Rightarrow> bool) \<Rightarrow> 'e world \<Rightarrow> 'e world \<Rightarrow> bool" where
  "effects B T w w' \<longleftrightarrow> (\<exists>xs. broadcasts w' = broadcasts w @ xs \<and> (\<forall>x \<in> set xs. B (fst x))) \<and> submits T w w'"

interpretation effects: pause_frame "effects B T" for B T
proof
  show "effects B T w w''" if "effects B T w w'" "effects B T w' w''" for w w' w'' :: "'e world"
    using that submits.P_trans unfolding effects_def
    by (auto intro: exI [of _ "_ @ _"])
qed (auto simp: effects_def submits_def pause_def)

lemma adds_effects: "keeps (adds Q) m \<Longrightarrow> (\<And>x. Q x \<Longrightarrow> B (fst x)) \<Longrightarrow> keeps (effects B T) m"
  by (fastforce simp: keeps_def adds_def effects_def submits_def)

lemma silently_effects: "keeps silently m \<Longrightarrow> keeps (effects B T) m"
  by (auto simp: keeps_def silently_def effects_def submits_def)

lemma submits_effects: "keeps same_broadcasts m \<Longrightarrow> keeps (submits T) m \<Longrightarrow> keeps (effects B T) m"
  by (auto simp: keeps_def same_broadcasts_def effects_def)

text \<open>What each loop may send.\<close>

definition is_claim :: "cosmos_msg \<Rightarrow> bool" where
  "is_claim m \<longleftrightarrow> claim_nonce m \<noteq> None"

definition is_request :: "cosmos_msg \<Rightarrow> bool" where
  "is_request m \<longleftrightarrow> (\<exists>d orch. m = RequestBatch d orch)"

definition is_confirmation :: "'e broadcastClient \<Rightarrow> address \<Rightarrow> hash \<Rightarrow> cosmos_msg \<Rightarrow> bool" where
  "is_confirmation b eth pid m \<longleftrightarrow> (\<exists>vs. valset_confirmed b eth pid vs m) \<or> (\<exists>batch. batch_confirmed b eth pid batch m)"

definition is_relayed :: "'e eth_network \<Rightarrow> Config \<Rightarrow> eth_tx \<Rightarrow> bool" where
  "is_relayed n c tx \<longleftrightarrow> RelayValsets c \<and> (\<exists>old new sigs. update_call n old new sigs tx) \<or>
     RelayBatches c \<and> (\<exists>cur batch sigs. batch_call n cur batch sigs tx)"

lemma oracle_effects:
  assumes "injective l = network_of q b t" "ethereum l = eth_of n" "retry_laws (retry_Do l)"
  shows "keeps (effects is_claim T) (observeEthEvents l st)"
proof -
  note silent = fetches_silently [OF assms, THEN silently_effects]
  have send: "keeps (effects is_claim T) (sendNewEventClaims l es)" for es
    by (rule adds_effects [OF inj.sendNewEventClaims_adds [OF assms(1,3)]]) (auto simp: claim_of_def is_claim_def dest: claim_message_nonce)
  show ?thesis
    unfolding observeEthEvents_def scan_range_def Let_def by (intro effects.keeps_rules silent send)
qed

lemma signer_effects:
  assumes "injective l = network_of q b t" "retry_laws (retry_Do l)"
  shows "keeps (effects (is_confirmation b (EthereumAddr (cfg l)) pid) T) (sign l pid)"
proof -
  let ?B = "is_confirmation b (EthereumAddr (cfg l)) pid"
  have read: "keeps (effects ?B T) (retry l (capture var (value_or d m)))" if "silent m" for var d m
    by (rule silently_effects [OF retry_read(1) [OF assms(2) that]])
  have "broadcasts_one (valset_confirmed b (EthereumAddr (cfg l)) pid vs)
      (n_SendValsetConfirm (injective l) (EthereumAddr (cfg l)) pid vs)"
    "broadcasts_one (batch_confirmed b (EthereumAddr (cfg l)) pid batch)
      (n_SendBatchConfirm (injective l) (EthereumAddr (cfg l)) pid batch)" for vs batch
    unfolding assms(1) network_sel by (rule SendConfirm_signed)+
  note one = this [THEN retry_send(1) [OF assms(2)], THEN adds_effects]
  have send: "keeps (effects ?B T) (retry l (capture (\<lambda>_. NoVar) (n_SendValsetConfirm (injective l) (EthereumAddr (cfg l)) pid vs)))"
    "keeps (effects ?B T) (retry l (capture (\<lambda>_. NoVar) (n_SendBatchConfirm (injective l) (EthereumAddr (cfg l)) pid batch)))" for vs batch
    by (rule one; auto simp: is_confirmation_def)+
  show ?thesis
    unfolding sign_def sign_parts
    by (intro effects.keeps_rules read send) (simp_all add: assms(1) inj.query_silent)
qed

lemma creator_effects:
  assumes "injective l = network_of q b t" "ethereum l = eth_of n" "retry_laws (retry_Do l)" "feed_silent l"
  shows "keeps (effects is_request T) (requestTokenBatches l)"
proof -
  have send: "keeps (effects is_request T) (n_SendRequestBatch (injective l) d)" for d
    unfolding assms(1)
    by (rule adds_effects [OF broadcasts_one_adds [OF inj.request_one, where Q' = "\<lambda>x. is_request (fst x)"]])
      (auto simp: is_request_def)
  have decimals: "keeps (effects is_request T) (e_TokenDecimals (ethereum l) a)" for a
    unfolding assms(2) by (intro silently_effects silent_silently eth_net.read_silent)
  show ?thesis
    unfolding requestTokenBatches_def requestTokenBatch_def Let_def
    by (intro effects.keeps_rules send decimals silently_effects [OF checkMinBatchFee_silent [OF assms(4)]]
        silently_effects [OF getUnbatchedTokenFees_silent [OF assms(1,3)]])
qed

lemma relayer_effects:
  assumes "injective l = network_of q b t" "ethereum l = eth_of n" "retry_laws (retry_Do l)"
    and "signer_faithful (fromSigner (EVMCommitter (en_PeggyContract n)))"
  shows "keeps (effects B (is_relayed n (cfg l))) (relay wait swapped l)"
proof -
  let ?T = "is_relayed n (cfg l)"
  have "keeps (effects B ?T) (relayValset l vs)" if "RelayValsets (cfg l)" for vs
    by (intro submits_effects relayValset_keeps [OF assms(1,2)] assms(4)) (use that in \<open>auto simp: is_relayed_def\<close>)
  moreover have "keeps (effects B ?T) (relayTokenBatch l vs)" if "RelayBatches (cfg l)" for vs
    by (intro submits_effects relayTokenBatch_keeps [OF assms(1,2)] assms(4)) (use that in \<open>auto simp: is_relayed_def\<close>)
  ultimately have task: "keeps (effects B ?T) m" if "m \<in> set (relay_tasks l vs)" for m vs
    using that assms(3)
    by (auto simp: relay_tasks_def split: if_splits intro!: effects.keeps_retry effects.keeps_capture)
  have "keeps (effects B ?T) (run_tasks (if swapped then rev (relay_tasks l vs) else relay_tasks l vs) [])" for vs
    by (rule effects.keeps_run_tasks) (use task in \<open>auto split: if_splits\<close>)
  then show ?thesis
    unfolding relay_def Let_def
    by (intro effects.keeps_rules silently_effects [OF getLatestEthValset_silent [OF assms(1-3)]])
qed

section \<open>The modes\<close>

text \<open>What an iteration of a loop may send, and that it sends no more.\<close>

fun sends :: "'e broadcastClient \<Rightarrow> Config \<Rightarrow> hash \<Rightarrow> loop \<Rightarrow> cosmos_msg \<Rightarrow> bool" where
  "sends b c pid OracleLoop m \<longleftrightarrow> is_claim m"
| "sends b c pid SignerLoop m \<longleftrightarrow> is_confirmation b (EthereumAddr c) pid m"
| "sends b c pid BatchCreatorLoop m \<longleftrightarrow> is_request m"
| "sends b c pid RelayerLoop m \<longleftrightarrow> False"

lemma effects_mono:
  "keeps (effects B T) m \<Longrightarrow> (\<And>x. B x \<Longrightarrow> B' x) \<Longrightarrow> (\<And>x. T x \<Longrightarrow> T' x) \<Longrightarrow> keeps (effects B' T') m"
  by (fastforce simp: keeps_def effects_def submits_def)

lemma iteration_effects:
  assumes "injective s = network_of q b t" "ethereum s = eth_of n" "retry_laws (retry_Do s)" "feed_silent s"
    and "signer_faithful (fromSigner (EVMCommitter (en_PeggyContract n)))"
  shows "keeps (effects (sends b (cfg s) pid l) (\<lambda>tx. l = RelayerLoop \<and> is_relayed n (cfg s) tx))
    (iteration wait swapped s pid l st)"
proof (cases l)
  case OracleLoop
  then show ?thesis by (auto intro!: effects_mono [OF oracle_effects [OF assms(1-3)]])
next
  case SignerLoop
  then show ?thesis
    by (auto intro!: effects.keeps_rules effects_mono [OF signer_effects [OF assms(1,3)]])
next
  case BatchCreatorLoop
  then show ?thesis
    by (auto intro!: effects.keeps_rules effects_mono [OF creator_effects [OF assms(1-4)]])
next
  case RelayerLoop
  then show ?thesis
    by (auto intro!: effects.keeps_rules effects_mono [OF relayer_effects [OF assms(1-3,5)]])
qed

text \<open>The invariant of the running orchestrator: which loops there are, and what has been sent since the start.\<close>

definition loops_of :: "'e Orchestrator \<Rightarrow> loop set" where
  "loops_of s = (if RelayerMode (cfg s) then {} else {OracleLoop, SignerLoop}) \<union> {BatchCreatorLoop} \<union> relayer_loop s"

definition orchestrator_inv :: "'e Orchestrator \<Rightarrow> 'e broadcastClient \<Rightarrow> 'e eth_network \<Rightarrow> 'e world \<Rightarrow> 'e running \<Rightarrow> bool" where
  "orchestrator_inv s b n w r \<longleftrightarrow> rn_loops r \<subseteq> loops_of s \<and>
     effects (\<lambda>m. \<exists>l \<in> loops_of s. sends b (cfg s) (rn_peggyID r) l m)
       (\<lambda>tx. RelayerLoop \<in> loops_of s \<and> is_relayed n (cfg s) tx) w (rn_world r)"

lemma Run_silent:
  assumes "injective s = network_of q b t" "ethereum s = eth_of n"
  shows "keeps silently (Run s (injective s) (ethereum s))"
proof -
  have read: "keeps silently (n_LastClaimEventByAddr (injective s) a)" "keeps silently (n_PeggyParams (injective s))"
    "keeps silently (e_GetPeggyID (ethereum s))" for a
    unfolding assms by (intro silent_silently inj.query_silent eth_net.read_silent)+
  show ?thesis
    unfolding Run_def startValidatorMode_def startRelayerMode_def value_or_def getLastClaimBlockHeight_def
    by (intro silently.keeps_rules read)
qed

lemma Run_loops:
  assumes "Run s injNet eth w = (Ok (loops, height, pid), w')"
  shows "loops = loops_of s"
  using assms
  by (auto simp: Run_def startValidatorMode_def startRelayerMode_def loops_of_def fatal_simp elim!: bindE_OkE attempt_OkE
      split: if_splits)

lemma loop_step_inv:
  assumes "injective s = network_of q b t" "ethereum s = eth_of n" "retry_laws (retry_Do s)" "feed_silent s"
    and "signer_faithful (fromSigner (EVMCommitter (en_PeggyContract n)))"
    and "loop_step s r r'" "orchestrator_inv s b n w r"
  shows "orchestrator_inv s b n w r'"
proof -
  let ?B = "\<lambda>m. \<exists>l \<in> loops_of s. sends b (cfg s) (rn_peggyID r) l m"
  let ?T = "\<lambda>tx. RelayerLoop \<in> loops_of s \<and> is_relayed n (cfg s) tx"
  have ran: "effects ?B ?T w w'"
    if "l \<in> rn_loops r" "iteration wait swapped s (rn_peggyID r) l (rn_oracle r) (rn_world r) = (x, w')" for l wait swapped x w'
  proof -
    have l: "l \<in> loops_of s" using that(1) assms(7) by (auto simp: orchestrator_inv_def)
    have "keeps (effects ?B ?T) (iteration wait swapped s (rn_peggyID r) l (rn_oracle r))"
      using l by (auto intro!: effects_mono [OF iteration_effects [OF assms(1-5)]])
    from keepsD [OF this that(2)] assms(7) show ?thesis
      unfolding orchestrator_inv_def by (blast intro: effects.P_trans)
  qed
  have moved: "effects ?B ?T w ((rn_world r)\<lparr>outside := o'\<rparr>)" for o'
    using assms(7) unfolding orchestrator_inv_def
    by (blast intro: effects.P_trans effects.P_pause [unfolded pause_def])
  have loops: "rn_loops r \<subseteq> loops_of s" using assms(7) by (simp add: orchestrator_inv_def)
  from assms(6) show ?thesis
    by cases (use ran moved loops in \<open>auto simp: orchestrator_inv_def\<close>)
qed

lemma orchestrator_inv_runs:
  assumes "injective s = network_of q b t" "ethereum s = eth_of n" "retry_laws (retry_Do s)" "feed_silent s"
    and "signer_faithful (fromSigner (EVMCommitter (en_PeggyContract n)))"
    and "orchestrator_runs s w r"
  shows "orchestrator_inv s b n w r"
  using assms(6)
proof induction
  case (starts loops height pid w' t)
  have "silently w w'" using keepsD [OF Run_silent [OF assms(1,2)] starts] .
  then show ?case
    using Run_loops [OF starts] by (simp add: orchestrator_inv_def silently_def effects_def submits_def)
next
  case (goes_on r r')
  then show ?case using loop_step_inv [OF assms(1-5)] by blast
qed

lemma feed_silent_coingecko: "priceFeed s = QueryUSDPrice G H cp \<Longrightarrow> feed_silent s"
  using QueryUSDPrice_keeps by (auto simp: feed_silent_def silent_def intro!: silent_silently)

text \<open>In relayer mode, however the loops interleave, whatever the nodes answer and whichever loops have
  failed: every message broadcast to Injective since the start is a request for a batch, so nothing is
  claimed, and nothing is confirmed with the validator's key; and every transaction submitted to Ethereum is a
  validator set update or a batch of the kinds the configuration enables.\<close>

theorem relayer_mode_restricted:
  assumes "injective s = network_of q b t" "ethereum s = eth_of n" "retry_laws (retry_Do s)"
    and "priceFeed s = QueryUSDPrice G H cp"
    and "signer_faithful (fromSigner (EVMCommitter (en_PeggyContract n)))"
    and "RelayerMode (cfg s)" "orchestrator_runs s w r"
  shows "\<exists>xs ys. broadcasts (rn_world r) = broadcasts w @ xs \<and> (\<forall>x \<in> set xs. is_request (fst x)) \<and>
    submitted (rn_world r) = submitted w @ ys \<and> (\<forall>y \<in> set ys. is_relayed n (cfg s) (fst y))"
proof -
  have "orchestrator_inv s b n w r"
    using orchestrator_inv_runs [OF assms(1-3) feed_silent_coingecko [OF assms(4)] assms(5,7)] .
  moreover have "sends b (cfg s) pid l m \<Longrightarrow> l \<in> loops_of s \<Longrightarrow> is_request m" for pid l m
    using assms(6) by (auto simp: loops_of_def relayer_loop_def split: if_splits)
  ultimately show ?thesis
    unfolding orchestrator_inv_def effects_def submits_def by blast
qed

text \<open>In validator mode, likewise: every message broadcast since the start is a claim of an event, a
  confirmation signed with the orchestrator's key for the contract id read at the start, or a request for a
  batch; and every transaction submitted is a validator set update or a batch of the enabled kinds.\<close>

theorem validator_mode_restricted:
  assumes "injective s = network_of q b t" "ethereum s = eth_of n" "retry_laws (retry_Do s)"
    and "priceFeed s = QueryUSDPrice G H cp"
    and "signer_faithful (fromSigner (EVMCommitter (en_PeggyContract n)))"
    and "\<not> RelayerMode (cfg s)" "orchestrator_runs s w r"
  shows "\<exists>xs ys. broadcasts (rn_world r) = broadcasts w @ xs \<and>
    (\<forall>x \<in> set xs. is_claim (fst x) \<or> is_request (fst x) \<or> is_confirmation b (EthereumAddr (cfg s)) (rn_peggyID r) (fst x)) \<and>
    submitted (rn_world r) = submitted w @ ys \<and> (\<forall>y \<in> set ys. is_relayed n (cfg s) (fst y))"
proof -
  have "orchestrator_inv s b n w r"
    using orchestrator_inv_runs [OF assms(1-3) feed_silent_coingecko [OF assms(4)] assms(5,7)] .
  moreover have "is_claim m \<or> is_request m \<or> is_confirmation b (EthereumAddr (cfg s)) pid m"
    if "sends b (cfg s) pid l m" for pid l m using that by (cases l) auto
  ultimately show ?thesis
    unfolding orchestrator_inv_def effects_def submits_def by blast
qed

text \<open>When validator mode has started, the oracle's first height is that of the validator's last claim; or,
  when that is zero or could not be read, the height from which Injective's parameters say the bridge
  contract exists; and the contract's id is the one the contract reported.\<close>

theorem validator_start:
  assumes "\<not> RelayerMode (cfg s)" "Run s injNet eth w = (Ok (loops, height, pid), w')"
  shows "\<exists>w1 w2. e_GetPeggyID eth w2 = (Ok pid, w') \<and>
    (height \<noteq> 0 \<and> w2 = w1 \<and>
       (\<exists>claim. n_LastClaimEventByAddr injNet (CosmosAddr (cfg s)) w = (Ok (Some claim), w1) \<and> height = lc_EthereumEventHeight claim) \<or>
     (\<exists>params. n_PeggyParams injNet w1 = (Ok params, w2) \<and> height = pp_BridgeContractStartHeight params \<and>
       ((\<exists>e. n_LastClaimEventByAddr injNet (CosmosAddr (cfg s)) w = (Err e, w1)) \<or>
        (\<exists>claim. n_LastClaimEventByAddr injNet (CosmosAddr (cfg s)) w = (Ok (Some claim), w1) \<and> lc_EthereumEventHeight claim = 0))))"
proof -
  have last: "(\<exists>claim. n_LastClaimEventByAddr injNet (CosmosAddr (cfg s)) w = (Ok (Some claim), w1) \<and> h = lc_EthereumEventHeight claim) \<or>
      h = 0 \<and> (\<exists>e. n_LastClaimEventByAddr injNet (CosmosAddr (cfg s)) w = (Err e, w1))"
    if "value_or 0 (getLastClaimBlockHeight s injNet) w = (Ok h, w1)" for h w1
    using that
    by (auto simp: value_or_def getLastClaimBlockHeight_def io_simps
        split: prod.splits res.splits sum.splits option.splits)
  from assms obtain h w1 w2 where
    1: "value_or 0 (getLastClaimBlockHeight s injNet) w = (Ok h, w1)"
    "if h = 0 then \<exists>params. n_PeggyParams injNet w1 = (Ok params, w2) \<and> height = pp_BridgeContractStartHeight params
     else height = h \<and> w2 = w1"
    "e_GetPeggyID eth w2 = (Ok pid, w')"
    by (auto simp: Run_def startValidatorMode_def fatal_simp elim!: bindE_OkE attempt_OkE split: if_splits)
  from last [OF 1(1)] 1(2,3) show ?thesis
    by (intro exI [of _ w1] exI [of _ w2]) (auto split: if_splits)
qed

section \<open>Concrete runs\<close>

definition sample_validator :: "nat Orchestrator" where
  "sample_validator = (sample_creator (priced 1))\<lparr>cfg := sample_config\<rparr>"

lemma sample_validator_parts:
  "injective sample_validator = network_of sample_queries sample_broadcaster sample_rpc"
  "ethereum sample_validator = eth_of sample_eth" "retry_laws (retry_Do sample_validator)"
  "priceFeed sample_validator = QueryUSDPrice unary_geth (constant_http (priced 1)) sample_feed"
  "\<not> RelayerMode (cfg sample_validator)" "CosmosAddr (cfg sample_validator) = [111]"
  by (simp_all add: sample_validator_def sample_creator_parts sample_config_def simple_retry_laws)

lemma sample_validator_starts:
  "Run sample_validator (injective sample_validator) (ethereum sample_validator) w =
     (Ok ({OracleLoop, SignerLoop, BatchCreatorLoop, RelayerLoop}, 10, 77), w)"
proof -
  have "getLastClaimBlockHeight sample_validator (injective sample_validator) w = (Ok 10, w)"
    by (simp add: getLastClaimBlockHeight_def sample_validator_parts network_sel LastClaimEventByAddr_def query_eq
        sample_queries_def io_simps)
  moreover have "e_GetPeggyID (ethereum sample_validator) w = (Ok 77, w)"
    by (simp add: sample_validator_parts eth_of_def net_GetPeggyID_def GetPeggyID_def sample_eth_def
        sample_contract_def io_simps)
  moreover have "relayer_loop sample_validator = {RelayerLoop}"
    by (simp add: relayer_loop_def sample_validator_def sample_config_def)
  ultimately show ?thesis
    using sample_validator_parts(5) by (simp add: Run_def startValidatorMode_def value_or_def io_simps) auto
qed

theorem validator_start_witness:
  "\<exists>w2 pid. e_GetPeggyID (ethereum sample_validator) w2 = (Ok pid, sample_world 0) \<and> pid = 77"
  using validator_start [OF sample_validator_parts(5) sample_validator_starts [of "sample_world 0"]] by blast

theorem validator_mode_restricted_witness:
  "\<exists>r. orchestrator_runs sample_validator (sample_world 0) r \<and> OracleLoop \<in> rn_loops r \<and>
     (\<forall>x \<in> set (broadcasts (rn_world r)). is_claim (fst x) \<or> is_request (fst x) \<or>
        is_confirmation sample_broadcaster (EthereumAddr (cfg sample_validator)) (rn_peggyID r) (fst x))"
proof -
  let ?r = "\<lparr>rn_loops = {OracleLoop, SignerLoop, BatchCreatorLoop, RelayerLoop}, rn_errors = [],
      rn_oracle = \<lparr>lastResyncWithInjective = 0, lastObservedEthHeight = 10\<rparr>, rn_peggyID = 77, rn_world = sample_world 0\<rparr>"
  have r: "orchestrator_runs sample_validator (sample_world 0) ?r" by (rule starts [OF sample_validator_starts])
  have "broadcasts (sample_world (0::nat)) = []" by (simp add: sample_world_def)
  with validator_mode_restricted [OF sample_validator_parts(1-4) sample_eth_faithful sample_validator_parts(5) r] r
  show ?thesis by (intro exI [of _ ?r]) auto
qed

theorem relayer_mode_restricted_witness:
  "\<exists>r. orchestrator_runs (sample_creator (priced (10 ^ 16))) (sample_world 0) r \<and> broadcasts (rn_world r) \<noteq> [] \<and>
     (\<forall>x \<in> set (broadcasts (rn_world r)). is_request (fst x))"
proof -
  let ?s = "sample_creator (priced (10 ^ 16))"
  let ?st = "\<lparr>lastResyncWithInjective = 0, lastObservedEthHeight = 0\<rparr>"
  let ?r = "\<lparr>rn_loops = {BatchCreatorLoop} \<union> relayer_loop ?s, rn_errors = [], rn_oracle = ?st,
      rn_peggyID = 0, rn_world = sample_world 0\<rparr>"
  have mode: "RelayerMode (cfg ?s)" by (simp add: sample_creator_def)
  then have "Run ?s (injective ?s) (ethereum ?s) (sample_world 0) =
      (Ok ({BatchCreatorLoop} \<union> relayer_loop ?s, 0, 0), sample_world 0)"
    by (simp add: Run_def startRelayerMode_def io_simps)
  then have start: "orchestrator_runs ?s (sample_world 0) ?r" by (rule starts)
  obtain w' where run: "requestTokenBatches ?s (sample_world 0) = (Ok (), w')" "broadcasts w' \<noteq> []"
    using sample_creator_requests by blast
  have "loop_step ?s ?r (?r\<lparr>rn_oracle := ?st, rn_world := w'\<rparr>)"
    by (rule iterates [of BatchCreatorLoop _ "\<lambda>_. None" False]) (use run in \<open>simp_all add: io_simps\<close>)
  with start have r: "orchestrator_runs ?s (sample_world 0) (?r\<lparr>rn_oracle := ?st, rn_world := w'\<rparr>)"
    by (rule goes_on)
  have "broadcasts (sample_world (0::nat)) = []" by (simp add: sample_world_def)
  with relayer_mode_restricted [OF sample_creator_parts(1-3,5) sample_eth_faithful mode r] r run(2)
  show ?thesis by (intro exI [of _ "?r\<lparr>rn_oracle := ?st, rn_world := w'\<rparr>"]) auto
qed

end
