(* ===== verification/Keystore.thy ===== *)
theory Keystore
  imports EthUtil GoFloat
begin

text \<open>
  \<open>orchestrator/ethereum/keystore\<close>: the cache of decrypted private keys and the store of key files. The
  cryptography and the file system are arguments. The state is that of \<open>keyCache\<close> and \<open>keyStore\<close> together
  with the outside world the files are part of; the mutexes of the source make the operations on one
  account sequential, which is what the state passing expresses. \<open>k_found\<close> is the variable \<open>Accounts\<close> collects
  its result in.
\<close>

section \<open>State\<close>

record 'pk crypto_lib =
  HexToECDSA :: "string \<Rightarrow> goerr + 'pk"
  PubkeyToAddress :: "'pk \<Rightarrow> address"
  TextHash :: "bytes \<Rightarrow> bytes"
  crypto_Sign :: "bytes \<Rightarrow> 'pk \<Rightarrow> goerr + bytes"
  DecryptKey :: "bytes \<Rightarrow> string \<Rightarrow> goerr + 'pk"
  sha1_Sum :: "bytes \<Rightarrow> bytes"
  IsHexAddress :: "string \<Rightarrow> bool"

record WalletSpec =
  ws_Address :: string
  ws_ID :: string
  ws_Version :: int
  ws_Path :: string

text \<open>
  The files: reading one, decoding one (\<open>None\<close> is the JSON \<open>null\<close>), and what \<open>filepath.Walk\<close> finds below a
  directory, in lexical order: for each entry its path and whether it is a directory, or the error of
  reading its attributes.
\<close>

record 'e file_lib =
  ReadFile :: "string \<Rightarrow> 'e \<Rightarrow> (goerr + bytes) \<times> 'e"
  dir_entries :: "string \<Rightarrow> 'e \<Rightarrow> (goerr + (string \<times> (goerr + bool)) list) \<times> 'e"
  os_Stat_IsDir :: "string \<Rightarrow> 'e \<Rightarrow> (goerr + bool) \<times> 'e"
  unmarshal_spec :: "bytes \<Rightarrow> goerr + WalletSpec option"

record ('e, 'pk) keyStore =
  k_outside :: 'e
  k_paths :: "address \<rightharpoonup> string"
  k_keys :: "bytes \<rightharpoonup> 'pk"
  k_guard :: "address set"
  k_found :: "address list"
  k_dirs :: "string set"

text \<open>A library call on the files.\<close>

definition file_call :: "('e \<Rightarrow> (goerr + 'a) \<times> 'e) \<Rightarrow> (('e, 'pk) keyStore, 'a) io" where
  "file_call f = (\<lambda>k. case f (k_outside k) of
      (Inl e, o') \<Rightarrow> (Err e, k\<lparr>k_outside := o'\<rparr>) | (Inr x, o') \<Rightarrow> (Ok x, k\<lparr>k_outside := o'\<rparr>))"

definition update :: "(('e, 'pk) keyStore \<Rightarrow> ('e, 'pk) keyStore) \<Rightarrow> (('e, 'pk) keyStore, unit) io" where
  "update f = (\<lambda>k. (Ok (), f k))"

definition gets :: "(('e, 'pk) keyStore \<Rightarrow> 'a) \<Rightarrow> (('e, 'pk) keyStore, 'a) io" where
  "gets f = (\<lambda>k. (Ok (f k), k))"

lemma key_simps [io_simps]:
  "file_call f k = (case f (k_outside k) of
      (Inl e, o') \<Rightarrow> (Err e, k\<lparr>k_outside := o'\<rparr>) | (Inr x, o') \<Rightarrow> (Ok x, k\<lparr>k_outside := o'\<rparr>))"
  "update g k = (Ok (), g k)" "gets h k = (Ok (h k), k)"
  by (simp_all add: file_call_def update_def gets_def)

section \<open>The key cache\<close>

definition hashSep :: bytes where
  "hashSep = [45]"

text \<open>The twenty bytes of an address, most significant first.\<close>

definition address_bytes :: "address \<Rightarrow> bytes" where
  "address_bytes a = map (\<lambda>i. ucast (drop_bit (8 * (19 - i)) a)) [0..<20]"

definition string_bytes :: "string \<Rightarrow> bytes" where
  "string_bytes s = map of_char s"

definition hashAccountPass :: "'pk crypto_lib \<Rightarrow> address \<Rightarrow> string \<Rightarrow> bytes" where
  "hashAccountPass C account password =
     sha1_Sum C (address_bytes account @ hashSep @ string_bytes password)"

definition SetPath :: "address \<Rightarrow> string \<Rightarrow> (('e, 'pk) keyStore, bool) io" where
  "SetPath account path =
     bindE (gets (\<lambda>k. k_paths k account \<noteq> None)) (\<lambda>existing.
     bindE (update (\<lambda>k. k\<lparr>k_paths := (k_paths k)(account \<mapsto> path)\<rparr>)) (\<lambda>_. ret existing))"

definition UnsetPath :: "address \<Rightarrow> (('e, 'pk) keyStore, unit) io" where
  "UnsetPath account = update (\<lambda>k. k\<lparr>k_paths := (k_paths k)(account := None)\<rparr>)"

definition UnsetKey :: "'pk crypto_lib \<Rightarrow> address \<Rightarrow> string \<Rightarrow> (('e, 'pk) keyStore, unit) io" where
  "UnsetKey C account password =
     update (\<lambda>k. k\<lparr>k_keys := (k_keys k)(hashAccountPass C account password := None)\<rparr>)"

definition SetPrivateKey :: "'pk crypto_lib \<Rightarrow> address \<Rightarrow> 'pk \<Rightarrow> (('e, 'pk) keyStore, unit) io" where
  "SetPrivateKey C account pk =
     update (\<lambda>k. k\<lparr>k_keys := (k_keys k)(hashAccountPass C account [] \<mapsto> pk)\<rparr>)"

definition PrivateKey ::
  "'pk crypto_lib \<Rightarrow> 'e file_lib \<Rightarrow> geth_lib \<Rightarrow> address \<Rightarrow> string \<Rightarrow> (('e, 'pk) keyStore, 'pk) io" where
  "PrivateKey C F G account password =
     (let h = hashAccountPass C account password in
      bindE (update (\<lambda>k. k\<lparr>k_guard := insert account (k_guard k)\<rparr>)) (\<lambda>_.
      bindE (gets (\<lambda>k. k_keys k h)) (\<lambda>cached. case cached of
        Some v \<Rightarrow> ret v
      | None \<Rightarrow>
          bindE (gets (\<lambda>k. k_paths k account)) (\<lambda>p. case p of
            None \<Rightarrow> throw (ErrorNew (''no keystore path set for account '' @ AddressHex G account))
          | Some path \<Rightarrow>
              bindE (wrapE ''failed to load a file from keystore''
                       (file_call (ReadFile F (TrimPrefix path ''keystore://'')))) (\<lambda>keyJSON.
              bindE (wrapE ''key decryption failed'' (pure_call (case DecryptKey C keyJSON password of
                       Inl e \<Rightarrow> Err e | Inr pk \<Rightarrow> Ok pk))) (\<lambda>pk.
              bindE (update (\<lambda>k. k\<lparr>k_keys := (k_keys k)(h \<mapsto> pk)\<rparr>)) (\<lambda>_. ret pk)))))))"

text \<open>\<open>NewKeyedTransactorWithChainID\<close> is an argument: the signer for a key and a chain.\<close>

definition SignerFn ::
  "('pk \<Rightarrow> int \<Rightarrow> goerr + 'signer) \<Rightarrow> 'pk crypto_lib \<Rightarrow> 'e file_lib \<Rightarrow> geth_lib \<Rightarrow> u64 \<Rightarrow> address \<Rightarrow> string \<Rightarrow>
     (('e, 'pk) keyStore, 'signer) io" where
  "SignerFn newTransactor C F G chainID account password =
     bindE (PrivateKey C F G account password) (\<lambda>key.
       case newTransactor key (uint chainID) of
         Inl e \<Rightarrow> throw (Wrapped ''failed to init NewKeyedTransactorWithChainID'' e)
       | Inr signer \<Rightarrow> ret signer)"

definition sign_with :: "'pk crypto_lib \<Rightarrow> 'pk \<Rightarrow> address \<Rightarrow> bytes \<Rightarrow> goerr + bytes" where
  "sign_with C key from data =
     (if from \<noteq> PubkeyToAddress C key then Inl (ErrorNew ''from address mismatch'')
      else crypto_Sign C (TextHash C data) key)"

definition PersonalSignFn ::
  "'pk crypto_lib \<Rightarrow> 'e file_lib \<Rightarrow> geth_lib \<Rightarrow> address \<Rightarrow> string \<Rightarrow>
     (('e, 'pk) keyStore, address \<Rightarrow> bytes \<Rightarrow> goerr + bytes) io" where
  "PersonalSignFn C F G account password =
     bindE (PrivateKey C F G account password) (\<lambda>key.
       if PubkeyToAddress C key \<noteq> account then throw (ErrorNew ''account key address mismatch'')
       else ret (sign_with C key))"

definition PrivateKeyPersonalSignFn :: "'pk crypto_lib \<Rightarrow> 'pk \<Rightarrow> goerr + (address \<Rightarrow> bytes \<Rightarrow> goerr + bytes)" where
  "PrivateKeyPersonalSignFn C privKey = Inr (sign_with C privKey)"

section \<open>The key store\<close>

text \<open>\<open>sort.StringSlice\<close>: Go orders strings bytewise, like \<open>bytes.Compare\<close>.\<close>

definition string_less :: "string \<Rightarrow> string \<Rightarrow> bool" where
  "string_less a b = EthAddrLessThan a b"

text \<open>
  The order of iteration over a Go map is unspecified: \<open>enum\<close> lists the set in some order, and the sorted
  list does not depend on it (\<open>Paths_canonical\<close>).
\<close>

definition Paths :: "(string set \<Rightarrow> string list) \<Rightarrow> (('e, 'pk) keyStore, string list) io" where
  "Paths enum = gets (\<lambda>k. sort_slice string_less (enum (k_dirs k)))"

definition AddressFromHex :: "geth_lib \<Rightarrow> WalletSpec \<Rightarrow> address" where
  "AddressFromHex G spec = HexToAddress G (ws_Address spec)"

text \<open>
  \<open>forEachWallet\<close>: the entries of the directory up to the first problem. Directories are skipped. A file
  holding \<open>null\<close> leaves the pointer nil, which is then dereferenced.
\<close>

fun visit ::
  "'pk crypto_lib \<Rightarrow> 'e file_lib \<Rightarrow> (string \<times> (goerr + bool)) list \<Rightarrow> (WalletSpec \<Rightarrow> (('e, 'pk) keyStore, unit) io) \<Rightarrow>
     (('e, 'pk) keyStore, unit) io" where
  "visit C F [] fn = ret ()"
| "visit C F ((path, Inl e) # entries) fn = throw e"
| "visit C F ((path, Inr True) # entries) fn = visit C F entries fn"
| "visit C F ((path, Inr False) # entries) fn =
     bindE (file_call (ReadFile F path)) (\<lambda>data.
     (case unmarshal_spec F data of
        Inl e \<Rightarrow> throw e
      | Inr p \<Rightarrow> bindE (deref p) (\<lambda>spec.
          if ws_Address spec = [] then throw (ErrorNew (''failed to load address from '' @ path))
          else if \<not> IsHexAddress C (ws_Address spec) then throw (ErrorNew (''wrong (not hex) address from '' @ path))
          else bindE (fn (spec\<lparr>ws_Path := path\<rparr>)) (\<lambda>_. visit C F entries fn))))"

definition forEachWallet ::
  "'pk crypto_lib \<Rightarrow> 'e file_lib \<Rightarrow> string \<Rightarrow> (WalletSpec \<Rightarrow> (('e, 'pk) keyStore, unit) io) \<Rightarrow> (('e, 'pk) keyStore, unit) io" where
  "forEachWallet C F keystorePath fn =
     bindE (file_call (dir_entries F keystorePath)) (\<lambda>entries. visit C F entries fn)"

definition reloadPathsCache ::
  "(string set \<Rightarrow> string list) \<Rightarrow> 'pk crypto_lib \<Rightarrow> 'e file_lib \<Rightarrow> geth_lib \<Rightarrow> (('e, 'pk) keyStore, unit) io" where
  "reloadPathsCache enum C F G = bindE (Paths enum) (\<lambda>paths. forE paths (\<lambda>keystorePath.
     bindE (attempt (forEachWallet C F keystorePath
              (\<lambda>spec. bindE (SetPath (AddressFromHex G spec) (ws_Path spec)) (\<lambda>_. ret ())))) (\<lambda>_. ret ())))"

definition Accounts ::
  "(string set \<Rightarrow> string list) \<Rightarrow> 'pk crypto_lib \<Rightarrow> 'e file_lib \<Rightarrow> geth_lib \<Rightarrow> (('e, 'pk) keyStore, address list) io" where
  "Accounts enum C F G = bindE (update (\<lambda>k. k\<lparr>k_found := []\<rparr>)) (\<lambda>_.
     bindE (Paths enum) (\<lambda>paths. bindE (forE paths (\<lambda>keystorePath.
       bindE (attempt (forEachWallet C F keystorePath
                (\<lambda>spec. update (\<lambda>k. k\<lparr>k_found := k_found k @ [AddressFromHex G spec]\<rparr>)))) (\<lambda>_. ret ())))
     (\<lambda>_. gets k_found)))"

definition New ::
  "(string set \<Rightarrow> string list) \<Rightarrow> 'pk crypto_lib \<Rightarrow> 'e file_lib \<Rightarrow> geth_lib \<Rightarrow> string list \<Rightarrow> 'e \<Rightarrow> unit res \<times> ('e, 'pk) keyStore" where
  "New enum C F G paths o1 = reloadPathsCache enum C F G
     \<lparr>k_outside = o1, k_paths = Map.empty, k_keys = Map.empty, k_guard = {}, k_found = [], k_dirs = set paths\<rparr>"

definition AddPath ::
  "(string set \<Rightarrow> string list) \<Rightarrow> 'pk crypto_lib \<Rightarrow> 'e file_lib \<Rightarrow> geth_lib \<Rightarrow> string \<Rightarrow> (('e, 'pk) keyStore, unit) io" where
  "AddPath enum C F G keystorePath =
     bindE (file_call (os_Stat_IsDir F keystorePath)) (\<lambda>isDir.
       if \<not> isDir then throw (ErrorNew (keystorePath @ '' is not a directory''))
       else bindE (update (\<lambda>k. k\<lparr>k_dirs := insert keystorePath (k_dirs k)\<rparr>))
              (\<lambda>_. reloadPathsCache enum C F G))"

definition RemovePath :: "string \<Rightarrow> (('e, 'pk) keyStore, unit) io" where
  "RemovePath keystorePath = update (\<lambda>k. k\<lparr>k_dirs := k_dirs k - {keystorePath}\<rparr>)"

interpretation by_path: strict_weak string_less
  unfolding string_less_def
  by unfold_locales (use EthAddrLessThan_asym not_EthAddrLessThan_trans in blast)+

lemma Paths_canonical: "mset ys = mset xs \<Longrightarrow> sort_slice string_less ys = sort_slice string_less xs"
  by (rule by_path.sort_slice_unique)
    (use EthAddrLessThan_total by_path.sorted_sort_slice in \<open>auto simp: string_less_def\<close>)

section \<open>The cache\<close>

lemma address_bytes_inj: "address_bytes a = address_bytes b \<Longrightarrow> a = b"
proof (rule bit_word_eqI)
  fix n
  assume eq: "address_bytes a = address_bytes b" and n: "n < LENGTH(160)"
  then have i: "19 - n div 8 < 20" "19 - (19 - n div 8) = n div 8" by simp_all
  from eq have "address_bytes a ! (19 - n div 8) = address_bytes b ! (19 - n div 8)" by simp
  then have "(ucast (drop_bit (8 * (n div 8)) a) :: u8) = ucast (drop_bit (8 * (n div 8)) b)"
    using i by (simp add: address_bytes_def)
  then have "bit (ucast (drop_bit (8 * (n div 8)) a) :: u8) (n mod 8) = bit (ucast (drop_bit (8 * (n div 8)) b) :: u8) (n mod 8)"
    by simp
  then show "bit a n = bit b n"
    by (simp add: bit_ucast_iff bit_drop_bit_eq)
qed

lemma of_char_byte: "(of_char c :: u8) = of_char d \<longleftrightarrow> c = d"
proof -
  have byte: "unat (of_char x :: u8) = (of_char x :: nat)" for x
  proof -
    have "(of_char x :: u8) = of_nat (of_char x)" by (simp add: of_nat_of_char)
    then show ?thesis using nat_of_char_less_256 [of x] by (simp add: unat_of_nat)
  qed
  show ?thesis
  proof
    assume "(of_char c :: u8) = of_char d"
    then have "(of_char c :: nat) = of_char d" using byte by metis
    then show "c = d" by simp
  qed simp
qed

lemma string_bytes_inj: "string_bytes s = string_bytes t \<Longrightarrow> s = t"
  unfolding string_bytes_def by (rule map_injective) (auto simp: of_char_byte intro: injI)

lemma hashAccountPass_inj:
  assumes "inj (sha1_Sum C)" "hashAccountPass C a p = hashAccountPass C b q"
  shows "a = b \<and> p = q"
proof -
  have "address_bytes a @ hashSep @ string_bytes p = address_bytes b @ hashSep @ string_bytes q"
    using assms by (simp add: hashAccountPass_def inj_eq)
  moreover have "length (address_bytes a) = length (address_bytes b)" by (simp add: address_bytes_def)
  ultimately show ?thesis using address_bytes_inj string_bytes_inj by (simp add: append_eq_append_conv)
qed

text \<open>A successful lookup: the key was cached, or it was decrypted with this password from the account's file.\<close>

lemma PrivateKey_Ok:
  assumes "PrivateKey C F G account password k = (Ok pk, k')"
  shows "k_keys k' = (k_keys k)(hashAccountPass C account password \<mapsto> pk) \<and>
    k_paths k' = k_paths k \<and> k_dirs k' = k_dirs k \<and> account \<in> k_guard k' \<and>
    (k_keys k (hashAccountPass C account password) = Some pk \<or>
     k_keys k (hashAccountPass C account password) = None \<and>
     (\<exists>path json. k_paths k account = Some path \<and>
        fst (ReadFile F (TrimPrefix path ''keystore://'') (k_outside k)) = Inr json \<and> DecryptKey C json password = Inr pk))"
proof (cases "k_keys k (hashAccountPass C account password)")
  case (Some v)
  then show ?thesis using assms by (auto simp: PrivateKey_def Let_def io_simps fun_upd_idem)
next
  case None
  then obtain path where "k_paths k account = Some path"
    using assms by (auto simp: PrivateKey_def Let_def io_simps split: option.splits)
  then show ?thesis using assms None
    by (auto simp: PrivateKey_def Let_def io_simps split: prod.splits sum.splits res.splits)
qed

text \<open>A key that was obtained once is obtained again with the same account and password, whatever has become of
  the files, and nothing but the cache is looked at.\<close>

theorem PrivateKey_cached:
  assumes "PrivateKey C F G account password k = (Ok pk, k')"
  shows "PrivateKey C F' G account password k' = (Ok pk, k')"
proof -
  have "k_keys k' (hashAccountPass C account password) = Some pk" "insert account (k_guard k') = k_guard k'"
    using PrivateKey_Ok [OF assms] by auto
  then show ?thesis by (simp add: PrivateKey_def Let_def io_simps)
qed

text \<open>When SHA-1 has no collisions, a cached key serves only the account and password it was obtained with: after
  a lookup, another account or password still finds what it found before, and if that was nothing it gets a
  key only from a file that this password decrypts.\<close>

theorem PrivateKey_isolated:
  assumes "inj (sha1_Sum C)" "PrivateKey C F G account password k = (Ok pk, k1)"
    and "(account', password') \<noteq> (account, password)"
    and "PrivateKey C F G account' password' k1 = (Ok pk', k2)"
  shows "k_keys k (hashAccountPass C account' password') = Some pk' \<or>
    (\<exists>path json. k_paths k account' = Some path \<and>
       fst (ReadFile F (TrimPrefix path ''keystore://'') (k_outside k1)) = Inr json \<and> DecryptKey C json password' = Inr pk')"
proof -
  have "hashAccountPass C account' password' \<noteq> hashAccountPass C account password"
    using hashAccountPass_inj [OF assms(1)] assms(3) by auto
  then have "k_keys k1 (hashAccountPass C account' password') = k_keys k (hashAccountPass C account' password')"
    "k_paths k1 = k_paths k"
    using PrivateKey_Ok [OF assms(2)] by auto
  with PrivateKey_Ok [OF assms(4)] show ?thesis by auto
qed

lemma PersonalSignFn_signs:
  assumes "PersonalSignFn C F G account password k = (Ok f, k')"
  shows "\<exists>key. PubkeyToAddress C key = account \<and> k_keys k' (hashAccountPass C account password) = Some key \<and>
    (\<forall>from data. f from data = (if from = account then crypto_Sign C (TextHash C data) key
       else Inl (ErrorNew ''from address mismatch'')))"
proof -
  obtain key k1 where "PrivateKey C F G account password k = (Ok key, k1)"
    "(if PubkeyToAddress C key \<noteq> account then throw (ErrorNew ''account key address mismatch'')
      else ret (sign_with C key)) k1 = (Ok f, k')"
    using assms unfolding PersonalSignFn_def by (elim bindE_OkE)
  moreover from this(1) have "k_keys k1 (hashAccountPass C account password) = Some key"
    using PrivateKey_Ok by fastforce
  ultimately show ?thesis by (auto simp: sign_with_def split: if_splits)
qed

section \<open>A concrete store\<close>

text \<open>Keys are numbers, a key file holds its key and is decrypted by the password "p", and hashing is the identity.\<close>

definition toy_crypto :: "nat crypto_lib" where
  "toy_crypto = \<lparr>HexToECDSA = (\<lambda>s. Inr (length s)), PubkeyToAddress = of_nat, TextHash = (\<lambda>b. b),
     crypto_Sign = (\<lambda>h pk. Inr (of_nat pk # h)),
     DecryptKey = (\<lambda>json pass. if pass = ''p'' then Inr (length json) else Inl (ErrorNew ''could not decrypt key with given password'')),
     sha1_Sum = (\<lambda>b. b), IsHexAddress = (\<lambda>s. s \<noteq> [])\<rparr>"

definition toy_files :: "nat file_lib" where
  "toy_files = \<lparr>ReadFile = (\<lambda>_ n. (Inr [1, 2, 3], n)), dir_entries = (\<lambda>d n. (Inr [(''key'', Inr False)], n)),
     os_Stat_IsDir = (\<lambda>_ n. (Inr True, n)),
     unmarshal_spec = (\<lambda>_. Inr (Some \<lparr>ws_Address = ''abc'', ws_ID = [], ws_Version = 3, ws_Path = []\<rparr>))\<rparr>"

definition toy_store :: "(nat, nat) keyStore" where
  "toy_store = \<lparr>k_outside = 0, k_paths = [3 \<mapsto> ''keystore://key''], k_keys = Map.empty, k_guard = {}, k_found = [], k_dirs = {}\<rparr>"

definition toy_opened :: "(nat, nat) keyStore" where
  "toy_opened = toy_store\<lparr>k_guard := {3}, k_keys := [hashAccountPass toy_crypto 3 ''p'' \<mapsto> 3]\<rparr>"

lemma toy_PrivateKey: "PrivateKey toy_crypto toy_files unary_geth 3 ''p'' toy_store = (Ok 3, toy_opened)"
  by (simp add: PrivateKey_def Let_def io_simps toy_store_def toy_opened_def toy_files_def toy_crypto_def numeral_3_eq_3)

theorem PrivateKey_cached_witness:
  "PrivateKey toy_crypto (toy_files\<lparr>ReadFile := (\<lambda>_ n. (Inl (ErrorNew ''gone''), n))\<rparr>) unary_geth 3 ''p'' toy_opened =
     (Ok 3, toy_opened)"
  by (rule PrivateKey_cached [OF toy_PrivateKey])

theorem PrivateKey_isolated_witness:
  "\<not> (\<exists>pk' k2. PrivateKey toy_crypto toy_files unary_geth 3 ''q'' toy_opened = (Ok pk', k2))"
proof (intro notI, elim exE)
  fix pk' k2
  assume "PrivateKey toy_crypto toy_files unary_geth 3 ''q'' toy_opened = (Ok pk', k2)"
  moreover have "inj (sha1_Sum toy_crypto)" by (simp add: toy_crypto_def inj_on_def)
  ultimately show False
    using PrivateKey_isolated [OF _ toy_PrivateKey, of 3 "''q''" pk' k2]
    by (auto simp: toy_store_def toy_crypto_def)
qed

end
