(* ===== verification/EthKeys.thy ===== *)
theory EthKeys
  imports Keystore CosmosNetwork
begin

text \<open>
  \<open>cmd/peggo/keys.go\<close>: choosing the Ethereum key the process signs with. The command line library hands over
  pointers, which may be nil where the code checks for it.
\<close>

section \<open>Errors\<close>

text \<open>\<open>errors.Wrap(err, msg)\<close> is nil when \<open>err\<close> is.\<close>

definition errors_Wrap :: "goerr option \<Rightarrow> string \<Rightarrow> goerr option" where
  "errors_Wrap err msg = map_option (Wrapped msg) err"

section \<open>The Ethereum key\<close>

text \<open>A wallet of a Ledger device, with what its calls answer.\<close>

record ledger_wallet =
  lw_Open :: "goerr option"
  lw_Contains :: "address \<Rightarrow> bool"
  lw_Close :: "goerr option"
  lw_SignTx :: "address \<Rightarrow> eth_tx \<Rightarrow> int \<Rightarrow> goerr + signed_tx"
  lw_SignText :: "address \<Rightarrow> bytes \<Rightarrow> goerr + bytes"

text \<open>The loop both signing functions run over the wallets.\<close>

fun on_ledger :: "geth_lib \<Rightarrow> address \<Rightarrow> (ledger_wallet \<Rightarrow> goerr + 'a) \<Rightarrow> ledger_wallet list \<Rightarrow> goerr + 'a" where
  "on_ledger G from sign [] = Inl (ErrorNew (''account '' @ AddressHex G from @ '' not found on Ledger''))"
| "on_ledger G from sign (w # wallets) = (case lw_Open w of
     Some e \<Rightarrow> Inl (Wrapped ''failed to connect to wallet on Ledger device'' e)
   | None \<Rightarrow>
       if \<not> lw_Contains w from then (case lw_Close w of
           Some e \<Rightarrow> Inl (Wrapped ''failed to disconnect the wallet on Ledger device'' e)
         | None \<Rightarrow> on_ledger G from sign wallets)
       else sign w)"

text \<open>The libraries the key setup calls.\<close>

record ('e, 'pk) key_env =
  ke_crypto :: "'pk crypto_lib"
  ke_files :: "'e file_lib"
  ke_geth :: geth_lib
  ke_enum :: "string set \<Rightarrow> string list"
  ke_transactor :: "'pk \<Rightarrow> int \<Rightarrow> goerr + (address \<Rightarrow> eth_tx \<Rightarrow> goerr + signed_tx)"
  ke_ledger :: "goerr + ledger_wallet list"
  ke_ReadPassword :: "'e \<Rightarrow> (goerr + string) \<times> 'e"

type_synonym eth_account = "address \<times> SignerFn \<times> PersonalSignFn \<times> goerr option"

definition emptyEthAddress :: address where
  "emptyEthAddress = 0"

definition no_account :: "goerr option \<Rightarrow> eth_account" where
  "no_account err = (emptyEthAddress, None, None, err)"

definition ledger_account :: "('e, 'pk) key_env \<Rightarrow> u64 \<Rightarrow> string option \<Rightarrow> eth_account" where
  "ledger_account K ethChainID ethKeyFrom = (case ethKeyFrom of
      None \<Rightarrow> no_account (Some (ErrorNew ''cannot use Ledger without from address specified''))
    | Some from \<Rightarrow>
        (let ethKeyFromAddress = HexToAddress (ke_geth K) from in
         if ethKeyFromAddress = 0 then no_account (errors_Wrap None ''failed to parse Ethereum from address'')
         else (case ke_ledger K of
             Inl e \<Rightarrow> no_account (errors_Wrap (Some e) ''failed to connect with Ethereum app on Ledger device'')
           | Inr wallets \<Rightarrow>
               (ethKeyFromAddress,
                Some (\<lambda>f tx. on_ledger (ke_geth K) f (\<lambda>w. lw_SignTx w f tx (uint ethChainID)) wallets),
                Some (\<lambda>f data. on_ledger (ke_geth K) f (\<lambda>w. lw_SignText w f data) wallets), None))))"

text \<open>
  With a private key. \<open>err\<close> is nil at the two checks of the address, so the wrapped error is nil as well. The
  address of the transactor is that of the key.
\<close>

definition privkey_account :: "('e, 'pk) key_env \<Rightarrow> u64 \<Rightarrow> string option \<Rightarrow> string \<Rightarrow> eth_account res" where
  "privkey_account K ethChainID ethKeyFrom ethPrivKey = (case HexToECDSA (ke_crypto K) ethPrivKey of
      Inl e \<Rightarrow> Ok (no_account (errors_Wrap (Some e) ''failed to hex-decode Ethereum ECDSA Private Key''))
    | Inr ethPk \<Rightarrow>
        (let ethAddressFromPk = PubkeyToAddress (ke_crypto K) ethPk;
             use_key = (case ke_transactor K ethPk (uint ethChainID) of
                 Inl _ \<Rightarrow> no_account (Some (ErrorNew ''failed to init NewKeyedTransactorWithChainID''))
               | Inr signer \<Rightarrow> (case PrivateKeyPersonalSignFn (ke_crypto K) ethPk of
                     Inl _ \<Rightarrow> no_account (Some (ErrorNew ''failed to init PrivateKeyPersonalSignFn''))
                   | Inr personalSignFn \<Rightarrow> (ethAddressFromPk, Some signer, Some personalSignFn, None)))
         in (case ethKeyFrom of
               None \<Rightarrow> Panic (ErrorNew ''nil pointer dereference'')
             | Some from \<Rightarrow>
                 if from = [] then Ok use_key
                 else (let addr = HexToAddress (ke_geth K) from in
                   if addr = 0 then Ok (no_account (errors_Wrap None ''failed to parse Ethereum from address''))
                   else if addr \<noteq> ethAddressFromPk then
                     Ok (no_account (errors_Wrap None ''Ethereum from address does not match address from ECDSA Private Key''))
                   else Ok use_key))))"

definition ethPassFromStdin :: "('e, 'pk) key_env \<Rightarrow> 'e \<Rightarrow> (goerr + string) \<times> 'e" where
  "ethPassFromStdin K o1 = (case ke_ReadPassword K o1 of
      (Inl e, o2) \<Rightarrow> (Inl (Wrapped ''failed to read password from stdin'' e), o2)
    | (Inr password, o2) \<Rightarrow> (Inr (TrimSpace password), o2))"

text \<open>From a key file. The store is local to the call.\<close>

definition store_account ::
  "('e, 'pk) key_env \<Rightarrow> u64 \<Rightarrow> address \<Rightarrow> string \<Rightarrow> (('e, 'pk) keyStore, eth_account) io" where
  "store_account K ethChainID from pass =
     bindE (attempt (SignerFn (ke_transactor K) (ke_crypto K) (ke_files K) (ke_geth K) ethChainID from pass)) (\<lambda>r.
     case r of
       Inl e \<Rightarrow> ret (no_account (Some (Wrapped ''failed to load key for'' e)))
     | Inr signerFn \<Rightarrow>
         bindE (attempt (PersonalSignFn (ke_crypto K) (ke_files K) (ke_geth K) from pass)) (\<lambda>r. case r of
           Inl e \<Rightarrow> ret (no_account (Some (Wrapped ''failed to load key for'' e)))
         | Inr personalSignFn \<Rightarrow> ret (from, Some signerFn, Some personalSignFn, None)))"

definition keystore_account ::
  "('e, 'pk) key_env \<Rightarrow> u64 \<Rightarrow> string \<Rightarrow> string option \<Rightarrow> string \<Rightarrow> ('e, eth_account) io" where
  "keystore_account K ethChainID ethKeystoreDir ethKeyFrom ethPassphrase = (\<lambda>o1. case ethKeyFrom of
      None \<Rightarrow> (Ok (no_account (Some (ErrorNew ''cannot use Ethereum keystore without from address specified''))), o1)
    | Some from \<Rightarrow>
        (let ethKeyFromAddress = HexToAddress (ke_geth K) from in
         if ethKeyFromAddress = 0 then
           (Ok (no_account (errors_Wrap None ''failed to parse Ethereum from address'')), o1)
         else (case os_Stat_IsDir (ke_files K) ethKeystoreDir o1 of (stat, o2) \<Rightarrow>
           if stat \<noteq> Inr True then (Ok (no_account (Some (ErrorNew ''failed to locate keystore dir''))), o2)
           else (case New (ke_enum K) (ke_crypto K) (ke_files K) (ke_geth K) [ethKeystoreDir] o2 of
               (Ok _, ks) \<Rightarrow>
                 (case (if ethPassphrase \<noteq> [] then (Inr ethPassphrase, k_outside ks)
                        else ethPassFromStdin K (k_outside ks)) of
                    (Inl e, o3) \<Rightarrow> (Ok (no_account (Some e)), o3)
                  | (Inr pass, o3) \<Rightarrow>
                      (case store_account K ethChainID ethKeyFromAddress pass (ks\<lparr>k_outside := o3\<rparr>) of
                         (r, ks') \<Rightarrow> (r, k_outside ks')))
             | (Err e, ks) \<Rightarrow> (Ok (no_account (Some (Wrapped ''failed to load keystore'' e))), k_outside ks)
             | (Panic e, ks) \<Rightarrow> (Panic e, k_outside ks)
             | (Exit, ks) \<Rightarrow> (Exit, k_outside ks)
             | (Diverge, ks) \<Rightarrow> (Diverge, k_outside ks)))))"

definition initEthereumAccountsManager ::
  "('e, 'pk) key_env \<Rightarrow> u64 \<Rightarrow> string \<Rightarrow> string option \<Rightarrow> string \<Rightarrow> string \<Rightarrow> bool \<Rightarrow> ('e, eth_account) io" where
  "initEthereumAccountsManager K ethChainID ethKeystoreDir ethKeyFrom ethPassphrase ethPrivKey ethUseLedger =
     (if ethUseLedger then ret (ledger_account K ethChainID ethKeyFrom)
      else if ethPrivKey \<noteq> [] then pure_call (privkey_account K ethChainID ethKeyFrom ethPrivKey)
      else if ethKeystoreDir \<noteq> [] then keystore_account K ethChainID ethKeystoreDir ethKeyFrom ethPassphrase
      else ret (no_account (Some (ErrorNew ''insufficient ethereum key details provided''))))"

section \<open>Reading the passphrase\<close>

text \<open>
  \<open>passReader\<close>, which answers every read with the passphrase and a newline, over and over: \<open>pr_buf\<close> is what is
  left of the last one. (\<open>orchestrator/cosmos/keyring.go\<close> has the same type.)
\<close>

record passReader =
  pr_pass :: bytes
  pr_buf :: bytes

definition newPassReader :: "bytes \<Rightarrow> passReader" where
  "newPassReader pass = \<lparr>pr_pass = pass, pr_buf = []\<rparr>"

definition buffer_Read :: "nat \<Rightarrow> passReader \<Rightarrow> bytes \<times> bool \<times> passReader" where
  "buffer_Read n r = (if pr_buf r = [] then ([], n \<noteq> 0, r)
     else (take n (pr_buf r), False, r\<lparr>pr_buf := drop n (pr_buf r)\<rparr>))"

definition pass_Read :: "nat \<Rightarrow> passReader \<Rightarrow> bytes \<times> bool \<times> passReader" where
  "pass_Read n r = (case buffer_Read n r of (data, eof, r1) \<Rightarrow>
     if eof \<or> data = [] then buffer_Read n (r1\<lparr>pr_buf := pr_buf r1 @ pr_pass r1 @ [10]\<rparr>)
     else (data, eof, r1))"

section \<open>What the setup returns\<close>

text \<open>A private key together with an address it does not belong to, or one that does not parse, is not refused: the
  setup returns without error, with the zero address and without signing functions. (The error is made by
  wrapping one that is nil.)\<close>

lemma mismatched_key_accepted:
  assumes "\<not> ethUseLedger" "ethPrivKey \<noteq> []" "HexToECDSA (ke_crypto K) ethPrivKey = Inr pk"
    and "ethKeyFrom = Some from" "from \<noteq> []" "HexToAddress (ke_geth K) from \<noteq> PubkeyToAddress (ke_crypto K) pk \<or>
      HexToAddress (ke_geth K) from = 0"
  shows "initEthereumAccountsManager K ethChainID ethKeystoreDir ethKeyFrom ethPassphrase ethPrivKey ethUseLedger o1 =
    (Ok (0, None, None, None), o1)"
  using assms
  by (auto simp: initEthereumAccountsManager_def privkey_account_def no_account_def errors_Wrap_def emptyEthAddress_def
      Let_def io_simps)

text \<open>An account that signs messages for its own address only; a Ledger decides that itself.\<close>

definition signs_for :: "address \<Rightarrow> PersonalSignFn \<Rightarrow> bool" where
  "signs_for a p \<longleftrightarrow> (\<exists>f. p = Some f \<and> (\<forall>from data sig. f from data = Inr sig \<longrightarrow> from = a))"

lemma store_account_Ok:
  assumes "store_account K chain from pass ks = (Ok (a, s, p, None), ks')" "a \<noteq> 0"
  shows "a = from \<and> s \<noteq> None \<and> signs_for a p"
proof -
  obtain r k1 where 1: "attempt (SignerFn (ke_transactor K) (ke_crypto K) (ke_files K) (ke_geth K) chain from pass) ks = (Ok r, k1)"
    "(case r of Inl e \<Rightarrow> ret (no_account (Some (Wrapped ''failed to load key for'' e)))
      | Inr signerFn \<Rightarrow> bindE (attempt (PersonalSignFn (ke_crypto K) (ke_files K) (ke_geth K) from pass)) (\<lambda>r. case r of
           Inl e \<Rightarrow> ret (no_account (Some (Wrapped ''failed to load key for'' e)))
         | Inr personalSignFn \<Rightarrow> ret (from, Some signerFn, Some personalSignFn, None))) k1 = (Ok (a, s, p, None), ks')"
    using assms(1) unfolding store_account_def by (elim bindE_OkE)
  then obtain signer where "r = Inr signer" by (cases r) (auto simp: no_account_def)
  with 1(2) obtain r2 k2 where 2: "attempt (PersonalSignFn (ke_crypto K) (ke_files K) (ke_geth K) from pass) k1 = (Ok r2, k2)"
    "(case r2 of Inl e \<Rightarrow> ret (no_account (Some (Wrapped ''failed to load key for'' e)))
      | Inr personalSignFn \<Rightarrow> ret (from, Some signer, Some personalSignFn, None)) k2 = (Ok (a, s, p, None), ks')"
    by (auto elim!: bindE_OkE)
  then obtain f where f: "r2 = Inr f" by (cases r2) (auto simp: no_account_def)
  with 2(1) have "PersonalSignFn (ke_crypto K) (ke_files K) (ke_geth K) from pass k1 = (Ok f, k2)"
    by (auto elim!: attempt_OkE)
  then obtain key where "\<And>from' data. f from' data = (if from' = from
      then crypto_Sign (ke_crypto K) (TextHash (ke_crypto K) data) key else Inl (ErrorNew ''from address mismatch''))"
    using PersonalSignFn_signs by blast
  then have "signs_for from (Some f)" by (auto simp: signs_for_def split: if_splits)
  then show ?thesis using 2(2) f by auto
qed

text \<open>When the setup returns an address other than zero without an error, and no Ledger is used, there is a signing
  function for transactions and one for messages, and the latter signs for that address only.\<close>

lemma account_signs_for_itself:
  assumes "initEthereumAccountsManager K ethChainID ethKeystoreDir ethKeyFrom ethPassphrase ethPrivKey False o1 =
      (Ok (a, signerFn, personalSignFn, None), o2)"
    and "a \<noteq> 0"
  shows "signerFn \<noteq> None \<and> signs_for a personalSignFn"
proof (cases "ethPrivKey = []")
  case False
  then show ?thesis
    using assms
    by (auto simp: initEthereumAccountsManager_def privkey_account_def no_account_def emptyEthAddress_def errors_Wrap_def
        PrivateKeyPersonalSignFn_def sign_with_def signs_for_def Let_def io_simps
        split: sum.splits option.splits if_splits)
next
  case True
  have run: "keystore_account K ethChainID ethKeystoreDir ethKeyFrom ethPassphrase o1 = (Ok (a, signerFn, personalSignFn, None), o2)"
    using assms True by (auto simp: initEthereumAccountsManager_def no_account_def io_simps split: if_splits)
  then obtain pass ks ks' addr where "store_account K ethChainID addr pass ks = (Ok (a, signerFn, personalSignFn, None), ks')"
    using assms(2)
    by (auto simp: keystore_account_def no_account_def emptyEthAddress_def Let_def
        split: option.splits if_splits prod.splits res.splits sum.splits)
  then show ?thesis using store_account_Ok assms(2) by blast
qed
text \<open>What geth promises of the signer made from a key: it signs the transaction it is given.\<close>

definition transactor_faithful :: "('e, 'pk) key_env \<Rightarrow> bool" where
  "transactor_faithful K \<longleftrightarrow> (\<forall>pk chain f. ke_transactor K pk chain = Inr f \<longrightarrow> signer_faithful (Some f))"

lemma store_account_faithful:
  assumes "transactor_faithful K" "store_account K chain from pass ks = (Ok (a, s, p, err), ks')"
  shows "signer_faithful s"
  using assms unfolding store_account_def Keystore.SignerFn_def no_account_def
  by (auto elim!: bindE_OkE attempt_OkE simp: transactor_faithful_def signer_faithful_def split: sum.splits)

lemma account_signer_faithful:
  assumes "transactor_faithful K"
    and "initEthereumAccountsManager K chain dir from pass pk False o1 = (Ok (a, s, p, err), o2)"
  shows "signer_faithful s"
proof -
  have none: "signer_faithful None" by (simp add: signer_faithful_def)
  consider "privkey_account K chain from pk = Ok (a, s, p, err)" | "keystore_account K chain dir from pass o1 = (Ok (a, s, p, err), o2)"
    | "s = None"
    using assms(2) by (auto simp: initEthereumAccountsManager_def no_account_def io_simps split: if_splits)
  then show ?thesis
  proof cases
    case 1
    then show ?thesis using assms(1) none
      by (auto simp: privkey_account_def no_account_def transactor_faithful_def Let_def
          split: sum.splits option.splits if_splits)
  next
    case 2
    then have "s = None \<or> (\<exists>addr pw ks ks'. store_account K chain addr pw ks = (Ok (a, s, p, err), ks'))"
      by (auto simp: keystore_account_def no_account_def Let_def
          split: option.splits if_splits prod.splits res.splits sum.splits)
    then show ?thesis using store_account_faithful [OF assms(1)] none by blast
  qed (use none in simp)
qed

end
