(* ===== verification/Util.thy ===== *)
theory Util
  imports EthUtil GoFloat
begin

text \<open>
  \<open>cmd/peggo/util.go\<close>: the helpers of the command line program, for the environment file, the
  confirmation prompt, the vague values of options and hexadecimal strings. \<open>encoding/hex\<close> is part of the
  standard library and written out here.
\<close>

section \<open>Hexadecimal strings\<close>

text \<open>The value of a digit, of either case.\<close>

definition hex_digit :: "char \<Rightarrow> nat option" where
  "hex_digit c = (let n = of_char c :: nat in
     if 48 \<le> n \<and> n \<le> 57 then Some (n - 48)
     else if 97 \<le> n \<and> n \<le> 102 then Some (n - 87)
     else if 65 \<le> n \<and> n \<le> 70 then Some (n - 55) else None)"

text \<open>\<open>hex.DecodeString\<close>: an invalid digit is reported before an odd length.\<close>

fun hex_DecodeString :: "string \<Rightarrow> goerr + bytes" where
  "hex_DecodeString [] = Inr []"
| "hex_DecodeString [c] = (case hex_digit c of
     None \<Rightarrow> Inl (ErrorNew (''encoding/hex: invalid byte: '' @ [c]))
   | Some _ \<Rightarrow> Inl (ErrorNew ''encoding/hex: odd length hex string''))"
| "hex_DecodeString (c # d # s) = (case hex_digit c of
     None \<Rightarrow> Inl (ErrorNew (''encoding/hex: invalid byte: '' @ [c]))
   | Some hi \<Rightarrow> (case hex_digit d of
       None \<Rightarrow> Inl (ErrorNew (''encoding/hex: invalid byte: '' @ [d]))
     | Some lo \<Rightarrow> (case hex_DecodeString s of
         Inl e \<Rightarrow> Inl e
       | Inr bs \<Rightarrow> Inr (of_nat (16 * hi + lo) # bs))))"

text \<open>\<open>hex.EncodeToString\<close>, with which the decoder is compared.\<close>

definition hex_EncodeToString :: "bytes \<Rightarrow> string" where
  "hex_EncodeToString bs = concat (map (\<lambda>b. [hex_char (unat b div 16), hex_char (unat b mod 16)]) bs)"

definition hexToBytes :: "string \<Rightarrow> goerr + bytes" where
  "hexToBytes str = hex_DecodeString (if has_prefix str ''0x'' then drop 2 str else str)"

section \<open>Values of options\<close>

text \<open>The pattern match of \<open>toBool\<close> is on ASCII words, which no other character maps to in lower case.\<close>

definition toBool :: "string \<Rightarrow> bool" where
  "toBool s \<longleftrightarrow> ToLower s \<in> {''true'', ''1'', ''t'', ''yes''}"

datatype Level = FatalLevel | ErrorLevel | WarnLevel | InfoLevel | DebugLevel

definition logLevel :: "string \<Rightarrow> Level" where
  "logLevel s =
     (if s \<in> {''1'', ''error''} then ErrorLevel
      else if s \<in> {''2'', ''warn''} then WarnLevel
      else if s \<in> {''3'', ''info''} then InfoLevel
      else if s \<in> {''4'', ''debug''} then DebugLevel
      else FatalLevel)"

definition duration :: "(string \<Rightarrow> goerr + int) \<Rightarrow> string \<Rightarrow> int \<Rightarrow> int" where
  "duration ParseDuration s defaults = (case ParseDuration s of Inl _ \<Rightarrow> defaults | Inr dur \<Rightarrow> dur)"

definition checkStatsdPrefix :: "string \<Rightarrow> string" where
  "checkStatsdPrefix s = (if \<not> has_suffix s ''.'' then s @ ''.'' else s)"

text \<open>
  \<open>parseERC20ContractMapping\<close>: \<open>log.Fatalln\<close> ends the process on the first malformed item. A later item for
  an address replaces an earlier one.
\<close>

fun add_mappings :: "geth_lib \<Rightarrow> (address \<rightharpoonup> string) \<Rightarrow> string list \<Rightarrow> (address \<rightharpoonup> string) res" where
  "add_mappings G m [] = Ok m"
| "add_mappings G m (item # items) =
     (let parts = split_at CHR '':'' item; addr = HexToAddress G (parts ! 0) in
      if length parts \<noteq> 2 \<or> length (parts ! 0) = 0 \<or> addr = 0 then Exit
      else add_mappings G (m(addr \<mapsto> parts ! 1)) items)"

definition parseERC20ContractMapping :: "geth_lib \<Rightarrow> string list \<Rightarrow> (address \<rightharpoonup> string) res" where
  "parseERC20ContractMapping G items = add_mappings G Map.empty items"

section \<open>Confirmation and shutdown\<close>

text \<open>\<open>fmt.Scanln\<close> reads a word from standard input.\<close>

definition stdinConfirm :: "('e \<Rightarrow> (goerr + string) \<times> 'e) \<Rightarrow> 'e \<Rightarrow> bool \<times> 'e" where
  "stdinConfirm Scanln o1 = (case Scanln o1 of
      (Inl _, o2) \<Rightarrow> (False, o2)
    | (Inr response, o2) \<Rightarrow> (ToLower (TrimSpace response) \<in> {''y'', ''yes''}, o2))"

definition grpc_ErrServerStopped :: goerr where
  "grpc_ErrServerStopped = ErrorNew ''grpc: the server has been stopped''"

definition orShutdown :: "goerr option \<Rightarrow> unit res" where
  "orShutdown err = (case err of
      None \<Rightarrow> Ok ()
    | Some e \<Rightarrow> if e \<noteq> grpc_ErrServerStopped then Exit else Ok ())"

section \<open>The environment file\<close>

text \<open>
  \<open>bufio.Scanner\<close> over lines: a carriage return before the newline is dropped, an empty rest after the last
  newline is no line, and a line of 64 KiB or more ends the scan.
\<close>

definition newline :: char where
  "newline = char_of (10 :: nat)"

definition dropCR :: "string \<Rightarrow> string" where
  "dropCR s = (if s \<noteq> [] \<and> last s = char_of (13 :: nat) then butlast s else s)"

definition scan_lines :: "string \<Rightarrow> string list" where
  "scan_lines data =
     (let pieces = split_at newline data;
          raw = (if last pieces = [] then butlast pieces else pieces)
      in map dropCR (takeWhile (\<lambda>l. length l < 65536) raw))"

definition Trim :: "char \<Rightarrow> string \<Rightarrow> string" where
  "Trim q s = rev (dropWhile (\<lambda>c. c = q) (rev (dropWhile (\<lambda>c. c = q) s)))"

text \<open>\<open>os.Setenv\<close> refuses an empty name and NUL bytes (and \<open>=\<close>, which no part contains); that is only logged.\<close>

definition Setenv :: "string \<Rightarrow> string \<Rightarrow> (string \<rightharpoonup> string) \<Rightarrow> (string \<rightharpoonup> string)" where
  "Setenv name val env =
     (if name = [] \<or> CHR ''='' \<in> set name \<or> char_of (0 :: nat) \<in> set name \<or> char_of (0 :: nat) \<in> set val then env
      else env(name \<mapsto> val))"

fun set_variables :: "string list \<Rightarrow> (string \<rightharpoonup> string) \<Rightarrow> (string \<rightharpoonup> string)" where
  "set_variables [] env = env"
| "set_variables (line # ls) env =
     (let parts = split_at CHR ''='' line in
      if length parts \<noteq> 2 then set_variables ls env
      else set_variables ls (Setenv (parts ! 0) (Trim (char_of (34 :: nat)) (parts ! 1)) env))"

text \<open>A file that cannot be read gives no data.\<close>

definition readEnv :: "string option \<Rightarrow> (string \<rightharpoonup> string) \<Rightarrow> (string \<rightharpoonup> string)" where
  "readEnv envdata env = (case envdata of
      None \<Rightarrow> env
    | Some d \<Rightarrow> if length d > 0 then set_variables (scan_lines d) env else env)"

section \<open>Correctness\<close>

lemma hex_digit_char: "d < 16 \<Longrightarrow> hex_digit (hex_char d) = Some d"
  by (auto simp: hex_digit_def hex_char_def Let_def)

lemma byte_digits: "(of_nat (16 * (unat b div 16) + unat b mod 16) :: u8) = b"
  by simp

lemma hex_DecodeString_Encode: "hex_DecodeString (hex_EncodeToString bs) = Inr bs"
proof (induction bs)
  case (Cons b bs)
  have "unat b div 16 < 16" "unat b mod 16 < 16"
    using unsigned_less [of b, where ?'a = nat] by auto
  then show ?case using Cons byte_digits [of b]
    by (simp add: hex_EncodeToString_def hex_digit_char)
qed (simp add: hex_EncodeToString_def)

lemma hex_digit_lower: "hex_digit c = Some d \<Longrightarrow> d < 16 \<and> hex_char d = lower_char c"
  by (auto simp: hex_digit_def hex_char_def lower_char_def Let_def split: if_splits)

lemma hex_Encode_DecodeString:
  "hex_DecodeString s = Inr bs \<Longrightarrow> hex_EncodeToString bs = ToLower s"
proof (induction s arbitrary: bs rule: hex_DecodeString.induct)
  case (3 c d s)
  then obtain hi lo bs' where h: "hex_digit c = Some hi" "hex_digit d = Some lo" "hex_DecodeString s = Inr bs'"
    "bs = of_nat (16 * hi + lo) # bs'" by (auto split: option.splits sum.splits)
  have small: "hi < 16" "lo < 16" using h hex_digit_lower by auto
  have word: "unat (of_nat n :: u8) = n" if "n < 256" for n
    using that by (simp add: unat_of_nat take_bit_eq_mod)
  have "unat (of_nat (16 * hi + lo) :: u8) = 16 * hi + lo"
    by (rule word) (use small in linarith)
  then have "unat (of_nat (16 * hi + lo) :: u8) div 16 = hi" "unat (of_nat (16 * hi + lo) :: u8) mod 16 = lo"
    using small by simp_all
  then show ?case using 3(1) [OF h(1-2)] h hex_digit_lower
    by (simp add: hex_EncodeToString_def ToLower_def)
qed (auto simp: hex_EncodeToString_def ToLower_def split: option.splits)

lemma hex_EncodeToString_no_prefix: "\<not> has_prefix (hex_EncodeToString bs) ''0x''"
proof (cases bs)
  case (Cons b bs')
  have "hex_char (unat b mod 16) \<noteq> CHR ''x''"
    using hex_digit_char [of "unat b mod 16"] by (auto simp: hex_digit_def)
  then show ?thesis using Cons by (auto simp: hex_EncodeToString_def)
qed (simp add: hex_EncodeToString_def)

lemma hex_digit_lower_char: "hex_digit (lower_char c) = hex_digit c"
  by (auto simp: hex_digit_def lower_char_def Let_def)

lemma hex_DecodeString_lower: "hex_DecodeString (ToLower s) = Inr bs \<Longrightarrow> hex_DecodeString s = Inr bs"
  by (induction s arbitrary: bs rule: hex_DecodeString.induct)
    (auto simp: ToLower_def hex_digit_lower_char split: option.splits sum.splits)

text \<open>\<open>hexToBytes\<close> undoes the printing of bytes, with and without the prefix, and accepts nothing else: the
  bytes it returns print to the string it was given, up to the prefix and the case of the digits.\<close>

theorem hexToBytes_roundtrip:
  "hexToBytes (hex_EncodeToString bs) = Inr bs \<and> hexToBytes (''0x'' @ hex_EncodeToString bs) = Inr bs \<and>
   (hexToBytes str = Inr bs' \<longleftrightarrow> hex_EncodeToString bs' = ToLower (TrimPrefix str ''0x''))"
proof (intro conjI)
  show "hexToBytes (hex_EncodeToString bs) = Inr bs"
    using hex_EncodeToString_no_prefix by (simp add: hexToBytes_def hex_DecodeString_Encode)
  show "hexToBytes (''0x'' @ hex_EncodeToString bs) = Inr bs"
    by (simp add: hexToBytes_def hex_DecodeString_Encode)
  have "hexToBytes str = hex_DecodeString (TrimPrefix str ''0x'')"
    by (simp add: hexToBytes_def TrimPrefix_def numeral_2_eq_2)
  then show "hexToBytes str = Inr bs' \<longleftrightarrow> hex_EncodeToString bs' = ToLower (TrimPrefix str ''0x'')"
    using hex_Encode_DecodeString hex_DecodeString_lower hex_DecodeString_Encode by metis
qed

text \<open>What a successful parse has read: every item is a pair, and later pairs win.\<close>

definition mapping_pair :: "geth_lib \<Rightarrow> string \<Rightarrow> address \<times> string" where
  "mapping_pair G item = (HexToAddress G (split_at CHR '':'' item ! 0), split_at CHR '':'' item ! 1)"

lemma add_mappings_Ok:
  "add_mappings G m items = Ok m' \<Longrightarrow> m' = m ++ map_of (rev (map (mapping_pair G) items)) \<and>
     (\<forall>i \<in> set items. length (split_at CHR '':'' i) = 2 \<and> fst (mapping_pair G i) \<noteq> 0)"
proof (induction items arbitrary: m)
  case (Cons i items)
  then have i: "length (split_at CHR '':'' i) = 2" "fst (mapping_pair G i) \<noteq> 0"
    and rest: "add_mappings G (m(fst (mapping_pair G i) \<mapsto> snd (mapping_pair G i))) items = Ok m'"
    by (auto simp: Let_def mapping_pair_def split: if_splits)
  have "m(fst (mapping_pair G i) \<mapsto> snd (mapping_pair G i)) = m ++ map_of [mapping_pair G i]"
    by (simp add: case_prod_unfold)
  then show ?case using Cons.IH [OF rest] i by (simp del: map_of.simps)
qed simp

end
