(* ===== verification/Keyring.thy ===== *)
theory Keyring
  imports CosmosQuery Util
begin

text \<open>
  \<open>orchestrator/cosmos/keyring.go\<close>: the Injective key, from a private key given in the configuration or from a
  keyring directory. The SDK's keyring, its key types and the codec are arguments.
\<close>

definition DefaultKeyName :: string where
  "DefaultKeyName = ''validator''"

record KeyringConfig =
  kc_KeyringDir :: string
  kc_KeyringAppName :: string
  kc_KeyringBackend :: string
  kc_KeyFrom :: string
  kc_KeyPassphrase :: string
  kc_PrivateKey :: string
  kc_UseLedger :: bool

definition withPrivateKey :: "KeyringConfig \<Rightarrow> bool" where
  "withPrivateKey cfg \<longleftrightarrow> kc_PrivateKey cfg \<noteq> []"

text \<open>A key of a keyring. Types other than local and Ledger are not usable here.\<close>

datatype key_type = TypeLocal | TypeLedger | TypeOther string

record key_record =
  kr_Name :: string
  kr_Type :: key_type
  kr_Address :: "goerr + AccAddress"

text \<open>The calls of the SDK, and where the passphrase of a directory comes from.\<close>

datatype pass_source = Stdin | Passphrase string

record ('e, 'kr) keyring_lib =
  pubkey_Address :: "bytes \<Rightarrow> AccAddress"
  rand_Read :: "nat \<Rightarrow> 'e \<Rightarrow> (goerr + bytes) \<times> 'e"
  NewInMemory :: 'kr
  ImportPrivKey :: "'kr \<Rightarrow> string \<Rightarrow> bytes \<Rightarrow> bytes \<Rightarrow> goerr + 'kr"
  IsAbs :: "string \<Rightarrow> bool"
  filepath_Abs :: "string \<Rightarrow> 'e \<Rightarrow> (goerr + string) \<times> 'e"
  keyring_New :: "string \<Rightarrow> string \<Rightarrow> string \<Rightarrow> pass_source \<Rightarrow> 'e \<Rightarrow> (goerr + 'kr) \<times> 'e"
  kr_Key :: "'kr \<Rightarrow> string \<Rightarrow> goerr + key_record"
  kr_KeyByAddress :: "'kr \<Rightarrow> AccAddress \<Rightarrow> goerr + key_record"

record 'kr Keyring =
  k_Keyring :: 'kr
  k_Addr :: AccAddress

text \<open>A failing random source is a panic. (The armor is encrypted under the phrase and decrypted at once.)\<close>

definition randPhrase :: "('e, 'kr) keyring_lib \<Rightarrow> nat \<Rightarrow> ('e, bytes) io" where
  "randPhrase S n = (\<lambda>o1. case rand_Read S n o1 of
      (Inl _, o2) \<Rightarrow> (Panic (PanicValue ''rand failed''), o2)
    | (Inr buf, o2) \<Rightarrow> (Ok buf, o2))"

text \<open>A \<open>KeyFrom\<close> that is not an address is the name of the key.\<close>

definition key_name :: "sdk_lib \<Rightarrow> KeyringConfig \<Rightarrow> AccAddress \<Rightarrow> goerr + string" where
  "key_name L cfg cosmosAddr =
     (if kc_KeyFrom cfg = [] then Inr DefaultKeyName
      else (case AccAddressFromBech32 L (kc_KeyFrom cfg) of
          Inl _ \<Rightarrow> Inr (kc_KeyFrom cfg)
        | Inr from \<Rightarrow>
            if from \<noteq> cosmosAddr then
              Inl (ErrorNew (''expected account address '' @ AccAddressString L from @ '' but got '' @
                AccAddressString L cosmosAddr @ '' from the private key''))
            else Inr DefaultKeyName))"

definition newInMemoryKeyring :: "sdk_lib \<Rightarrow> ('e, 'kr) keyring_lib \<Rightarrow> KeyringConfig \<Rightarrow> ('e, 'kr Keyring) io" where
  "newInMemoryKeyring L S cfg =
     (if kc_UseLedger cfg then throw (ErrorNew ''cannot use both private key and Ledger'')
      else (case hex_DecodeString (TrimPrefix (kc_PrivateKey cfg) ''0x'') of
          Inl e \<Rightarrow> throw (Wrapped ''invalid private key'' e)
        | Inr pkRaw \<Rightarrow>
            (let cosmosAddr = pubkey_Address S pkRaw in
             (case key_name L cfg cosmosAddr of
                Inl e \<Rightarrow> throw e
              | Inr keyName \<Rightarrow>
                  bindE (randPhrase S 64) (\<lambda>tmpPhrase.
                  (case ImportPrivKey S (NewInMemory S) keyName pkRaw tmpPhrase of
                     Inl e \<Rightarrow> throw (Wrapped ''failed to import private key'' e)
                   | Inr kr \<Rightarrow> ret \<lparr>k_Keyring = kr, k_Addr = cosmosAddr\<rparr>))))))"

definition absolute :: "('e, 'kr) keyring_lib \<Rightarrow> string \<Rightarrow> ('e, string) io" where
  "absolute S dir = (\<lambda>o1. if IsAbs S dir then (Ok dir, o1) else (case filepath_Abs S dir o1 of
      (Inl e, o2) \<Rightarrow> (Err (Wrapped ''failed to get absolute path of keyring dir'' e), o2)
    | (Inr d, o2) \<Rightarrow> (Ok d, o2)))"

definition find_key :: "sdk_lib \<Rightarrow> ('e, 'kr) keyring_lib \<Rightarrow> 'kr \<Rightarrow> string \<Rightarrow> goerr + key_record" where
  "find_key L S kr from = (case AccAddressFromBech32 L from of
      Inl _ \<Rightarrow> kr_Key S kr from
    | Inr cosmosAddr \<Rightarrow> kr_KeyByAddress S kr cosmosAddr)"

definition usable_key :: "KeyringConfig \<Rightarrow> 'kr \<Rightarrow> key_record \<Rightarrow> goerr + 'kr Keyring" where
  "usable_key cfg kr r =
     (let with_address = (case kr_Address r of
            Inl e \<Rightarrow> Inl (Wrapped ''failed to get address from key record'' e)
          | Inr addr \<Rightarrow> Inr \<lparr>k_Keyring = kr, k_Addr = addr\<rparr>)
      in (case kr_Type r of
            TypeLocal \<Rightarrow> with_address
          | TypeLedger \<Rightarrow>
              if \<not> kc_UseLedger cfg then
                Inl (ErrorNew (''key '' @ kr_Name r @ '' is a Ledger reference, enable Ledger option''))
              else with_address
          | TypeOther t \<Rightarrow> Inl (ErrorNew (''unsupported key type: '' @ t))))"

definition newKeyringFromDir :: "sdk_lib \<Rightarrow> ('e, 'kr) keyring_lib \<Rightarrow> KeyringConfig \<Rightarrow> ('e, 'kr Keyring) io" where
  "newKeyringFromDir L S cfg =
     (if kc_KeyFrom cfg = [] then throw (ErrorNew ''insufficient cosmos details provided'')
      else bindE (absolute S (kc_KeyringDir cfg)) (\<lambda>keyringDir.
           (let reader = (if kc_KeyPassphrase cfg \<noteq> [] then Passphrase (kc_KeyPassphrase cfg) else Stdin) in
            (\<lambda>o1. case keyring_New S (kc_KeyringAppName cfg) (kc_KeyringBackend cfg) keyringDir reader o1 of
               (Inl e, o2) \<Rightarrow> (Err (Wrapped ''failed to initialize cosmos keyring'' e), o2)
             | (Inr kr, o2) \<Rightarrow> (case find_key L S kr (kc_KeyFrom cfg) of
                   Inl e \<Rightarrow> (Err e, o2)
                 | Inr r \<Rightarrow> (case usable_key cfg kr r of Inl e \<Rightarrow> (Err e, o2) | Inr k \<Rightarrow> (Ok k, o2)))))))"

definition NewKeyring :: "sdk_lib \<Rightarrow> ('e, 'kr) keyring_lib \<Rightarrow> KeyringConfig \<Rightarrow> ('e, 'kr Keyring) io" where
  "NewKeyring L S cfg = (if withPrivateKey cfg then newInMemoryKeyring L S cfg else newKeyringFromDir L S cfg)"

section \<open>The address of the key\<close>

text \<open>What the SDK documents of a lookup by address.\<close>

definition keyring_laws :: "('e, 'kr) keyring_lib \<Rightarrow> bool" where
  "keyring_laws S \<longleftrightarrow> (\<forall>kr a r b. kr_KeyByAddress S kr a = Inr r \<and> kr_Address r = Inr b \<longrightarrow> b = a)"

text \<open>C38. If an address was configured, the key that is set up is the key of that address, whether it comes from a
  private key or from a directory; and a key on a Ledger is used only when that was asked for.\<close>

theorem NewKeyring_address:
  assumes "keyring_laws S" "AccAddressFromBech32 L (kc_KeyFrom cfg) = Inr from" "kc_KeyFrom cfg \<noteq> []"
    and "NewKeyring L S cfg o1 = (Ok k, o2)"
  shows "k_Addr k = from \<and>
    (withPrivateKey cfg \<longrightarrow> \<not> kc_UseLedger cfg \<and>
       (\<exists>pk. hex_DecodeString (TrimPrefix (kc_PrivateKey cfg) ''0x'') = Inr pk \<and> k_Addr k = pubkey_Address S pk)) \<and>
    (\<not> withPrivateKey cfg \<longrightarrow> (\<exists>r. kr_KeyByAddress S (k_Keyring k) from = Inr r \<and>
       (kr_Type r = TypeLocal \<or> kr_Type r = TypeLedger \<and> kc_UseLedger cfg)))"
proof (cases "withPrivateKey cfg")
  case True
  then show ?thesis using assms(2-4)
    by (auto simp: NewKeyring_def newInMemoryKeyring_def key_name_def Let_def io_simps
        split: if_splits sum.splits prod.splits res.splits)
next
  case False
  then obtain kr r o3 where r: "find_key L S kr (kc_KeyFrom cfg) = Inr r" "usable_key cfg kr r = Inr k"
    using assms(3,4)
    by (auto simp: NewKeyring_def newKeyringFromDir_def Let_def io_simps split: if_splits sum.splits prod.splits res.splits)
  then have "kr_KeyByAddress S kr from = Inr r" using assms(2) by (simp add: find_key_def)
  moreover have "k_Keyring k = kr" "kr_Address r = Inr (k_Addr k)"
    "kr_Type r = TypeLocal \<or> kr_Type r = TypeLedger \<and> kc_UseLedger cfg"
    using r(2) by (auto simp: usable_key_def Let_def split: sum.splits key_type.splits if_splits)
  ultimately show ?thesis using assms(1) False unfolding keyring_laws_def by blast
qed

section \<open>A concrete keyring\<close>

definition toy_sdk :: sdk_lib where
  "toy_sdk = \<lparr>AccAddressString = map (\<lambda>b. char_of (unat b)), AccAddressFromBech32 = (\<lambda>s. Inr (map of_char s)),
     PeggyDenomString = (\<lambda>_. ''peggy'')\<rparr>"

definition toy_keyring :: "(nat, string list) keyring_lib" where
  "toy_keyring = \<lparr>pubkey_Address = (\<lambda>b. b),
     rand_Read = (\<lambda>k o1. (Inr (replicate k 0), o1)), NewInMemory = [], ImportPrivKey = (\<lambda>kr name _ _. Inr (name # kr)),
     IsAbs = (\<lambda>_. True), filepath_Abs = (\<lambda>d o1. (Inr d, o1)), keyring_New = (\<lambda>_ _ _ _ o1. (Inr [''a''], o1)),
     kr_Key = (\<lambda>_ _. Inl (ErrorNew ''key not found'')),
     kr_KeyByAddress = (\<lambda>_ a. Inr \<lparr>kr_Name = ''a'', kr_Type = TypeLocal, kr_Address = Inr a\<rparr>)\<rparr>"

definition toy_keyring_config :: KeyringConfig where
  "toy_keyring_config = \<lparr>kc_KeyringDir = ''/d'', kc_KeyringAppName = ''peggo'', kc_KeyringBackend = ''file'',
     kc_KeyFrom = ''inj1'', kc_KeyPassphrase = [], kc_PrivateKey = [], kc_UseLedger = False\<rparr>"

theorem NewKeyring_address_witness:
  "\<exists>k. NewKeyring toy_sdk toy_keyring toy_keyring_config 0 = (Ok k, 0) \<and> k_Addr k = map of_char ''inj1''"
proof -
  define a where "a = (map of_char ''inj1'' :: AccAddress)"
  have laws: "keyring_laws toy_keyring" by (auto simp: keyring_laws_def toy_keyring_def)
  have addr: "AccAddressFromBech32 toy_sdk (kc_KeyFrom toy_keyring_config) = Inr a" "kc_KeyFrom toy_keyring_config \<noteq> []"
    by (simp_all add: toy_sdk_def toy_keyring_config_def a_def)
  have run: "NewKeyring toy_sdk toy_keyring toy_keyring_config 0 = (Ok \<lparr>k_Keyring = [''a''], k_Addr = a\<rparr>, 0)"
    using addr
    by (simp add: NewKeyring_def withPrivateKey_def newKeyringFromDir_def absolute_def find_key_def
        usable_key_def toy_keyring_def io_simps Let_def) (simp add: toy_keyring_config_def)
  from NewKeyring_address [OF laws addr run] run show ?thesis unfolding a_def by auto
qed

end
