(* ===== verification/Options.thy ===== *)
theory Options
  imports GoFloat
begin

text \<open>
  \<open>cmd/peggo/options.go\<close>: the options of the commands. What the command line library makes of an option (the
  argument given, else the environment variable, else the default) is an argument; its first argument is the
  name, the second the variable, the third the default. The help texts are left out. A \<open>float64\<close> literal is the
  nearest number of 53 bits.
\<close>

record cli_lib =
  opt_String :: "string \<Rightarrow> string \<Rightarrow> string \<Rightarrow> string"
  opt_Bool :: "string \<Rightarrow> string \<Rightarrow> bool \<Rightarrow> bool"
  opt_Int :: "string \<Rightarrow> string \<Rightarrow> int \<Rightarrow> int"
  opt_Float64 :: "string \<Rightarrow> string \<Rightarrow> rat \<Rightarrow> rat"

definition float64 :: "rat \<Rightarrow> rat" where
  "float64 = round_float 53"

section \<open>Options shared by the commands\<close>

record global_options =
  g_envName :: string
  g_appLogLevel :: string
  g_svcWaitTimeout :: string

definition initGlobalOptions :: "cli_lib \<Rightarrow> global_options" where
  "initGlobalOptions C =
     \<lparr>g_envName = opt_String C ''e env'' ''PEGGO_ENV'' ''local'',
      g_appLogLevel = opt_String C ''l log-level'' ''PEGGO_LOG_LEVEL'' ''info'',
      g_svcWaitTimeout = opt_String C ''svc-wait-timeout'' ''PEGGO_SERVICE_WAIT_TIMEOUT'' ''1m''\<rparr>"

definition initInteractiveOptions :: "cli_lib \<Rightarrow> bool" where
  "initInteractiveOptions C = opt_Bool C ''y yes'' ''PEGGO_ALWAYS_AUTO_CONFIRM'' False"

record cosmos_options =
  co_cosmosChainID :: string
  co_cosmosGRPC :: string
  co_tendermintRPC :: string
  co_cosmosGasPrices :: string

definition initCosmosOptions :: "cli_lib \<Rightarrow> cosmos_options" where
  "initCosmosOptions C =
     \<lparr>co_cosmosChainID = opt_String C ''cosmos-chain-id'' ''PEGGO_COSMOS_CHAIN_ID'' ''888'',
      co_cosmosGRPC = opt_String C ''cosmos-grpc'' ''PEGGO_COSMOS_GRPC'' [],
      co_tendermintRPC = opt_String C ''tendermint-rpc'' ''PEGGO_TENDERMINT_RPC'' [],
      co_cosmosGasPrices = opt_String C ''cosmos-gas-prices'' ''PEGGO_COSMOS_GAS_PRICES'' []\<rparr>"

record cosmos_key_options =
  ck_cosmosKeyringBackend :: string
  ck_cosmosKeyringDir :: string
  ck_cosmosKeyringAppName :: string
  ck_cosmosKeyFrom :: string
  ck_cosmosKeyPassphrase :: string
  ck_cosmosPrivKey :: string
  ck_cosmosUseLedger :: bool

definition initCosmosKeyOptions :: "cli_lib \<Rightarrow> cosmos_key_options" where
  "initCosmosKeyOptions C =
     \<lparr>ck_cosmosKeyringBackend = opt_String C ''cosmos-keyring'' ''PEGGO_COSMOS_KEYRING'' ''file'',
      ck_cosmosKeyringDir = opt_String C ''cosmos-keyring-dir'' ''PEGGO_COSMOS_KEYRING_DIR'' [],
      ck_cosmosKeyringAppName = opt_String C ''cosmos-keyring-app'' ''PEGGO_COSMOS_KEYRING_APP'' ''peggo'',
      ck_cosmosKeyFrom = opt_String C ''cosmos-from'' ''PEGGO_COSMOS_FROM'' [],
      ck_cosmosKeyPassphrase = opt_String C ''cosmos-from-passphrase'' ''PEGGO_COSMOS_FROM_PASSPHRASE'' ''peggo'',
      ck_cosmosPrivKey = opt_String C ''cosmos-pk'' ''PEGGO_COSMOS_PK'' [],
      ck_cosmosUseLedger = opt_Bool C ''cosmos-use-ledger'' ''PEGGO_COSMOS_USE_LEDGER'' False\<rparr>"

record eth_key_options =
  ek_ethKeystoreDir :: string
  ek_ethKeyFrom :: string
  ek_ethPassphrase :: string
  ek_ethPrivKey :: string
  ek_ethUseLedger :: bool

definition initEthereumKeyOptions :: "cli_lib \<Rightarrow> eth_key_options" where
  "initEthereumKeyOptions C =
     \<lparr>ek_ethKeystoreDir = opt_String C ''eth-keystore-dir'' ''PEGGO_ETH_KEYSTORE_DIR'' [],
      ek_ethKeyFrom = opt_String C ''eth-from'' ''PEGGO_ETH_FROM'' [],
      ek_ethPassphrase = opt_String C ''eth-passphrase'' ''PEGGO_ETH_PASSPHRASE'' [],
      ek_ethPrivKey = opt_String C ''eth-pk'' ''PEGGO_ETH_PK'' [],
      ek_ethUseLedger = opt_Bool C ''eth-use-ledger'' ''PEGGO_ETH_USE_LEDGER'' False\<rparr>"

record statsd_options =
  sd_statsdAgent :: string
  sd_statsdPrefix :: string
  sd_statsdAddr :: string
  sd_statsdStuckDur :: string
  sd_statsdMocking :: string
  sd_statsdDisabled :: string

definition initStatsdOptions :: "cli_lib \<Rightarrow> statsd_options" where
  "initStatsdOptions C =
     \<lparr>sd_statsdAgent = opt_String C ''statsd-agent'' ''PEGGO_STATSD_AGENT'' ''telegraf'',
      sd_statsdPrefix = opt_String C ''statsd-prefix'' ''PEGGO_STATSD_PREFIX'' ''peggo'',
      sd_statsdAddr = opt_String C ''statsd-addr'' ''PEGGO_STATSD_ADDR'' ''localhost:8125'',
      sd_statsdStuckDur = opt_String C ''statsd-stuck-func'' ''PEGGO_STATSD_STUCK_DUR'' ''5m'',
      sd_statsdMocking = opt_String C ''statsd-mocking'' ''PEGGO_STATSD_MOCKING'' ''false'',
      sd_statsdDisabled = opt_String C ''statsd-disabled'' ''PEGGO_STATSD_DISABLED'' ''true''\<rparr>"

section \<open>Options of the orchestrator\<close>

record peggo_Config =
  pc_cosmosChainID :: string
  pc_cosmosGRPC :: string
  pc_tendermintRPC :: string
  pc_cosmosGasPrices :: string
  pc_cosmosKeyringBackend :: string
  pc_cosmosKeyringDir :: string
  pc_cosmosKeyringAppName :: string
  pc_cosmosKeyFrom :: string
  pc_cosmosKeyPassphrase :: string
  pc_cosmosPrivKey :: string
  pc_cosmosUseLedger :: bool
  pc_ethChainID :: int
  pc_ethNodeRPC :: string
  pc_ethNodeAlchemyWS :: string
  pc_ethGasPriceAdjustment :: rat
  pc_ethMaxGasPrice :: string
  pc_ethKeystoreDir :: string
  pc_ethKeyFrom :: string
  pc_ethPassphrase :: string
  pc_ethPrivKey :: string
  pc_ethUseLedger :: bool
  pc_relayValsets :: bool
  pc_relayValsetOffsetDur :: string
  pc_relayBatches :: bool
  pc_relayBatchOffsetDur :: string
  pc_pendingTxWaitDuration :: string
  pc_minBatchFeeUSD :: rat
  pc_coingeckoApi :: string

definition initConfig :: "cli_lib \<Rightarrow> peggo_Config" where
  "initConfig C =
     \<lparr>pc_cosmosChainID = opt_String C ''cosmos-chain-id'' ''PEGGO_COSMOS_CHAIN_ID'' ''888'',
      pc_cosmosGRPC = opt_String C ''cosmos-grpc'' ''PEGGO_COSMOS_GRPC'' [],
      pc_tendermintRPC = opt_String C ''tendermint-rpc'' ''PEGGO_TENDERMINT_RPC'' [],
      pc_cosmosGasPrices = opt_String C ''cosmos-gas-prices'' ''PEGGO_COSMOS_GAS_PRICES'' [],
      pc_cosmosKeyringBackend = opt_String C ''cosmos-keyring'' ''PEGGO_COSMOS_KEYRING'' ''file'',
      pc_cosmosKeyringDir = opt_String C ''cosmos-keyring-dir'' ''PEGGO_COSMOS_KEYRING_DIR'' [],
      pc_cosmosKeyringAppName = opt_String C ''cosmos-keyring-app'' ''PEGGO_COSMOS_KEYRING_APP'' ''peggo'',
      pc_cosmosKeyFrom = opt_String C ''cosmos-from'' ''PEGGO_COSMOS_FROM'' [],
      pc_cosmosKeyPassphrase = opt_String C ''cosmos-from-passphrase'' ''PEGGO_COSMOS_FROM_PASSPHRASE'' ''peggo'',
      pc_cosmosPrivKey = opt_String C ''cosmos-pk'' ''PEGGO_COSMOS_PK'' [],
      pc_cosmosUseLedger = opt_Bool C ''cosmos-use-ledger'' ''PEGGO_COSMOS_USE_LEDGER'' False,
      pc_ethChainID = opt_Int C ''eth-chain-id'' ''PEGGO_ETH_CHAIN_ID'' 42,
      pc_ethNodeRPC = opt_String C ''eth-node-http'' ''PEGGO_ETH_RPC'' ''http://localhost:1317'',
      pc_ethNodeAlchemyWS = opt_String C ''eth-node-alchemy-ws'' ''PEGGO_ETH_ALCHEMY_WS'' [],
      pc_ethGasPriceAdjustment = opt_Float64 C ''eth_gas_price_adjustment'' ''PEGGO_ETH_GAS_PRICE_ADJUSTMENT'' (float64 (13 / 10)),
      pc_ethMaxGasPrice = opt_String C ''eth-max-gas-price'' ''PEGGO_ETH_MAX_GAS_PRICE'' ''500gwei'',
      pc_ethKeystoreDir = opt_String C ''eth-keystore-dir'' ''PEGGO_ETH_KEYSTORE_DIR'' [],
      pc_ethKeyFrom = opt_String C ''eth-from'' ''PEGGO_ETH_FROM'' [],
      pc_ethPassphrase = opt_String C ''eth-passphrase'' ''PEGGO_ETH_PASSPHRASE'' [],
      pc_ethPrivKey = opt_String C ''eth-pk'' ''PEGGO_ETH_PK'' [],
      pc_ethUseLedger = opt_Bool C ''eth-use-ledger'' ''PEGGO_ETH_USE_LEDGER'' False,
      pc_relayValsets = opt_Bool C ''relay_valsets'' ''PEGGO_RELAY_VALSETS'' False,
      pc_relayValsetOffsetDur = opt_String C ''relay_valset_offset_dur'' ''PEGGO_RELAY_VALSET_OFFSET_DUR'' ''5m'',
      pc_relayBatches = opt_Bool C ''relay_batches'' ''PEGGO_RELAY_BATCHES'' False,
      pc_relayBatchOffsetDur = opt_String C ''relay_batch_offset_dur'' ''PEGGO_RELAY_BATCH_OFFSET_DUR'' ''5m'',
      pc_pendingTxWaitDuration = opt_String C ''relay_pending_tx_wait_duration'' ''PEGGO_RELAY_PENDING_TX_WAIT_DURATION'' ''20m'',
      pc_minBatchFeeUSD = opt_Float64 C ''min_batch_fee_usd'' ''PEGGO_MIN_BATCH_FEE_USD'' (float64 (233 / 10)),
      pc_coingeckoApi = opt_String C ''coingecko_api'' ''PEGGO_COINGECKO_API'' ''https://api.coingecko.com/api/v3''\<rparr>"

end
