(* ===== verification/Cmd.thy ===== *)
theory Cmd
  imports Orchestrator EthKeys Keyring Options
begin

text \<open>
  The commands: \<open>cmd/peggo/orchestrator.go\<close>, which builds the orchestrator out of the configuration and runs it,
  and \<open>cmd/peggo/tx.go\<close>, which registers an Ethereum key for a validator; and \<open>NewNetwork\<close> of
  \<open>orchestrator/cosmos/network.go\<close>, which both use to connect to Injective.
\<close>

section \<open>The libraries\<close>

text \<open>
  \<open>ce_connection\<close> gives the states of the connection that the polls of \<open>awaitConnection\<close> see before the
  deadline. The chain client comes with the query client of its connection.
\<close>

record ('e, 'pk, 'kr, 'ctx, 'tx, 'vals) cmd_env =
  ce_keys :: "('e, 'pk) key_env"
  ce_keyring :: "('e, 'kr) keyring_lib"
  ce_sdk :: sdk_lib
  ce_eth :: "'e eth_env"
  ce_LoadNetwork :: LoadNetwork
  ce_NewClientContext :: "string \<Rightarrow> string \<Rightarrow> 'kr Keyring \<Rightarrow> goerr + 'ctx"
  ce_comethttp_New :: "string \<Rightarrow> 'ctx \<Rightarrow> goerr + 'ctx"
  ce_NewChainClient :: "'ctx \<Rightarrow> client_network \<Rightarrow> string \<Rightarrow> ('e, 'e ChainClient \<times> 'e peggytypes_QueryClient) libfun"
  ce_connection :: "'e \<Rightarrow> bool list \<times> 'e"
  ce_NewRPCClient :: "string \<Rightarrow> goerr + ('e, 'tx, 'vals) rpcClient"
  ce_Scanln :: "'e \<Rightarrow> (goerr + string) \<times> 'e"
  ce_Sleep :: "int \<Rightarrow> 'e \<Rightarrow> 'e"
  ce_bindings :: "'e bindings"
  ce_gas_price :: rat
  ce_rpc_Dial :: "string \<Rightarrow> ('e, 'e evm_client \<times> 'e eth_node) libfun"
  ce_ParseDuration :: "string \<Rightarrow> goerr + int"
  ce_http :: "'e http_lib"
  ce_retry :: "nat \<Rightarrow> ('e world, captured) io \<Rightarrow> ('e world, captured) io"

text \<open>A computation that touches only what is outside the process.\<close>

definition on_outside :: "('e, 'a) io \<Rightarrow> ('e world, 'a) io" where
  "on_outside m = (\<lambda>w. case m (outside w) of (r, o') \<Rightarrow> (r, w\<lparr>outside := o'\<rparr>))"

definition of_sum :: "goerr + 'a \<Rightarrow> ('w, 'a) io" where
  "of_sum r = (case r of Inl e \<Rightarrow> throw e | Inr x \<Rightarrow> ret x)"

definition wait_for :: "('e, 'pk, 'kr, 'ctx, 'tx, 'vals) cmd_env \<Rightarrow> int \<Rightarrow> ('e world, unit) io" where
  "wait_for E d = on_outside (\<lambda>o1. (Ok (), ce_Sleep E d o1))"

text \<open>
  \<open>x, err := m; orShutdown(err)\<close>. Only a server returns \<open>grpc.ErrServerStopped\<close>, on which the process would
  go on without the value; no call here does, and the model ends in that error.
\<close>

definition or_shutdown :: "('w, 'a) io \<Rightarrow> ('w, 'a) io" where
  "or_shutdown m = bindE (attempt m) (\<lambda>r. case r of
     Inl e \<Rightarrow> bindE (pure_call (orShutdown (Some e))) (\<lambda>_. throw e)
   | Inr x \<Rightarrow> bindE (pure_call (orShutdown None)) (\<lambda>_. ret x))"

section \<open>Connecting to Injective\<close>

definition NewCosmosNetwork ::
  "('e, 'pk, 'kr, 'ctx, 'tx, 'vals) cmd_env \<Rightarrow> 'kr Keyring \<Rightarrow> PersonalSignFn \<Rightarrow> NetworkConfig \<Rightarrow> ('e world, 'e Network) io" where
  "NewCosmosNetwork E k signFn conf =
     bindE (pure_call (loadClientConfig (ce_LoadNetwork E) conf)) (\<lambda>clientCfg.
     bindE (of_sum (ce_NewClientContext E (cl_ChainId clientCfg) (nc_ValidatorAddress conf) k)) (\<lambda>clientCtx.
     bindE (of_sum (ce_comethttp_New E (cl_TmEndpoint clientCfg) clientCtx)) (\<lambda>clientCtx.
     bindE (lib (ce_NewChainClient E clientCtx clientCfg (nc_GasPrice conf))) (\<lambda>(chainClient, queries).
     bindE (wait_for E 1000000000) (\<lambda>_.
     bindE (on_outside (call (ce_connection E))) (\<lambda>polls.
     bindE (pure_call (awaitConnection polls)) (\<lambda>_.
     case ce_NewRPCClient E (cl_TmEndpoint clientCfg) of
       Inl _ \<Rightarrow> fatal
     | Inr rpc \<Rightarrow> ret (network_of queries
         \<lparr>ChainClient = chainClient, ethSignFn = signFn, bc_geth = ke_geth (ce_keys E), bc_sdk = ce_sdk E,
          bc_abi = ee_abi (ce_eth E)\<rparr> rpc))))))))"

section \<open>Registering an Ethereum key\<close>

definition confirm :: "('e, 'pk, 'kr, 'ctx, 'tx, 'vals) cmd_env \<Rightarrow> bool \<Rightarrow> ('e world, bool) io" where
  "confirm E alwaysAutoConfirm = (if alwaysAutoConfirm then ret True
     else on_outside (call (stdinConfirm (ce_Scanln E))))"

definition keyringCfg :: "cosmos_key_options \<Rightarrow> KeyringConfig" where
  "keyringCfg ck = \<lparr>kc_KeyringDir = ck_cosmosKeyringDir ck, kc_KeyringAppName = ck_cosmosKeyringAppName ck,
     kc_KeyringBackend = ck_cosmosKeyringBackend ck, kc_KeyFrom = ck_cosmosKeyFrom ck,
     kc_KeyPassphrase = ck_cosmosKeyPassphrase ck, kc_PrivateKey = ck_cosmosPrivKey ck,
     kc_UseLedger = ck_cosmosUseLedger ck\<rparr>"

definition networkCfg ::
  "('e, 'pk, 'kr, 'ctx, 'tx, 'vals) cmd_env \<Rightarrow> cosmos_options \<Rightarrow> 'kr Keyring \<Rightarrow> NetworkConfig" where
  "networkCfg E co keyring = \<lparr>nc_ChainID = co_cosmosChainID co,
     nc_ValidatorAddress = AccAddressString (ce_sdk E) (k_Addr keyring), nc_CosmosGRPC = co_cosmosGRPC co,
     nc_TendermintRPC = co_tendermintRPC co, nc_GasPrice = co_cosmosGasPrices co\<rparr>"

definition registerEthKey ::
  "('e, 'pk, 'kr, 'ctx, 'tx, 'vals) cmd_env \<Rightarrow> cosmos_options \<Rightarrow> cosmos_key_options \<Rightarrow> eth_key_options \<Rightarrow> bool \<Rightarrow>
     ('e world, unit) io" where
  "registerEthKey E co ck ek alwaysAutoConfirm =
     bindE (or_shutdown (on_outside (NewKeyring (ce_sdk E) (ce_keyring E) (keyringCfg ck)))) (\<lambda>keyring.
     bindE (on_outside (initEthereumAccountsManager (ce_keys E) 0 (ek_ethKeystoreDir ek) (Some (ek_ethKeyFrom ek))
       (ek_ethPassphrase ek) (ek_ethPrivKey ek) (ek_ethUseLedger ek)))
       (\<lambda>(ethKeyFromAddress, _, personalSignFn, err). if err \<noteq> None then fatal
        else
     bindE (confirm E alwaysAutoConfirm) (\<lambda>actionConfirmed. if \<not> actionConfirmed then ret ()
        else
     bindE (attempt (NewCosmosNetwork E keyring personalSignFn (networkCfg E co keyring))) (\<lambda>r. case r of
         Inl _ \<Rightarrow> fatal
       | Inr net \<Rightarrow>
     bindE (attempt (n_UpdatePeggyOrchestratorAddresses net ethKeyFromAddress (k_Addr keyring))) (\<lambda>r. case r of
         Inl _ \<Rightarrow> wait_for E 1000000000
       | Inr _ \<Rightarrow> ret ())))))"

section \<open>Starting the orchestrator\<close>

definition InjectiveCoin :: string where
  "InjectiveCoin = ''inj''"

text \<open>The duration of an offset is parsed only when its relaying is enabled, and zero otherwise.\<close>

definition offset_duration :: "('e, 'pk, 'kr, 'ctx, 'tx, 'vals) cmd_env \<Rightarrow> bool \<Rightarrow> string \<Rightarrow> ('e world, int) io" where
  "offset_duration E enabled s = (if enabled then or_shutdown (of_sum (ce_ParseDuration E s)) else ret 0)"

definition cosmosKeyringCfg :: "peggo_Config \<Rightarrow> KeyringConfig" where
  "cosmosKeyringCfg c = \<lparr>kc_KeyringDir = pc_cosmosKeyringDir c, kc_KeyringAppName = pc_cosmosKeyringAppName c,
     kc_KeyringBackend = pc_cosmosKeyringBackend c, kc_KeyFrom = pc_cosmosKeyFrom c,
     kc_KeyPassphrase = pc_cosmosKeyPassphrase c, kc_PrivateKey = pc_cosmosPrivKey c,
     kc_UseLedger = pc_cosmosUseLedger c\<rparr>"

definition orchestrator_setup ::
  "('e, 'pk, 'kr, 'ctx, 'tx, 'vals) cmd_env \<Rightarrow> peggo_Config \<Rightarrow> ('e world, 'e Orchestrator) io" where
  "orchestrator_setup E c =
     (if pc_cosmosUseLedger c \<or> pc_ethUseLedger c then fatal
      else
     bindE (or_shutdown (wrapE ''failed to initialize Injective keyring'' (on_outside
       (NewKeyring (ce_sdk E) (ce_keyring E) (cosmosKeyringCfg c))))) (\<lambda>cosmosKeyring.
     bindE (on_outside (initEthereumAccountsManager (ce_keys E) (word_of_int (pc_ethChainID c)) (pc_ethKeystoreDir c)
       (Some (pc_ethKeyFrom c)) (pc_ethPassphrase c) (pc_ethPrivKey c) (pc_ethUseLedger c)))
       (\<lambda>(ethKeyFromAddress, signerFn, personalSignFn, err).
     bindE (pure_call (orShutdown (errors_Wrap err ''failed to initialize Ethereum keyring''))) (\<lambda>_.
     bindE (or_shutdown (NewCosmosNetwork E cosmosKeyring personalSignFn
       \<lparr>nc_ChainID = pc_cosmosChainID c, nc_ValidatorAddress = AccAddressString (ce_sdk E) (k_Addr cosmosKeyring),
        nc_CosmosGRPC = pc_cosmosGRPC c, nc_TendermintRPC = pc_tendermintRPC c,
        nc_GasPrice = pc_cosmosGasPrices c\<rparr>)) (\<lambda>cosmosNetwork.
     bindE (or_shutdown (wrapE ''failed to query peggy params, is injectived running?'' (n_PeggyParams cosmosNetwork)))
       (\<lambda>peggyParams.
     let G = ke_geth (ce_keys E);
         peggyContractAddr = HexToAddress G (pp_BridgeEthereumAddress peggyParams);
         injTokenAddr = HexToAddress G (pp_CosmosCoinErc20Contract peggyParams)
     in
     bindE (or_shutdown (NewEthNetwork (ce_bindings E) (ce_eth E) (ce_gas_price E) (ce_rpc_Dial E) (ce_ParseDuration E)
       peggyContractAddr ethKeyFromAddress signerFn
       \<lparr>ec_EthNodeRPC = pc_ethNodeRPC c, ec_GasPriceAdjustment = pc_ethGasPriceAdjustment c,
        ec_MaxGasPrice = pc_ethMaxGasPrice c, ec_PendingTxWaitDuration = pc_pendingTxWaitDuration c,
        ec_EthNodeAlchemyWS = pc_ethNodeAlchemyWS c\<rparr>)) (\<lambda>(ethNetwork, _).
     bindE (HasRegisteredOrchestrator cosmosNetwork ethKeyFromAddress) (\<lambda>registered.
     bindE (offset_duration E (pc_relayValsets c) (pc_relayValsetOffsetDur c)) (\<lambda>valsetDur.
     bindE (offset_duration E (pc_relayBatches c) (pc_relayBatchOffsetDur c)) (\<lambda>batchDur.
     ret (NewOrchestrator cosmosNetwork (eth_of ethNetwork)
       (QueryUSDPrice G (ce_http E) (NewCoingeckoPriceFeed 100 (Some \<lparr>BaseURL = pc_coingeckoApi c\<rparr>)))
       \<lparr>CosmosAddr = k_Addr cosmosKeyring, EthereumAddr = ethKeyFromAddress, MinBatchFeeUSD = pc_minBatchFeeUSD c,
        ERC20ContractMapping = [injTokenAddr \<mapsto> InjectiveCoin], RelayValsetOffsetDur = valsetDur,
        RelayBatchOffsetDur = batchDur, RelayValsets = pc_relayValsets c, RelayBatches = pc_relayBatches c,
        RelayerMode = (registered = None)\<rparr>
       G (ce_sdk E) (ee_dec (ce_eth E)) (ee_now (ce_eth E)) (ce_Sleep E) (ce_retry E))))))))))))"

text \<open>The action of the command. An error of \<open>Run\<close> ends the process.\<close>

definition orchestratorCmd ::
  "('e, 'pk, 'kr, 'ctx, 'tx, 'vals) cmd_env \<Rightarrow> cli_lib \<Rightarrow> ('e world, 'e Orchestrator \<times> loop set \<times> u64 \<times> hash) io" where
  "orchestratorCmd E C = bindE (orchestrator_setup E (initConfig C)) (\<lambda>s.
     bindE (attempt (Run s (injective s) (ethereum s))) (\<lambda>r. case r of
       Inl _ \<Rightarrow> fatal
     | Inr x \<Rightarrow> ret (s, x)))"
section \<open>What the commands do to the world\<close>

lemma on_outside_Ok_iff [simp]:
  "on_outside m w = (Ok x, w') \<longleftrightarrow> (\<exists>o'. m (outside w) = (Ok x, o') \<and> w' = w\<lparr>outside := o'\<rparr>)"
  by (auto simp: on_outside_def split: prod.splits)

lemma of_sum_Ok_iff [simp]: "of_sum r w = (Ok x, w') \<longleftrightarrow> r = Inr x \<and> w' = w"
  by (auto simp: of_sum_def split: sum.splits)

lemma or_shutdown_Ok_iff [simp]: "or_shutdown m w = (Ok x, w') \<longleftrightarrow> m w = (Ok x, w')"
  by (auto simp: or_shutdown_def orShutdown_def io_simps split: prod.splits res.splits)

lemma orShutdown_Wrap [simp]: "orShutdown (errors_Wrap err msg) = Ok () \<longleftrightarrow> err = None"
  by (cases err) (auto simp: orShutdown_def errors_Wrap_def grpc_ErrServerStopped_def)

lemma on_outside_silent: "keeps silently (on_outside m)"
  by (rule keepsI) (auto simp: on_outside_def silently_def split: prod.splits)

lemma of_sum_silent: "keeps silently (of_sum r)"
  unfolding of_sum_def by (intro silently.keeps_rules)

lemma or_shutdown_silent: "keeps silently m \<Longrightarrow> keeps silently (or_shutdown m)"
  unfolding or_shutdown_def by (intro silently.keeps_rules)

lemma wait_for_silent: "keeps silently (wait_for E d)"
  unfolding wait_for_def by (rule on_outside_silent)

lemma lib_silently: "keeps silently (lib f)"
  by (rule silent_silently [OF lib_silent])

lemmas cmd_silent = on_outside_silent of_sum_silent or_shutdown_silent wait_for_silent lib_silently

lemma NewCosmosNetwork_silent: "keeps silently (NewCosmosNetwork E k signFn conf)"
  unfolding NewCosmosNetwork_def by (intro silently.keeps_rules cmd_silent)

lemma NewCosmosNetwork_Ok:
  fixes E :: "('e, 'pk, 'kr, 'ctx, 'tx, 'vals) cmd_env"
  assumes "NewCosmosNetwork E k signFn conf w = (Ok net, w')"
  obtains q b and t :: "('e, 'tx, 'vals) rpcClient" where "net = network_of q b t" "ethSignFn b = signFn" "bc_geth b = ke_geth (ce_keys E)" "bc_sdk b = ce_sdk E"
proof -
  from assms obtain q cc t where "net = network_of q
      \<lparr>ChainClient = cc, ethSignFn = signFn, bc_geth = ke_geth (ce_keys E), bc_sdk = ce_sdk E, bc_abi = ee_abi (ce_eth E)\<rparr>
      (t :: ('e, 'tx, 'vals) rpcClient)"
    unfolding NewCosmosNetwork_def by (auto elim!: bindE_OkE simp: fatal_simp split: sum.splits prod.splits)
  then show thesis by (rule that) simp_all
qed

lemma with_cache_silent: "keeps silently (with_cache f)"
  by (rule keepsI) (auto simp: io_simps silently_def split: prod.splits)

lemma resyncNonces_silent: "keeps silently (resyncNonces c a)"
  unfolding resyncNonces_def by (intro silently.keeps_rules lib_silently with_cache_silent)

lemma NewEthCommitter_silent: "keeps silently (NewEthCommitter D v a adj p s cl opts)"
proof -
  have "keeps silently (\<lambda>w. (Diverge, w))" by (rule keepsI) (simp add: silently.P_refl)
  then show ?thesis
    unfolding NewEthCommitter_def Let_def
    by (auto split: res.splits sum.splits intro!: silently.keeps_rules with_cache_silent resyncNonces_silent)
qed

lemma NewPeggyContract_silent: "keeps silently (NewPeggyContract B c a p d)"
  by (rule keepsI) (auto simp: NewPeggyContract_def silently_def io_simps split: sum.splits)

lemma NewEthNetwork_silent: "keeps silently (NewEthNetwork B E v dial parse a from s conf)"
  unfolding NewEthNetwork_def
  by (intro silently.keeps_rules lib_silently NewEthCommitter_silent NewPeggyContract_silent)

lemma NewEthNetwork_Ok:
  assumes "NewEthNetwork B E v dial parse a from s conf w = (Ok (n, x), w')"
  shows "fromSigner (EVMCommitter (en_PeggyContract n)) = s \<and> fromAddress (EVMCommitter (en_PeggyContract n)) = from \<and>
    peggyAddress (en_PeggyContract n) = a"
  using assms unfolding NewEthNetwork_def NewEthCommitter_def NewPeggyContract_def Let_def
  by (auto elim!: bindE_OkE simp: fatal_simp panic_simp split: res.splits sum.splits prod.splits)
section \<open>Registering a key\<close>

text \<open>What is broadcast, if anything: the one message, after confirmation, for the key that was set up.\<close>

definition registration ::
  "('e, 'pk, 'kr, 'ctx, 'tx, 'vals) cmd_env \<Rightarrow> cosmos_key_options \<Rightarrow> eth_key_options \<Rightarrow> bool \<Rightarrow> 'e world \<Rightarrow>
     cosmos_msg \<Rightarrow> bool" where
  "registration E ck ek auto w msg \<longleftrightarrow> (\<exists>keyring o1 a s p o2 sender.
     NewKeyring (ce_sdk E) (ce_keyring E) (keyringCfg ck) (outside w) = (Ok keyring, o1) \<and>
     initEthereumAccountsManager (ce_keys E) 0 (ek_ethKeystoreDir ek) (Some (ek_ethKeyFrom ek)) (ek_ethPassphrase ek)
       (ek_ethPrivKey ek) (ek_ethUseLedger ek) o1 = (Ok (a, s, p, None), o2) \<and>
     (auto \<or> fst (stdinConfirm (ce_Scanln E) o2)) \<and>
     msg = SetOrchestratorAddresses sender (AddressHex (ke_geth (ce_keys E)) a) (AccAddressString (ce_sdk E) (k_Addr keyring)))"

lemma broadcast_msg_effect:
  "\<exists>ok r o'. broadcast_msg b name msg w = (r, w\<lparr>outside := o', broadcasts := broadcasts w @ [(msg, ok)]\<rparr>)"
  by (auto simp: broadcast_msg_def Let_def split: prod.splits sum.splits)

text \<open>At most one message, which satisfies \<open>Q\<close>, and no transaction.\<close>

definition at_most_one :: "(cosmos_msg \<Rightarrow> bool) \<Rightarrow> 'e world \<Rightarrow> 'a res \<times> 'e world \<Rightarrow> bool" where
  "at_most_one Q w x \<longleftrightarrow> submitted (snd x) = submitted w \<and>
     (broadcasts (snd x) = broadcasts w \<or> (\<exists>msg ok. broadcasts (snd x) = broadcasts w @ [(msg, ok)] \<and> Q msg))"

lemma at_most_one_silent: "keeps silently m \<Longrightarrow> at_most_one Q w (m w)"
  by (simp add: keeps_def silently_def at_most_one_def)

lemma at_most_one_bind:
  assumes "keeps silently m" "\<And>x w1. m w = (Ok x, w1) \<Longrightarrow> at_most_one Q w1 (f x w1)"
  shows "at_most_one Q w (bindE m f w)"
proof (cases "m w")
  case (Pair r w1)
  have "silently w w1" by (rule keepsD [OF assms(1) Pair])
  then show ?thesis using Pair assms(2) by (cases r) (auto simp: io_simps at_most_one_def silently_def)
qed

lemma update_effect:
  fixes E :: "('e, 'pk, 'kr, 'ctx, 'tx, 'vals) cmd_env"
  assumes "NewCosmosNetwork E keyring p conf w0 = (Ok net, w1)"
  obtains sender ok r o1 where "n_UpdatePeggyOrchestratorAddresses net a orch w = (r, w\<lparr>outside := o1, broadcasts := broadcasts w @
    [(SetOrchestratorAddresses sender (AddressHex (ke_geth (ce_keys E)) a) (AccAddressString (ce_sdk E) orch), ok)]\<rparr>)"
proof -
  obtain q b and t :: "('e, 'tx, 'vals) rpcClient" where net: "net = network_of q b t" "ethSignFn b = p"
    "bc_geth b = ke_geth (ce_keys E)" "bc_sdk b = ce_sdk E"
    by (rule NewCosmosNetwork_Ok [OF assms])
  have "n_UpdatePeggyOrchestratorAddresses net a orch = broadcast_msg b ''MsgSetOrchestratorAddresses''
      (SetOrchestratorAddresses (from_str b) (AddressHex (ke_geth (ce_keys E)) a) (AccAddressString (ce_sdk E) orch))"
    by (simp add: net network_of_def Let_def UpdatePeggyOrchestratorAddresses_def)
  then show thesis using that broadcast_msg_effect by metis
qed

lemma registered_net:
  assumes "NewCosmosNetwork E keyring p conf w = (Ok net, w1)"
    and "\<And>sender. Q (SetOrchestratorAddresses sender (AddressHex (ke_geth (ce_keys E)) a) (AccAddressString (ce_sdk E) orch))"
  shows "at_most_one Q w1 (bindE (attempt (n_UpdatePeggyOrchestratorAddresses net a orch)) (\<lambda>r. case r of
      Inl _ \<Rightarrow> wait_for E d | Inr _ \<Rightarrow> ret ()) w1)"
  by (rule update_effect [OF assms(1), of a orch w1])
    (use assms(2) in \<open>auto simp: at_most_one_def io_simps wait_for_def on_outside_def split: res.splits prod.splits\<close>)

lemma confirm_silent: "keeps silently (confirm E auto)"
  unfolding confirm_def by (intro silently.keeps_rules cmd_silent)

lemma confirm_True:
  assumes "confirm E auto w = (Ok True, w')"
  shows "auto \<or> fst (stdinConfirm (ce_Scanln E) (outside w))"
  using assms by (auto simp: confirm_def call_simp split: if_splits prod.splits)

text \<open>C37. The command \<open>register-eth-key\<close> submits nothing to Ethereum and broadcasts at most one message to Injective,
  whatever happens: the registration of the Ethereum address that the key setup returned for the account of
  the keyring, and this only when the user agreed or confirmation was switched off.\<close>

theorem registerEthKey_sends: "at_most_one (registration E ck ek auto w) w (registerEthKey E co ck ek auto w)"
  unfolding registerEthKey_def
proof (rule at_most_one_bind, goal_cases)
  case 1
  show ?case by (intro cmd_silent)
next
  case (2 keyring w1)
  then obtain o1 where k: "NewKeyring (ce_sdk E) (ce_keyring E) (keyringCfg ck) (outside w) = (Ok keyring, o1)"
    "w1 = w\<lparr>outside := o1\<rparr>" by auto
  show ?case
  proof (rule at_most_one_bind [OF on_outside_silent], goal_cases)
    case (1 acc w2)
    obtain a s p err where acc: "acc = (a, s, p, err)" by (cases acc)
    with 1 k(2) obtain o2 where e: "initEthereumAccountsManager (ce_keys E) 0 (ek_ethKeystoreDir ek) (Some (ek_ethKeyFrom ek))
        (ek_ethPassphrase ek) (ek_ethPrivKey ek) (ek_ethUseLedger ek) o1 = (Ok (a, s, p, err), o2)" "outside w2 = o2" by auto
    have reg: "registration E ck ek auto w (SetOrchestratorAddresses sender (AddressHex (ke_geth (ce_keys E)) a)
        (AccAddressString (ce_sdk E) (k_Addr keyring)))" if "err = None" "confirm E auto w2 = (Ok True, w3)" for sender w3
      unfolding registration_def using k(1) e confirm_True [OF that(2)] that(1) by blast
    show ?case
    proof (cases err)
      case None
      show ?thesis unfolding acc prod.case None
      proof (simp, rule at_most_one_bind [OF confirm_silent], goal_cases)
        case (1 ok w3)
        show ?case
        proof (cases ok)
          case True
          show ?thesis
          proof (simp add: True, rule at_most_one_bind [OF silently.keeps_attempt [OF NewCosmosNetwork_silent]], goal_cases)
            case (1 r w4)
            then show ?case
            proof (cases r)
              case (Inr net)
              with 1 obtain conf where "NewCosmosNetwork E keyring p conf w3 = (Ok net, w4)" by (auto elim: attempt_OkE)
              from registered_net [OF this, where Q = "registration E ck ek auto w" and a = a and orch = "k_Addr keyring"]
              show ?thesis using Inr True reg [OF None] \<open>confirm E auto w2 = (Ok ok, w3)\<close> by simp
            qed (simp add: at_most_one_silent silently.keeps_fatal)
          qed
        qed (simp add: at_most_one_silent silently.keeps_ret)
      qed
    qed (simp add: acc at_most_one_silent silently.keeps_fatal)
  qed
qed

text \<open>C40. \<open>register-eth-key\<close> with a private key and an Ethereum address that the key does not belong to is not refused:
  once the keyring is opened and the node connected, it registers the zero address for the validator.\<close>

theorem mismatched_key_registers_zero:
  assumes "\<not> ek_ethUseLedger ek" "ek_ethPrivKey ek \<noteq> []" "HexToECDSA (ke_crypto (ce_keys E)) (ek_ethPrivKey ek) = Inr pk"
    and "ek_ethKeyFrom ek \<noteq> []"
    and "HexToAddress (ke_geth (ce_keys E)) (ek_ethKeyFrom ek) \<noteq> PubkeyToAddress (ke_crypto (ce_keys E)) pk"
    and "NewKeyring (ce_sdk E) (ce_keyring E) (keyringCfg ck) (outside w) = (Ok keyring, o1)"
    and "NewCosmosNetwork E keyring None (networkCfg E co keyring) (w\<lparr>outside := o1\<rparr>) = (Ok net, w1)"
  shows "\<exists>sender ok. broadcasts (snd (registerEthKey E co ck ek True w)) = broadcasts w @
    [(SetOrchestratorAddresses sender (AddressHex (ke_geth (ce_keys E)) 0)
        (AccAddressString (ce_sdk E) (k_Addr keyring)), ok)]"
proof -
  have acc: "initEthereumAccountsManager (ce_keys E) 0 (ek_ethKeystoreDir ek) (Some (ek_ethKeyFrom ek)) (ek_ethPassphrase ek)
      (ek_ethPrivKey ek) (ek_ethUseLedger ek) o1 = (Ok (0, None, None, None), o1)"
    by (rule mismatched_key_accepted [OF assms(1-3) refl assms(4)]) (use assms(5) in simp)
  have same: "broadcasts w1 = broadcasts w"
    using keepsD [OF NewCosmosNetwork_silent assms(7)] by (simp add: silently_def)
  obtain sender ok r o2 where "n_UpdatePeggyOrchestratorAddresses net 0 (k_Addr keyring) w1 =
      (r, w1\<lparr>outside := o2, broadcasts := broadcasts w1 @ [(SetOrchestratorAddresses sender
        (AddressHex (ke_geth (ce_keys E)) 0) (AccAddressString (ce_sdk E) (k_Addr keyring)), ok)]\<rparr>)"
    by (rule update_effect [OF assms(7)])
  then have "broadcasts (snd (registerEthKey E co ck ek True w)) = broadcasts w @ [(SetOrchestratorAddresses sender
        (AddressHex (ke_geth (ce_keys E)) 0) (AccAddressString (ce_sdk E) (k_Addr keyring)), ok)]"
    using assms(6,7) acc same
    by (cases r) (simp_all add: registerEthKey_def or_shutdown_def orShutdown_def on_outside_def confirm_def wait_for_def io_simps)
  then show ?thesis by blast
qed
section \<open>The orchestrator that is started\<close>

lemma HasRegisteredOrchestrator_silent: "keeps silently (HasRegisteredOrchestrator (network_of q b t) a)"
  unfolding HasRegisteredOrchestrator_def
  by (intro silently.keeps_rules silent_silently inj.query_silent)

lemma offset_duration_silent: "keeps silently (offset_duration E b s)"
  unfolding offset_duration_def by (intro silently.keeps_rules cmd_silent)

lemma orchestrator_setup_silent:
  fixes E :: "('e, 'pk, 'kr, 'ctx, 'tx, 'vals) cmd_env"
  shows "keeps silently (orchestrator_setup E c)"
proof -
  have net: "keeps silently (n_PeggyParams net) \<and> keeps silently (HasRegisteredOrchestrator net a)"
    if net: "NewCosmosNetwork E k p conf w = (Ok net, w')" for net a k p conf w w'
  proof -
    obtain q b and t :: "('e, 'tx, 'vals) rpcClient" where "net = network_of q b t"
      using net by (auto elim: NewCosmosNetwork_Ok)
    then show ?thesis
      using silent_silently [OF inj.query_silent(1)] HasRegisteredOrchestrator_silent by auto
  qed
  show ?thesis
    unfolding orchestrator_setup_def Let_def
    by (intro silently.keeps_if silently.keeps_fatal silently.keeps_bindE_Ok silently.keeps_case_prod silently.keeps_pure_call
        silently.keeps_wrapE silently.keeps_ret cmd_silent NewCosmosNetwork_silent NewEthNetwork_silent offset_duration_silent)
      (auto dest: net)
qed

text \<open>What the setup has put together when it succeeds.\<close>

lemma orchestrator_setup_Ok:
  fixes E :: "('e, 'pk, 'kr, 'ctx, 'tx, 'vals) cmd_env"
  assumes "orchestrator_setup E c w = (Ok s, w')"
  obtains q b n a signer sign o1 o2 w1 w2 registered and t :: "('e, 'tx, 'vals) rpcClient" where
    "\<not> pc_cosmosUseLedger c" "\<not> pc_ethUseLedger c"
    "initEthereumAccountsManager (ce_keys E) (word_of_int (pc_ethChainID c)) (pc_ethKeystoreDir c) (Some (pc_ethKeyFrom c))
       (pc_ethPassphrase c) (pc_ethPrivKey c) False o1 = (Ok (a, signer, sign, None), o2)"
    "injective s = network_of q b t" "ethSignFn b = sign" "ethereum s = eth_of n"
    "fromSigner (EVMCommitter (en_PeggyContract n)) = signer" "fromAddress (EVMCommitter (en_PeggyContract n)) = a"
    "HasRegisteredOrchestrator (injective s) a w1 = (Ok registered, w2)"
    "EthereumAddr (cfg s) = a" "RelayerMode (cfg s) \<longleftrightarrow> registered = None"
    "RelayValsets (cfg s) = pc_relayValsets c" "RelayBatches (cfg s) = pc_relayBatches c"
    "MinBatchFeeUSD (cfg s) = pc_minBatchFeeUSD c" "retry_Do s = ce_retry E"
    "priceFeed s = QueryUSDPrice (ke_geth (ce_keys E)) (ce_http E) (NewCoingeckoPriceFeed 100 (Some \<lparr>BaseURL = pc_coingeckoApi c\<rparr>))"
proof -
  from assms obtain k a signer sign net n x registered vd bd conf o1 o2 w1 w2 w3 w4 w5 w6 and params :: PeggyParams where
    1: "\<not> pc_cosmosUseLedger c" "\<not> pc_ethUseLedger c"
    "initEthereumAccountsManager (ce_keys E) (word_of_int (pc_ethChainID c)) (pc_ethKeystoreDir c) (Some (pc_ethKeyFrom c))
       (pc_ethPassphrase c) (pc_ethPrivKey c) False o1 = (Ok (a, signer, sign, None), o2)"
    and net: "NewCosmosNetwork E k sign conf w1 = (Ok net, w2)"
    and eth: "NewEthNetwork (ce_bindings E) (ce_eth E) (ce_gas_price E) (ce_rpc_Dial E) (ce_ParseDuration E)
       (HexToAddress (ke_geth (ce_keys E)) (pp_BridgeEthereumAddress params)) a signer
       \<lparr>ec_EthNodeRPC = pc_ethNodeRPC c, ec_GasPriceAdjustment = pc_ethGasPriceAdjustment c,
        ec_MaxGasPrice = pc_ethMaxGasPrice c, ec_PendingTxWaitDuration = pc_pendingTxWaitDuration c,
        ec_EthNodeAlchemyWS = pc_ethNodeAlchemyWS c\<rparr> w3 = (Ok (n, x), w4)"
    and reg: "HasRegisteredOrchestrator net a w5 = (Ok registered, w6)"
    and s: "s = NewOrchestrator net (eth_of n)
       (QueryUSDPrice (ke_geth (ce_keys E)) (ce_http E) (NewCoingeckoPriceFeed 100 (Some \<lparr>BaseURL = pc_coingeckoApi c\<rparr>)))
       \<lparr>CosmosAddr = k_Addr k, EthereumAddr = a, MinBatchFeeUSD = pc_minBatchFeeUSD c,
        ERC20ContractMapping = [HexToAddress (ke_geth (ce_keys E)) (pp_CosmosCoinErc20Contract params) \<mapsto> InjectiveCoin],
        RelayValsetOffsetDur = vd, RelayBatchOffsetDur = bd, RelayValsets = pc_relayValsets c,
        RelayBatches = pc_relayBatches c, RelayerMode = (registered = None)\<rparr>
       (ke_geth (ce_keys E)) (ce_sdk E) (ee_dec (ce_eth E)) (ee_now (ce_eth E)) (ce_Sleep E) (ce_retry E)"
    unfolding orchestrator_setup_def Let_def
    by (auto elim!: bindE_OkE simp: fatal_simp split: if_splits prod.splits)
  obtain q b and t :: "('e, 'tx, 'vals) rpcClient" where 2: "net = network_of q b t" "ethSignFn b = sign"
    using net by (auto elim: NewCosmosNetwork_Ok)
  show thesis
    by (rule that [OF 1, of q b t n w5 registered w6])
      (use 2 NewEthNetwork_Ok [OF eth] reg in \<open>simp_all add: s NewOrchestrator_def\<close>)
qed
text \<open>C13. When the orchestrator has been set up, nothing has been broadcast or submitted yet; no key is on a Ledger; unless
  the Ethereum address is zero, there is a signing function for transactions, the one for confirmations signs
  for that address only, and transactions are sent from that address; and the process is in relayer mode exactly if
  asking Injective for the validator of that address failed.\<close>

theorem orchestrator_setup_keys:
  fixes E :: "('e, 'pk, 'kr, 'ctx, 'tx, 'vals) cmd_env"
  assumes "orchestrator_setup E c w = (Ok s, w')"
  shows "broadcasts w' = broadcasts w \<and> submitted w' = submitted w \<and> \<not> pc_cosmosUseLedger c \<and> \<not> pc_ethUseLedger c \<and>
    (\<exists>q b t n. injective s = network_of q b (t :: ('e, 'tx, 'vals) rpcClient) \<and> ethereum s = eth_of n \<and>
       (EthereumAddr (cfg s) \<noteq> 0 \<longrightarrow> signs_for (EthereumAddr (cfg s)) (ethSignFn b) \<and>
          fromSigner (EVMCommitter (en_PeggyContract n)) \<noteq> None) \<and>
       fromAddress (EVMCommitter (en_PeggyContract n)) = EthereumAddr (cfg s)) \<and>
    (\<exists>w1 w2. if RelayerMode (cfg s) then \<exists>e. n_GetValidatorAddress (injective s) (EthereumAddr (cfg s)) w1 = (Err e, w2)
       else \<exists>v. n_GetValidatorAddress (injective s) (EthereumAddr (cfg s)) w1 = (Ok v, w2))"
proof -
  from assms obtain q b n a signer sign o1 o2 w1 w2 registered and t :: "('e, 'tx, 'vals) rpcClient" where s:
    "\<not> pc_cosmosUseLedger c" "\<not> pc_ethUseLedger c"
    "initEthereumAccountsManager (ce_keys E) (word_of_int (pc_ethChainID c)) (pc_ethKeystoreDir c) (Some (pc_ethKeyFrom c))
       (pc_ethPassphrase c) (pc_ethPrivKey c) False o1 = (Ok (a, signer, sign, None), o2)"
    "injective s = network_of q b t" "ethSignFn b = sign" "ethereum s = eth_of n"
    "fromSigner (EVMCommitter (en_PeggyContract n)) = signer" "fromAddress (EVMCommitter (en_PeggyContract n)) = a"
    "HasRegisteredOrchestrator (injective s) a w1 = (Ok registered, w2)"
    "EthereumAddr (cfg s) = a" "RelayerMode (cfg s) \<longleftrightarrow> registered = None"
    by (rule orchestrator_setup_Ok)
  have "broadcasts w' = broadcasts w \<and> submitted w' = submitted w"
    using keepsD [OF orchestrator_setup_silent assms] by (simp add: silently_def)
  moreover have "a \<noteq> 0 \<longrightarrow> signer \<noteq> None \<and> signs_for a sign"
    using account_signs_for_itself [OF s(3)] by blast
  moreover have "\<exists>w1 w2. if registered = None then \<exists>e. n_GetValidatorAddress (injective s) a w1 = (Err e, w2)
       else \<exists>v. n_GetValidatorAddress (injective s) a w1 = (Ok v, w2)"
    using s(9) unfolding HasRegisteredOrchestrator_def
    by (intro exI [of _ w1] exI [of _ w2]) (auto elim!: bindE_OkE attempt_OkE split: sum.splits)
  moreover have "\<exists>q b t n. injective s = network_of q b (t :: ('e, 'tx, 'vals) rpcClient) \<and> ethereum s = eth_of n \<and>
       (a \<noteq> 0 \<longrightarrow> signs_for a (ethSignFn b) \<and> fromSigner (EVMCommitter (en_PeggyContract n)) \<noteq> None) \<and>
       fromAddress (EVMCommitter (en_PeggyContract n)) = a"
    using s(4-8) calculation by blast
  ultimately show ?thesis using s(1,2) unfolding s(10,11) by blast
qed

text \<open>The default of the option for the Injective chain id names no network: unless both endpoints are configured, the
  orchestrator with that default never starts, whatever the keys and the nodes are.\<close>

theorem default_chain_id_never_starts:
  assumes "opt_String C ''cosmos-chain-id'' ''PEGGO_COSMOS_CHAIN_ID'' ''888'' = ''888''"
    and "opt_String C ''cosmos-grpc'' ''PEGGO_COSMOS_GRPC'' [] = [] \<or>
      opt_String C ''tendermint-rpc'' ''PEGGO_TENDERMINT_RPC'' [] = []"
  shows "fst (orchestratorCmd E C w) \<noteq> Ok x"
proof
  assume ok: "fst (orchestratorCmd E C w) = Ok x"
  then obtain s w' where "orchestrator_setup E (initConfig C) w = (Ok s, w')"
    by (cases "orchestrator_setup E (initConfig C) w")
      (auto simp: orchestratorCmd_def io_simps split: res.splits)
  then obtain k p conf w1 net w2 where "NewCosmosNetwork E k p conf w1 = (Ok net, w2)"
    "nc_ChainID conf = ''888''" "nc_CosmosGRPC conf = [] \<or> nc_TendermintRPC conf = []"
    using assms unfolding orchestrator_setup_def
    by (auto elim!: bindE_OkE simp: fatal_simp initConfig_def Let_def split: if_splits prod.splits)
  then show False
    by (auto elim!: bindE_OkE simp: NewCosmosNetwork_def loadClientConfig_def loadBalancedEndpoints_def split: if_splits)
qed
section \<open>Concrete runs\<close>

definition toy_keys :: "(nat, nat) key_env" where
  "toy_keys = \<lparr>ke_crypto = toy_crypto, ke_files = toy_files, ke_geth = unary_geth, ke_enum = (\<lambda>_. []),
     ke_transactor = (\<lambda>_ _. Inr (\<lambda>_ tx. Inr \<lparr>st_Tx = tx, st_Sig = []\<rparr>)), ke_ledger = Inr [],
     ke_ReadPassword = (\<lambda>k. (Inr ''p'', k))\<rparr>"

lemma toy_keys_faithful: "transactor_faithful toy_keys"
  by (auto simp: transactor_faithful_def toy_keys_def signer_faithful_def)

definition toy_load :: LoadNetwork where
  "toy_load name node = \<lparr>cl_Name = name, cl_ChainId = name, cl_FeeDenom = ''inj'', cl_TmEndpoint = ''t'',
     cl_ChainGrpcEndpoint = ''g'', cl_ExplorerGrpcEndpoint = [], cl_LcdEndpoint = []\<rparr>"

definition toy_cmd :: "(nat, nat, string list, unit, unit, unit) cmd_env" where
  "toy_cmd = \<lparr>ce_keys = toy_keys, ce_keyring = toy_keyring, ce_sdk = sample_sdk, ce_eth = sample_env,
     ce_LoadNetwork = toy_load, ce_NewClientContext = (\<lambda>_ _ _. Inr ()), ce_comethttp_New = (\<lambda>_ c. Inr c),
     ce_NewChainClient = (\<lambda>_ _ _ k. (Inr (ChainClient sample_broadcaster, sample_queries), k)),
     ce_connection = (\<lambda>k. ([False, True], k)), ce_NewRPCClient = (\<lambda>_. Inr sample_rpc),
     ce_Scanln = (\<lambda>k. (Inr ''y'', k)), ce_Sleep = (\<lambda>_ k. k),
     ce_bindings = sample_bindings no_events,
     ce_gas_price = 20, ce_rpc_Dial = (\<lambda>_ k. (Inr (sample_client (\<lambda>_. Inr 9), sample_node), k)),
     ce_ParseDuration = (\<lambda>_. Inr 10), ce_http = constant_http (priced 1), ce_retry = simple_retry\<rparr>"

definition toy_cosmos :: cosmos_options where
  "toy_cosmos = \<lparr>co_cosmosChainID = ''injective-1'', co_cosmosGRPC = [], co_tendermintRPC = [], co_cosmosGasPrices = []\<rparr>"

definition toy_cosmos_key :: cosmos_key_options where
  "toy_cosmos_key = \<lparr>ck_cosmosKeyringBackend = ''file'', ck_cosmosKeyringDir = ''/d'', ck_cosmosKeyringAppName = ''peggo'',
     ck_cosmosKeyFrom = ''inj1'', ck_cosmosKeyPassphrase = ''peggo'', ck_cosmosPrivKey = [], ck_cosmosUseLedger = False\<rparr>"

text \<open>The key of \<open>''abc''\<close> is that of address 3, not of address 2.\<close>

definition toy_eth_key :: eth_key_options where
  "toy_eth_key = \<lparr>ek_ethKeystoreDir = [], ek_ethKeyFrom = ''xy'', ek_ethPassphrase = [], ek_ethPrivKey = ''abc'',
     ek_ethUseLedger = False\<rparr>"

lemma toy_NewKeyring:
  assumes "kc_PrivateKey conf = []" "kc_KeyFrom conf \<noteq> []"
  shows "NewKeyring sample_sdk toy_keyring conf k = (Ok \<lparr>k_Keyring = [''a''], k_Addr = map of_char (kc_KeyFrom conf)\<rparr>, k)"
  using assms
  by (simp add: NewKeyring_def withPrivateKey_def newKeyringFromDir_def absolute_def find_key_def sample_sdk_def
      usable_key_def toy_keyring_def io_simps Let_def)

lemma toy_network:
  assumes "nc_ChainID conf = ''injective-1''" "nc_CosmosGRPC conf = []"
  shows "NewCosmosNetwork toy_cmd k p conf w = (Ok (network_of sample_queries (sample_broadcaster\<lparr>ethSignFn := p\<rparr>) sample_rpc), w)"
  using assms
  by (simp add: NewCosmosNetwork_def loadClientConfig_def loadBalancedEndpoints_def of_sum_def wait_for_def on_outside_def
      toy_cmd_def toy_keys_def sample_broadcaster_def sample_env_def io_simps)

theorem mismatched_key_registers_zero_witness:
  "\<exists>sender ok. broadcasts (snd (registerEthKey toy_cmd toy_cosmos toy_cosmos_key toy_eth_key True (sample_world 0))) =
     [(SetOrchestratorAddresses sender [] ''inj1'', ok)]"
proof -
  have ring: "NewKeyring (ce_sdk toy_cmd) (ce_keyring toy_cmd) (keyringCfg toy_cosmos_key) (outside (sample_world 0)) =
      (Ok \<lparr>k_Keyring = [''a''], k_Addr = map of_char ''inj1''\<rparr>, 0)"
    using toy_NewKeyring [of "keyringCfg toy_cosmos_key"]
    by (simp add: toy_cmd_def keyringCfg_def toy_cosmos_key_def sample_world_def)
  have addr: "AccAddressString (ce_sdk toy_cmd) (map of_char ''inj1'') = ''inj1''" "AddressHex (ke_geth (ce_keys toy_cmd)) 0 = []"
    by (simp_all add: toy_cmd_def sample_sdk_def toy_keys_def unary_geth_def char_of_def bit_0)
  have key: "\<not> ek_ethUseLedger toy_eth_key" "ek_ethPrivKey toy_eth_key \<noteq> []"
    "HexToECDSA (ke_crypto (ce_keys toy_cmd)) (ek_ethPrivKey toy_eth_key) = Inr 3" "ek_ethKeyFrom toy_eth_key \<noteq> []"
    "HexToAddress (ke_geth (ce_keys toy_cmd)) (ek_ethKeyFrom toy_eth_key) \<noteq> PubkeyToAddress (ke_crypto (ce_keys toy_cmd)) 3"
    by (simp_all add: toy_eth_key_def toy_cmd_def toy_keys_def toy_crypto_def unary_geth_def)
  have "nc_ChainID (networkCfg toy_cmd toy_cosmos k) = ''injective-1''" "nc_CosmosGRPC (networkCfg toy_cmd toy_cosmos k) = []" for k
    by (simp_all add: networkCfg_def toy_cosmos_def)
  from mismatched_key_registers_zero [OF key ring toy_network [OF this]] addr
  show ?thesis by (simp add: sample_world_def)
qed

definition toy_config :: peggo_Config where
  "toy_config = \<lparr>pc_cosmosChainID = ''injective-1'', pc_cosmosGRPC = [], pc_tendermintRPC = [], pc_cosmosGasPrices = [],
     pc_cosmosKeyringBackend = ''file'', pc_cosmosKeyringDir = ''/d'', pc_cosmosKeyringAppName = ''peggo'',
     pc_cosmosKeyFrom = ''o'', pc_cosmosKeyPassphrase = ''peggo'', pc_cosmosPrivKey = [], pc_cosmosUseLedger = False,
     pc_ethChainID = 1, pc_ethNodeRPC = ''n'', pc_ethNodeAlchemyWS = [], pc_ethGasPriceAdjustment = 1,
     pc_ethMaxGasPrice = ''5'', pc_ethKeystoreDir = [], pc_ethKeyFrom = [], pc_ethPassphrase = [], pc_ethPrivKey = ''ab'',
     pc_ethUseLedger = False, pc_relayValsets = True, pc_relayValsetOffsetDur = ''5m'', pc_relayBatches = True,
     pc_relayBatchOffsetDur = ''5m'', pc_pendingTxWaitDuration = ''20m'', pc_minBatchFeeUSD = 1,
     pc_coingeckoApi = ''c''\<rparr>"

lemma toy_account:
  "initEthereumAccountsManager toy_keys chain [] (Some []) [] ''ab'' False k =
     (Ok (2, Some (\<lambda>_ tx. Inr \<lparr>st_Tx = tx, st_Sig = []\<rparr>), Some (sign_with toy_crypto 2), None), k)"
  by (simp add: initEthereumAccountsManager_def privkey_account_def toy_keys_def toy_crypto_def
      PrivateKeyPersonalSignFn_def Let_def numeral_2_eq_2 io_simps)

lemma toy_eth_network:
  "\<exists>n w'. NewEthNetwork (ce_bindings toy_cmd) (ce_eth toy_cmd) (ce_gas_price toy_cmd) (ce_rpc_Dial toy_cmd)
     (ce_ParseDuration toy_cmd) a from signer \<lparr>ec_EthNodeRPC = ''n'', ec_GasPriceAdjustment = 1, ec_MaxGasPrice = ''5'',
       ec_PendingTxWaitDuration = ''20m'', ec_EthNodeAlchemyWS = []\<rparr> w = (Ok (n, False), w') \<and>
     ethPeggy (en_PeggyContract n) = ethPeggy sample_contract"
proof -
  have "\<exists>p. ParseMaxGasPrice exact_decimals ''5'' = Ok p"
  proof -
    have "TrimSpace ''5'' = ''5''" "ToLower ''5'' = ''5''" "\<not> has_suffix ''5'' ''gwei''"
      "dec_NewFromString exact_decimals ''5'' = Inr 5" by code_simp+
    then show ?thesis by (simp add: ParseMaxGasPrice_def)
  qed
  then obtain p where "ParseMaxGasPrice exact_decimals ''5'' = Ok p" ..
  then show ?thesis
    by (simp add: NewEthNetwork_def NewEthCommitter_def NewPeggyContract_def resyncNonces_def toy_cmd_def sample_env_def
        sample_client_def sample_bindings_def NewPeggy_def bindPeggy_def sample_contract_def io_simps)
qed

lemma toy_setup: "\<exists>s w' n. orchestrator_setup toy_cmd toy_config (sample_world 0) = (Ok s, w') \<and> EthereumAddr (cfg s) = 2 \<and>
    \<not> RelayerMode (cfg s) \<and> ethereum s = eth_of n \<and> ethPeggy (en_PeggyContract n) = ethPeggy sample_contract \<and>
    injective s = network_of sample_queries (sample_broadcaster\<lparr>ethSignFn := Some (sign_with toy_crypto 2)\<rparr>) sample_rpc"
proof -
  let ?net = "network_of sample_queries (sample_broadcaster\<lparr>ethSignFn := Some (sign_with toy_crypto 2)\<rparr>) sample_rpc"
  have ring: "NewKeyring (ce_sdk toy_cmd) (ce_keyring toy_cmd) (cosmosKeyringCfg toy_config) k =
      (Ok \<lparr>k_Keyring = [''a''], k_Addr = map of_char ''o''\<rparr>, k)" for k
    using toy_NewKeyring [of "cosmosKeyringCfg toy_config"]
    by (simp add: toy_cmd_def cosmosKeyringCfg_def toy_config_def)
  have params: "n_PeggyParams ?net w = (Ok \<lparr>pp_BridgeEthereumAddress = ''5'', pp_BridgeContractStartHeight = 3,
         pp_CosmosCoinErc20Contract = ''c''\<rparr>, w)" for w
    by (simp add: network_sel CosmosQuery.PeggyParams_def query_eq sample_queries_def io_simps)
  have reg: "\<exists>v. HasRegisteredOrchestrator ?net a w = (Ok (Some v), w)" for a w
    by (simp add: HasRegisteredOrchestrator_def network_of_def Let_def GetValidatorAddress_def query_eq sample_queries_def
        sample_broadcaster_def sample_sdk_def io_simps)
  obtain n w' where eth: "NewEthNetwork (ce_bindings toy_cmd) (ce_eth toy_cmd) (ce_gas_price toy_cmd) (ce_rpc_Dial toy_cmd)
     (ce_ParseDuration toy_cmd) 1 2 (Some (\<lambda>_ tx. Inr \<lparr>st_Tx = tx, st_Sig = []\<rparr>)) \<lparr>ec_EthNodeRPC = ''n'',
       ec_GasPriceAdjustment = 1, ec_MaxGasPrice = ''5'', ec_PendingTxWaitDuration = ''20m'', ec_EthNodeAlchemyWS = []\<rparr>
     (sample_world 0) = (Ok (n, False), w')" "ethPeggy (en_PeggyContract n) = ethPeggy sample_contract"
    using toy_eth_network by blast
  obtain v where v: "HasRegisteredOrchestrator ?net 2 w' = (Ok (Some v), w')" using reg by blast
  have keys: "ce_keys toy_cmd = toy_keys" "ke_geth toy_keys = unary_geth" "HexToAddress unary_geth ''5'' = 1"
    "ce_ParseDuration toy_cmd = (\<lambda>_. Inr 10)"
    by (simp_all add: toy_cmd_def toy_keys_def unary_geth_def)
  have conf: "pc_cosmosUseLedger toy_config = False" "pc_ethUseLedger toy_config = False" "pc_ethKeystoreDir toy_config = []"
    "pc_ethKeyFrom toy_config = []" "pc_ethPassphrase toy_config = []" "pc_ethPrivKey toy_config = ''ab''"
    "pc_cosmosChainID toy_config = ''injective-1''" "pc_cosmosGRPC toy_config = []" "pc_ethNodeRPC toy_config = ''n''"
    "pc_ethGasPriceAdjustment toy_config = 1" "pc_ethMaxGasPrice toy_config = ''5''"
    "pc_pendingTxWaitDuration toy_config = ''20m''" "pc_ethNodeAlchemyWS toy_config = []"
    by (simp_all add: toy_config_def)
  show ?thesis
    using eth v
    by (simp add: orchestrator_setup_def or_shutdown_def orShutdown_def errors_Wrap_def on_outside_def ring toy_account
        toy_network params keys conf offset_duration_def of_sum_def NewOrchestrator_def io_simps) blast
qed

theorem orchestrator_setup_keys_witness:
  "\<exists>s w' q b t. orchestrator_setup toy_cmd toy_config (sample_world 0) = (Ok s, w') \<and> broadcasts w' = [] \<and>
     injective s = network_of q b (t :: (nat, unit, unit) rpcClient) \<and> signs_for 2 (ethSignFn b)"
proof -
  obtain s w' where s: "orchestrator_setup toy_cmd toy_config (sample_world 0) = (Ok s, w')" "EthereumAddr (cfg s) = 2"
    using toy_setup by blast
  from orchestrator_setup_keys [OF s(1)] s(2) obtain q b and t :: "(nat, unit, unit) rpcClient" where
    "broadcasts w' = broadcasts (sample_world (0 :: nat))" "injective s = network_of q b t" "signs_for 2 (ethSignFn b)" by auto
  then show ?thesis using s(1) by (intro exI [of _ s] exI [of _ w'] exI [of _ q] exI [of _ b] exI [of _ t]) (simp add: sample_world_def)
qed

text \<open>An environment in which only the keys are configured.\<close>

definition env_cli :: "(string \<rightharpoonup> string) \<Rightarrow> cli_lib" where
  "env_cli env = \<lparr>opt_String = (\<lambda>_ v d. case env v of None \<Rightarrow> d | Some x \<Rightarrow> x), opt_Bool = (\<lambda>_ v d. d),
     opt_Int = (\<lambda>_ v d. d), opt_Float64 = (\<lambda>_ v d. d)\<rparr>"

theorem default_chain_id_never_starts_witness:
  "\<nexists>x. fst (orchestratorCmd toy_cmd (env_cli [''PEGGO_COSMOS_FROM'' \<mapsto> ''o'', ''PEGGO_ETH_PK'' \<mapsto> ''ab'']) (sample_world 0)) = Ok x"
proof -
  let ?C = "env_cli [''PEGGO_COSMOS_FROM'' \<mapsto> ''o'', ''PEGGO_ETH_PK'' \<mapsto> ''ab'']"
  have "opt_String ?C ''cosmos-chain-id'' ''PEGGO_COSMOS_CHAIN_ID'' ''888'' = ''888''"
    "opt_String ?C ''cosmos-grpc'' ''PEGGO_COSMOS_GRPC'' [] = []"
    by (simp_all add: env_cli_def)
  then show ?thesis using default_chain_id_never_starts [of ?C toy_cmd "sample_world 0"] by blast
qed

end
