(* ===== verification/Entry.thy ===== *)
theory Entry
  imports Cmd
begin

text \<open>
  \<open>cmd/peggo/main.go\<close>, \<open>metrics.go\<close> and the command of \<open>tx.go\<close>, with \<open>orchestrator/version\<close>: what happens between
  the start of the process and the action of a command. The command line library is an argument: which command the
  arguments select, and, in the environment at that time, what it makes of an option. The statsd client is an argument too.
\<close>

section \<open>Version\<close>

record version_vars =
  AppVersion :: string
  GitCommit :: string
  BuildDate :: string
  GoVersion :: string
  GoArch :: string

text \<open>\<open>init\<close> of the package; the first three variables are set by the linker.\<close>

definition version_init :: "string \<Rightarrow> string \<Rightarrow> version_vars \<Rightarrow> version_vars" where
  "version_init runtime_Version runtime_GOARCH v =
     (if length (AppVersion v) = 0 then v\<lparr>AppVersion := ''dev''\<rparr> else v)
       \<lparr>GoVersion := runtime_Version, GoArch := runtime_GOARCH\<rparr>"

definition Version :: "version_vars \<Rightarrow> string" where
  "Version v = ''Version '' @ AppVersion v @ '' ('' @ GitCommit v @ '')'' @ [char_of (10 :: nat)] @ ''Compiled at '' @
     BuildDate v @ '' using Go '' @ GoVersion v @ '' ('' @ GoArch v @ '')''"

section \<open>Metrics\<close>

record StatterConfig =
  stc_Agent :: string
  stc_EnvName :: string
  stc_HostName :: string
  stc_StuckFunctionTimeout :: int
  stc_MockingEnabled :: bool

record 'e metrics_lib =
  os_Hostname :: "'e \<Rightarrow> (goerr + string) \<times> 'e"
  metrics_Init :: "string \<Rightarrow> string \<Rightarrow> StatterConfig \<Rightarrow> 'e \<Rightarrow> goerr option \<times> 'e"
  metrics_Disable :: "'e \<Rightarrow> 'e"
  metrics_Close :: "'e \<Rightarrow> 'e"

definition statter_config :: "(string \<Rightarrow> goerr + int) \<Rightarrow> string \<Rightarrow> statsd_options \<Rightarrow> string \<Rightarrow> StatterConfig" where
  "statter_config ParseDuration envName o1 hostname = \<lparr>stc_Agent = sd_statsdAgent o1, stc_EnvName = envName,
     stc_HostName = hostname, stc_StuckFunctionTimeout = duration ParseDuration (sd_statsdStuckDur o1) 1800000000000,
     stc_MockingEnabled = toBool (sd_statsdMocking o1) \<or> envName = ''local''\<rparr>"

text \<open>One attempt; an error of \<open>os.Hostname\<close> leaves the name empty.\<close>

definition try_metrics ::
  "'e metrics_lib \<Rightarrow> (string \<Rightarrow> goerr + int) \<Rightarrow> string \<Rightarrow> statsd_options \<Rightarrow> 'e \<Rightarrow> goerr option \<times> 'e" where
  "try_metrics M ParseDuration envName o1 s = (case os_Hostname M s of (r, s1) \<Rightarrow>
     metrics_Init M (sd_statsdAddr o1) (checkStatsdPrefix (sd_statsdPrefix o1))
       (statter_config ParseDuration envName o1 (case r of Inl _ \<Rightarrow> [] | Inr h \<Rightarrow> h)) s1)"

text \<open>The goroutine: it tries again after a minute, without a bound, and ends in the function bound to the closer.\<close>

partial_function (option) metrics_loop ::
  "('e \<Rightarrow> goerr option \<times> 'e) \<Rightarrow> (int \<Rightarrow> 'e \<Rightarrow> 'e) \<Rightarrow> 'e \<Rightarrow> 'e option" where
  [code]: "metrics_loop attempt_Init sleep_for s = (case attempt_Init s of
     (Some err, s1) \<Rightarrow> metrics_loop attempt_Init sleep_for (sleep_for 60000000000 s1)
   | (None, s1) \<Rightarrow> Some s1)"

text \<open>Inl: the client is disabled, and the state after that. Inr: the goroutine that is started, with what it leaves to
  the closer.\<close>

definition initMetrics ::
  "'e metrics_lib \<Rightarrow> (string \<Rightarrow> goerr + int) \<Rightarrow> (int \<Rightarrow> 'e \<Rightarrow> 'e) \<Rightarrow> string \<Rightarrow> cli_lib \<Rightarrow> 'e \<Rightarrow>
     'e + ('e \<Rightarrow> 'e option) \<times> ('e \<Rightarrow> 'e)" where
  "initMetrics M ParseDuration sleep_for envName C s = (let o1 = initStatsdOptions C in
     if toBool (sd_statsdDisabled o1) then Inl (metrics_Disable M s)
     else Inr (metrics_loop (try_metrics M ParseDuration envName o1) sleep_for, metrics_Close M))"

section \<open>The commands\<close>

text \<open>The command \<open>register-eth-key\<close> of \<open>peggo tx\<close>: its options and its action.\<close>

definition registerEthKeyCmd :: "('e, 'pk, 'kr, 'ctx, 'tx, 'vals) cmd_env \<Rightarrow> cli_lib \<Rightarrow> ('e world, unit) io" where
  "registerEthKeyCmd E C =
     registerEthKey E (initCosmosOptions C) (initCosmosKeyOptions C) (initEthereumKeyOptions C) (initInteractiveOptions C)"

datatype command = orchestrator_command | query_command | register_eth_key_command | version_command

text \<open>The commands by the names they are registered with.\<close>

definition app_commands :: "(string list \<times> command) list" where
  "app_commands = [([''orchestrator''], orchestrator_command), ([''q query''], query_command),
     ([''tx'', ''register-eth-key''], register_eth_key_command), ([''version''], version_command)]"

record 'e cli_run =
  select_command :: "(string list \<times> command) list \<Rightarrow> string list \<Rightarrow> command option"
  cli_options :: "(string \<rightharpoonup> string) \<Rightarrow> string list \<Rightarrow> cli_lib"
  cli_metrics :: "'e metrics_lib"
  cli_version :: version_vars
  SetLevel :: "Level \<Rightarrow> 'e \<Rightarrow> 'e"

text \<open>
  What a command leaves running: the orchestrator with its loops, beside the goroutine of the metrics. A line printed is
  a value here. The query command has no actions.
\<close>

datatype 'e started =
    Orchestrating "'e + ('e \<Rightarrow> 'e option) \<times> ('e \<Rightarrow> 'e)" "'e Orchestrator \<times> loop set \<times> u64 \<times> hash"
  | Registered
  | Printed string
  | Nothing

text \<open>
  \<open>main\<close>: the file \<open>.env\<close> is read before the options are declared, so that their variables are taken from the
  environment it leaves. \<open>app.Before\<close> sets the level of the log. Arguments that select no command end with the usage.
\<close>

definition peggo_main ::
  "'e cli_run \<Rightarrow> ('e, 'pk, 'kr, 'ctx, 'tx, 'vals) cmd_env \<Rightarrow> string option \<Rightarrow> (string \<rightharpoonup> string) \<Rightarrow> string list \<Rightarrow>
     ('e world, 'e started) io" where
  "peggo_main R E envdata env args =
     (let C = cli_options R (readEnv envdata env) args;
          g = initGlobalOptions C
      in case select_command R app_commands args of
        None \<Rightarrow> ret Nothing
      | Some cmd \<Rightarrow> bindE (on_outside (\<lambda>s. (Ok (), SetLevel R (logLevel (g_appLogLevel g)) s))) (\<lambda>_.
          case cmd of
            orchestrator_command \<Rightarrow>
              bindE (on_outside (\<lambda>s. let m = initMetrics (cli_metrics R) (ce_ParseDuration E) (ce_Sleep E) (g_envName g) C s
                 in (Ok m, case m of Inl s' \<Rightarrow> s' | Inr _ \<Rightarrow> s))) (\<lambda>m.
              bindE (orchestratorCmd E C) (\<lambda>x. ret (Orchestrating m x)))
          | register_eth_key_command \<Rightarrow> bindE (registerEthKeyCmd E C) (\<lambda>_. ret Registered)
          | query_command \<Rightarrow> ret Nothing
          | version_command \<Rightarrow> ret (Printed (Version (cli_version R)))))"
section \<open>What is shown\<close>

text \<open>The state after \<open>k\<close> attempts that failed, each with its pause.\<close>

primrec failed_attempts :: "('e \<Rightarrow> goerr option \<times> 'e) \<Rightarrow> (int \<Rightarrow> 'e \<Rightarrow> 'e) \<Rightarrow> nat \<Rightarrow> 'e \<Rightarrow> 'e option" where
  "failed_attempts attempt_Init sleep_for 0 s = Some s"
| "failed_attempts attempt_Init sleep_for (Suc k) s = (case attempt_Init s of
     (Some err, s1) \<Rightarrow> failed_attempts attempt_Init sleep_for k (sleep_for 60000000000 s1)
   | (None, s1) \<Rightarrow> None)"

text \<open>The goroutine ends exactly if some attempt succeeds, in the state of the first one that does.\<close>

theorem metrics_loop_iff:
  "metrics_loop attempt_Init sleep_for s = Some s' \<longleftrightarrow>
     (\<exists>k s1. failed_attempts attempt_Init sleep_for k s = Some s1 \<and> attempt_Init s1 = (None, s'))"
proof
  assume "metrics_loop attempt_Init sleep_for s = Some s'"
  then show "\<exists>k s1. failed_attempts attempt_Init sleep_for k s = Some s1 \<and> attempt_Init s1 = (None, s')"
  proof (rule metrics_loop.raw_induct [of "\<lambda>f p s r. \<exists>k s1. failed_attempts f p k s = Some s1 \<and> f s1 = (None, r)", rotated])
    fix loop f p s r
    assume IH: "\<And>f p s r. loop f p s = Some r \<Longrightarrow> \<exists>k s1. failed_attempts f p k s = Some s1 \<and> f s1 = (None, r)"
      and step: "(case f s of (Some err, s1) \<Rightarrow> loop f p (p 60000000000 s1) | (None, s1) \<Rightarrow> Some s1) = Some r"
    obtain x s1 where x: "f s = (x, s1)" by (cases "f s")
    show "\<exists>k s1. failed_attempts f p k s = Some s1 \<and> f s1 = (None, r)"
    proof (cases x)
      case None
      with step x show ?thesis by (intro exI [of _ 0]) simp
    next
      case (Some err)
      with step x have "loop f p (p 60000000000 s1) = Some r" by simp
      from IH [OF this] obtain k s2 where "failed_attempts f p k (p 60000000000 s1) = Some s2" "f s2 = (None, r)" by blast
      with Some x show ?thesis by (intro exI [of _ "Suc k"]) simp
    qed
  qed
next
  assume "\<exists>k s1. failed_attempts attempt_Init sleep_for k s = Some s1 \<and> attempt_Init s1 = (None, s')"
  then obtain k s1 where "failed_attempts attempt_Init sleep_for k s = Some s1" "attempt_Init s1 = (None, s')" by blast
  then show "metrics_loop attempt_Init sleep_for s = Some s'"
  proof (induction k arbitrary: s)
    case 0
    then show ?case by (subst metrics_loop.simps) simp
  next
    case (Suc k)
    then show ?case by (subst metrics_loop.simps) (auto split: prod.splits option.splits)
  qed
qed

text \<open>When \<open>main\<close> has started an orchestrator, that is the one of the options in the environment left by the file
  \<open>.env\<close>, set up and run by \<open>orchestrator\<close>; nothing was sent before.\<close>

lemma peggo_main_orchestrates:
  assumes "peggo_main R E envdata env args w = (Ok (Orchestrating m x), w')"
  obtains w1 where "select_command R app_commands args = Some orchestrator_command"
    "orchestratorCmd E (cli_options R (readEnv envdata env) args) w1 = (Ok x, w')" "silently w w1"
proof -
  have out: "silently w (w\<lparr>outside := o'\<rparr>)" for w :: "'a world" and o'
    by (simp add: silently_def)
  show thesis
    using assms that [of "w\<lparr>outside := o'\<rparr>" for o'] out
    by (auto simp: peggo_main_def Let_def elim!: bindE_OkE split: option.splits command.splits)
qed
text \<open>So that a process started by \<open>main\<close> is one of those of \<open>orchestrator_runs\<close>, from a set-up with this configuration.\<close>

lemma peggo_main_runs:
  assumes "peggo_main R E envdata env args w = (Ok (Orchestrating m (s, loops, height, pid)), w')"
  obtains w0 w1 where "silently w w1"
    "orchestrator_setup E (initConfig (cli_options R (readEnv envdata env) args)) w1 = (Ok s, w0)"
    "orchestrator_runs s w0 \<lparr>rn_loops = loops, rn_errors = [],
       rn_oracle = \<lparr>lastResyncWithInjective = t, lastObservedEthHeight = height\<rparr>, rn_peggyID = pid, rn_world = w'\<rparr>"
proof -
  obtain w1 where w1: "orchestratorCmd E (cli_options R (readEnv envdata env) args) w1 = (Ok (s, loops, height, pid), w')"
    "silently w w1" by (rule peggo_main_orchestrates [OF assms])
  then obtain w0 where "orchestrator_setup E (initConfig (cli_options R (readEnv envdata env) args)) w1 = (Ok s, w0)"
    "Run s (injective s) (ethereum s) w0 = (Ok (loops, height, pid), w')"
    unfolding orchestratorCmd_def by (auto elim!: bindE_OkE attempt_OkE simp: fatal_simp split: sum.splits)
  then show thesis using w1(2) starts that by blast
qed

end
