(* ===== verification/Contract.thy ===== *)
theory Contract
  imports Prelude
begin

text \<open>
  \<open>orchestrator/ethereum/util/contract.go\<close>, a bound contract whose transactions can be sent through a function of
  the client's choice, and \<open>TransactFn\<close> of \<open>orchestrator/ethereum/provider/provider.go\<close>, such a function on top of
  the provider interface. The bindings of \<open>go-ethereum\<close> are arguments: \<open>'cl\<close> is the type of its client, \<open>'abi\<close>
  that of a parsed ABI, \<open>'bound\<close> that of its bound contract, \<open>'stx\<close> that of a signed transaction.
\<close>

section \<open>Transactions through the provider\<close>

text \<open>A transaction before it is signed; a contract creation has no recipient.\<close>

record raw_tx =
  rt_Nonce :: u64
  rt_To :: "address option"
  rt_Value :: int
  rt_GasLimit :: u64
  rt_GasPrice :: int
  rt_Data :: bytes

record 'stx TransactOpts =
  to_From :: address
  to_Nonce :: "int option"
  to_Signer :: "(address \<Rightarrow> raw_tx \<Rightarrow> goerr + 'stx) option"
  to_Value :: "int option"
  to_GasPrice :: "int option"
  to_GasLimit :: u64

record CallMsg =
  msg_From :: address
  msg_To :: "address option"
  msg_GasPrice :: int
  msg_Value :: int
  msg_Data :: bytes

text \<open>The methods of the interface \<open>EVMProviderWithRet\<close> that are called.\<close>

record ('e, 'stx) EVMProviderWithRet =
  p_PendingNonceAt :: "address \<Rightarrow> 'e \<Rightarrow> (goerr + u64) \<times> 'e"
  p_SuggestGasPrice :: "'e \<Rightarrow> (goerr + int) \<times> 'e"
  p_PendingCodeAt :: "address \<Rightarrow> 'e \<Rightarrow> (goerr + bytes) \<times> 'e"
  p_EstimateGas :: "CallMsg \<Rightarrow> 'e \<Rightarrow> (goerr + u64) \<times> 'e"
  p_SendTransactionWithRet :: "'stx \<Rightarrow> 'e \<Rightarrow> (goerr + hash) \<times> 'e"

definition ErrNoCode :: goerr where
  "ErrNoCode = ErrorNew ''no contract code at given address''"

text \<open>\<open>errors.Errorf\<close> with the text of an error.\<close>

definition explain :: "string \<Rightarrow> ('w, 'a) io \<Rightarrow> ('w, 'a) io" where
  "explain s m = (\<lambda>w. case m w of (Err e, w') \<Rightarrow> (Err (ErrorNew (s @ err_text e)), w') | r \<Rightarrow> r)"

definition tx_nonce :: "('e, 'stx) EVMProviderWithRet \<Rightarrow> 'stx TransactOpts \<Rightarrow> ('e, u64) io" where
  "tx_nonce p opts = (case to_Nonce opts of
      None \<Rightarrow> explain ''failed to retrieve account nonce: '' (ext_call (p_PendingNonceAt p (to_From opts)))
    | Some n \<Rightarrow> ret (big_Uint64 n))"

definition tx_gas_price :: "('e, 'stx) EVMProviderWithRet \<Rightarrow> 'stx TransactOpts \<Rightarrow> ('e, int) io" where
  "tx_gas_price p opts = (case to_GasPrice opts of
      None \<Rightarrow> explain ''failed to suggest gas price: '' (ext_call (p_SuggestGasPrice p))
    | Some g \<Rightarrow> ret g)"

text \<open>Gas is estimated only when no limit is set; a call needs code at the contract's address.\<close>

definition tx_gas_limit ::
  "('e, 'stx) EVMProviderWithRet \<Rightarrow> address \<Rightarrow> 'stx TransactOpts \<Rightarrow> address option \<Rightarrow> int \<Rightarrow> int \<Rightarrow> bytes \<Rightarrow> ('e, u64) io" where
  "tx_gas_limit p contractAddress opts contract gasPrice val input =
     (if to_GasLimit opts \<noteq> 0 then ret (to_GasLimit opts)
      else bindE (if contract \<noteq> None
                  then bindE (ext_call (p_PendingCodeAt p contractAddress)) (\<lambda>code. if code = [] then throw ErrNoCode else ret ())
                  else ret ()) (\<lambda>_.
           explain ''failed to estimate gas needed: '' (ext_call (p_EstimateGas p
             \<lparr>msg_From = to_From opts, msg_To = contract, msg_GasPrice = gasPrice, msg_Value = val, msg_Data = input\<rparr>))))"

text \<open>The result is the signed transaction, and the hash that is stored in \<open>txHashOut\<close>.\<close>

definition TransactFn ::
  "('e, 'stx) EVMProviderWithRet \<Rightarrow> address \<Rightarrow> 'stx TransactOpts \<Rightarrow> address option \<Rightarrow> bytes \<Rightarrow> ('e, 'stx \<times> hash) io" where
  "TransactFn p contractAddress opts contract input =
     (let val = (case to_Value opts of None \<Rightarrow> 0 | Some v \<Rightarrow> v) in
      bindE (tx_nonce p opts) (\<lambda>nonce.
      bindE (tx_gas_price p opts) (\<lambda>gasPrice.
      bindE (tx_gas_limit p contractAddress opts contract gasPrice val input) (\<lambda>gasLimit.
      let rawTx = \<lparr>rt_Nonce = nonce, rt_To = (if contract = None then None else Some contractAddress), rt_Value = val,
             rt_GasLimit = gasLimit, rt_GasPrice = gasPrice, rt_Data = input\<rparr>
      in (case to_Signer opts of
            None \<Rightarrow> throw (ErrorNew ''no signer to authorize the transaction with'')
          | Some signer \<Rightarrow> (case signer (to_From opts) rawTx of
                Inl e \<Rightarrow> throw e
              | Inr signedTx \<Rightarrow>
                  bindE (ext_call (p_SendTransactionWithRet p signedTx)) (\<lambda>txHash. ret (signedTx, txHash))))))))"

section \<open>Bound contracts\<close>

record Contract =
  ct_Name :: string
  ct_SourcePath :: string
  ct_CompilerVersion :: string
  ct_Address :: address
  ct_ABI :: bytes
  ct_Bin :: string

text \<open>The bindings: \<open>abi.JSON\<close>, \<open>bind.NewBoundContract\<close>, its methods, and \<open>abi.Pack\<close> on encoded parameters.\<close>

record ('e, 'cl, 'abi, 'bound, 'stx) bind_lib =
  abi_parse :: "bytes \<Rightarrow> goerr + 'abi"
  NewBound :: "address \<Rightarrow> 'abi \<Rightarrow> 'cl \<Rightarrow> 'bound"
  bound_Transact :: "'bound \<Rightarrow> 'stx TransactOpts \<Rightarrow> string \<Rightarrow> bytes \<Rightarrow> ('e, 'stx) io"
  bound_Transfer :: "'bound \<Rightarrow> 'stx TransactOpts \<Rightarrow> ('e, 'stx) io"
  abi_Pack :: "'abi \<Rightarrow> string \<Rightarrow> bytes \<Rightarrow> goerr + bytes"

type_synonym ('e, 'stx) TransactFunc = "'stx TransactOpts \<Rightarrow> address option \<Rightarrow> bytes \<Rightarrow> ('e, 'stx) io"

record ('e, 'cl, 'abi, 'bound, 'stx) BoundContract =
  bc_BoundContract :: 'bound
  bc_transactFn :: "('e, 'stx) TransactFunc option"
  bc_client :: 'cl
  bc_address :: address
  bc_src :: Contract
  bc_abi_of :: 'abi

definition BindContract ::
  "('e, 'cl, 'abi, 'bound, 'stx) bind_lib \<Rightarrow> 'cl \<Rightarrow> Contract option \<Rightarrow> goerr + ('e, 'cl, 'abi, 'bound, 'stx) BoundContract" where
  "BindContract B client contract = (case contract of
      None \<Rightarrow> Inl (ErrorNew ''contract must not be nil'')
    | Some c \<Rightarrow> (case abi_parse B (ct_ABI c) of
          Inl e \<Rightarrow> Inl (ErrorNew (''failed to parse contract ABI: '' @ err_text e))
        | Inr parsedABI \<Rightarrow> Inr \<lparr>bc_BoundContract = NewBound B (ct_Address c) parsedABI client, bc_transactFn = None,
            bc_client = client, bc_address = ct_Address c, bc_src = c, bc_abi_of = parsedABI\<rparr>))"

definition SetTransact ::
  "('e, 'stx) TransactFunc option \<Rightarrow> ('e, 'cl, 'abi, 'bound, 'stx) BoundContract \<Rightarrow> ('e, 'cl, 'abi, 'bound, 'stx) BoundContract" where
  "SetTransact fn c = c\<lparr>bc_transactFn := fn\<rparr>"

definition SetClient ::
  "('e, 'cl, 'abi, 'bound, 'stx) bind_lib \<Rightarrow> 'cl \<Rightarrow> ('e, 'cl, 'abi, 'bound, 'stx) BoundContract \<Rightarrow>
     ('e, 'cl, 'abi, 'bound, 'stx) BoundContract" where
  "SetClient B client c = c\<lparr>bc_client := client, bc_BoundContract := NewBound B (bc_address c) (bc_abi_of c) client\<rparr>"

definition SetAddress ::
  "('e, 'cl, 'abi, 'bound, 'stx) bind_lib \<Rightarrow> address \<Rightarrow> ('e, 'cl, 'abi, 'bound, 'stx) BoundContract \<Rightarrow>
     ('e, 'cl, 'abi, 'bound, 'stx) BoundContract" where
  "SetAddress B a c = c\<lparr>bc_address := a, bc_BoundContract := NewBound B a (bc_abi_of c) (bc_client c)\<rparr>"

definition DeployContract :: "'stx TransactOpts \<Rightarrow> bytes \<Rightarrow> ('e, address \<times> 'stx) io" where
  "DeployContract opts params = panic (PanicValue ''not implemented'')"

definition Transact ::
  "('e, 'cl, 'abi, 'bound, 'stx) bind_lib \<Rightarrow> ('e, 'cl, 'abi, 'bound, 'stx) BoundContract \<Rightarrow> 'stx TransactOpts \<Rightarrow> string \<Rightarrow>
     bytes \<Rightarrow> ('e, 'stx) io" where
  "Transact B c opts method params = (case bc_transactFn c of
      None \<Rightarrow> bound_Transact B (bc_BoundContract c) opts method params
    | Some fn \<Rightarrow> (case abi_Pack B (bc_abi_of c) method params of
          Inl e \<Rightarrow> throw e
        | Inr input \<Rightarrow> fn opts (Some (bc_address c)) input))"

definition Transfer ::
  "('e, 'cl, 'abi, 'bound, 'stx) bind_lib \<Rightarrow> ('e, 'cl, 'abi, 'bound, 'stx) BoundContract \<Rightarrow> 'stx TransactOpts \<Rightarrow> ('e, 'stx) io" where
  "Transfer B c opts = (case bc_transactFn c of
      None \<Rightarrow> bound_Transfer B (bc_BoundContract c) opts
    | Some fn \<Rightarrow> fn opts (Some (bc_address c)) [])"

text \<open>The function \<open>TransactFn\<close> returns, as a \<open>TransactFunc\<close>; the hash goes to the pointer.\<close>

definition transact_via :: "('e, 'stx) EVMProviderWithRet \<Rightarrow> address \<Rightarrow> ('e, 'stx) TransactFunc" where
  "transact_via p a = (\<lambda>opts contract input. bindE (TransactFn p a opts contract input) (\<lambda>(stx, _). ret stx))"

section \<open>Well-formedness\<close>

text \<open>The embedded contract of the bindings is always the one for the current address, ABI and client.\<close>

definition bound_wf ::
  "('e, 'cl, 'abi, 'bound, 'stx) bind_lib \<Rightarrow> ('e, 'cl, 'abi, 'bound, 'stx) BoundContract \<Rightarrow> bool" where
  "bound_wf B c \<longleftrightarrow> bc_BoundContract c = NewBound B (bc_address c) (bc_abi_of c) (bc_client c) \<and>
     abi_parse B (ct_ABI (bc_src c)) = Inr (bc_abi_of c)"

inductive bound_reachable ::
  "('e, 'cl, 'abi, 'bound, 'stx) bind_lib \<Rightarrow> ('e, 'cl, 'abi, 'bound, 'stx) BoundContract \<Rightarrow> bool" for B where
  bound: "BindContract B client contract = Inr c \<Longrightarrow> bound_reachable B c"
| set_transact: "bound_reachable B c \<Longrightarrow> bound_reachable B (SetTransact fn c)"
| set_client: "bound_reachable B c \<Longrightarrow> bound_reachable B (SetClient B client c)"
| set_address: "bound_reachable B c \<Longrightarrow> bound_reachable B (SetAddress B a c)"

text \<open>C39. A bound contract stays well-formed: however it is bound, and whatever is set afterwards in whatever order, the
  contract of the bindings that it embeds is the one for its current address, the ABI parsed from its source, and its
  current client; so that a transaction made without a function of its own reaches the current address.\<close>

theorem bound_contract_wf: "bound_reachable B c \<Longrightarrow> bound_wf B c \<and>
    (bc_transactFn c = None \<longrightarrow> Transact B c opts method params =
       bound_Transact B (NewBound B (bc_address c) (bc_abi_of c) (bc_client c)) opts method params)"
proof -
  assume "bound_reachable B c"
  then have "bound_wf B c"
    by induction (auto simp: bound_wf_def BindContract_def SetTransact_def SetClient_def SetAddress_def
        split: option.splits sum.splits)
  then show ?thesis by (simp add: bound_wf_def Transact_def)
qed

section \<open>What \<open>TransactFn\<close> sends\<close>

lemma explain_Ok_iff [simp]: "explain s m w = (Ok x, w') \<longleftrightarrow> m w = (Ok x, w')"
  by (auto simp: explain_def split: prod.splits res.splits)

lemma ext_call_Ok_iff [simp]: "ext_call f w = (Ok x, w') \<longleftrightarrow> f w = (Inr x, w')"
  by (auto simp: io_simps split: prod.splits sum.splits)

text \<open>
  The transaction that was signed and sent: its recipient is the contract's address (none for a creation), and the
  options decide its nonce, price, limit and value where they are set.
\<close>

definition transaction_of :: "address \<Rightarrow> 'stx TransactOpts \<Rightarrow> address option \<Rightarrow> bytes \<Rightarrow> raw_tx \<Rightarrow> bool" where
  "transaction_of a opts contract input tx \<longleftrightarrow> rt_To tx = map_option (\<lambda>_. a) contract \<and> rt_Data tx = input \<and>
     rt_Value tx = (case to_Value opts of None \<Rightarrow> 0 | Some v \<Rightarrow> v) \<and>
     (\<forall>n. to_Nonce opts = Some n \<longrightarrow> rt_Nonce tx = big_Uint64 n) \<and>
     (\<forall>g. to_GasPrice opts = Some g \<longrightarrow> rt_GasPrice tx = g) \<and>
     (to_GasLimit opts \<noteq> 0 \<longrightarrow> rt_GasLimit tx = to_GasLimit opts)"

lemma TransactFn_Ok:
  assumes "TransactFn p a opts contract input w = (Ok (stx, h), w')"
  shows "\<exists>signer tx w1. to_Signer opts = Some signer \<and> signer (to_From opts) tx = Inr stx \<and>
    p_SendTransactionWithRet p stx w1 = (Inr h, w') \<and> transaction_of a opts contract input tx"
  using assms unfolding TransactFn_def tx_nonce_def tx_gas_price_def tx_gas_limit_def Let_def transaction_of_def
  by (fastforce elim!: bindE_OkE split: option.splits sum.splits if_splits)
text \<open>A bound contract whose transactions go through \<open>TransactFn\<close> keeps sending to the address the function was made
  with: after \<open>SetAddress\<close>, a transaction of the contract is still addressed to the old one.\<close>

theorem moved_contract_keeps_recipient:
  assumes "bc_transactFn c = Some (transact_via p old)"
    and "Transact B (SetAddress B new c) opts method params w = (Ok stx, w')"
  shows "bc_address (SetAddress B new c) = new \<and>
    (\<exists>signer tx. to_Signer opts = Some signer \<and> signer (to_From opts) tx = Inr stx \<and> rt_To tx = Some old)"
proof -
  obtain input h where "TransactFn p old opts (Some new) input w = (Ok (stx, h), w')"
    using assms
    by (auto simp: Transact_def SetAddress_def transact_via_def split: sum.splits elim!: bindE_OkE)
  from TransactFn_Ok [OF this] show ?thesis by (auto simp: transaction_of_def SetAddress_def)
qed

section \<open>A concrete provider\<close>

definition plain_bindings :: "(nat, unit, unit, address, raw_tx) bind_lib" where
  "plain_bindings = \<lparr>abi_parse = (\<lambda>_. Inr ()), NewBound = (\<lambda>a _ _. a),
     bound_Transact = (\<lambda>_ _ _ _. throw (ErrorNew ''offline'')), bound_Transfer = (\<lambda>_ _. throw (ErrorNew ''offline'')),
     abi_Pack = (\<lambda>_ _ params. Inr params)\<rparr>"

definition counting_provider :: "(nat, raw_tx) EVMProviderWithRet" where
  "counting_provider = \<lparr>p_PendingNonceAt = (\<lambda>_ k. (Inr (of_nat k), k)), p_SuggestGasPrice = (\<lambda>k. (Inr 30, k)),
     p_PendingCodeAt = (\<lambda>_ k. (Inr [1], k)), p_EstimateGas = (\<lambda>_ k. (Inr 21000, k)),
     p_SendTransactionWithRet = (\<lambda>tx k. (Inr 9, Suc k))\<rparr>"

definition token_contract :: Contract where
  "token_contract = \<lparr>ct_Name = ''T'', ct_SourcePath = [], ct_CompilerVersion = [], ct_Address = 5, ct_ABI = [], ct_Bin = []\<rparr>"

definition bound_token :: "(nat, unit, unit, address, raw_tx) BoundContract" where
  "bound_token = \<lparr>bc_BoundContract = 5, bc_transactFn = None, bc_client = (), bc_address = 5, bc_src = token_contract,
     bc_abi_of = ()\<rparr>"

definition plain_opts :: "raw_tx TransactOpts" where
  "plain_opts = \<lparr>to_From = 1, to_Nonce = None, to_Signer = Some (\<lambda>_ tx. Inr tx), to_Value = None, to_GasPrice = None,
     to_GasLimit = 0\<rparr>"

lemma bound_token_bound: "BindContract plain_bindings () (Some token_contract) = Inr bound_token"
  by (simp add: BindContract_def plain_bindings_def token_contract_def bound_token_def)

theorem bound_contract_wf_witness:
  "bc_BoundContract (SetAddress plain_bindings 8 bound_token) = 8 \<and> bound_wf plain_bindings (SetAddress plain_bindings 8 bound_token)"
proof -
  have "bound_reachable plain_bindings (SetAddress plain_bindings 8 bound_token)"
    by (intro bound_reachable.intros(4) bound_reachable.intros(1) [OF bound_token_bound])
  from bound_contract_wf [OF this] show ?thesis by (simp add: SetAddress_def plain_bindings_def)
qed

definition sent_tx :: "address \<Rightarrow> raw_tx" where
  "sent_tx a = \<lparr>rt_Nonce = 3, rt_To = Some a, rt_Value = 0, rt_GasLimit = 21000, rt_GasPrice = 30, rt_Data = [7]\<rparr>"

lemma counting_TransactFn:
  "TransactFn counting_provider a plain_opts (Some b) [7] 3 = (Ok (sent_tx a, 9), 4)"
  by (simp add: TransactFn_def tx_nonce_def tx_gas_price_def tx_gas_limit_def explain_def plain_opts_def
      counting_provider_def sent_tx_def io_simps)

theorem moved_contract_keeps_recipient_witness:
  "\<exists>stx. Transact plain_bindings (SetAddress plain_bindings 8 (SetTransact (Some (transact_via counting_provider 5)) bound_token))
     plain_opts ''transfer'' [7] 3 = (Ok stx, 4) \<and> rt_To stx = Some 5"
proof -
  let ?c = "SetTransact (Some (transact_via counting_provider 5)) bound_token"
  have fn: "bc_transactFn ?c = Some (transact_via counting_provider 5)" by (simp add: SetTransact_def)
  have run: "Transact plain_bindings (SetAddress plain_bindings 8 ?c) plain_opts ''transfer'' [7] 3 = (Ok (sent_tx 5), 4)"
    by (simp add: Transact_def SetAddress_def SetTransact_def plain_bindings_def transact_via_def counting_TransactFn io_simps)
  from moved_contract_keeps_recipient [OF fn run] have "rt_To (sent_tx 5) = Some 5" by (auto simp: plain_opts_def)
  with run show ?thesis by blast
qed

end
