(* ===== verification/PeggyChain.thy ===== *)
theory PeggyChain
  imports PeggySol
begin

text \<open>
  The Peggy contract (\<open>solidity/contracts/Peggy.sol\<close>) as a state machine. The tokens it pays out are
  foreign contracts: while one runs, any account may call the contract again, code between two calls
  may be rolled back, and the token may revert. So each function is cut at its outgoing calls: it
  reverts, finishes with the events it emits, or calls out and leaves the continuation that runs when
  the callee returns. \<open>chain\<close> keeps the stack of unfinished frames, each with the state to restore
  when it reverts, and the trace of what the contract did. The theorems hold in every reachable
  state, whatever the tokens do.
\<close>

section \<open>Functions of the contract\<close>

record crypto =
  sol_keccak256 :: "bytes \<Rightarrow> hash"
  sol_abi_encode :: encoder
  sol_verifySig :: verifier

record msg_ctx =
  msg_sender :: address
  block_number :: int
  block_timestamp :: int

datatype sol_event =
    TransactionBatchExecutedEvent int address int
  | SendToInjectiveEvent address address hash int int string
  | ERC20DeployedEvent string address string string u8 int
  | ValsetUpdatedEvent int int int address "address list" "int list"
  | Paused address
  | Unpaused address
  | OwnershipTransferred address address

datatype outcall =
    Transfer address address int
  | Mint address address int
  | Burn address address int
  | TransferFrom address address int

datatype continuation =
    RewardSent ValsetArgs
  | AmountSent address BatchArgs nat int
  | FeeSent BatchArgs
  | Burned address address hash int string
  | Received address address hash string int

datatype outcome =
    Reverts
  | Finishes Peggy "sol_event list"
  | CallsOut Peggy outcall continuation

text \<open>\<open>state_lastEventNonce\<close> is incremented and the event emitted with the new value.\<close>

definition emit_event :: "Peggy \<Rightarrow> (int \<Rightarrow> sol_event) \<Rightarrow> outcome" where
  "emit_event st ev = (let n = state_lastEventNonce st + 1
     in if is_uint256 n then Finishes (st\<lparr>state_lastEventNonce := n\<rparr>) [ev n] else Reverts)"

text \<open>The end of the modifier \<open>nonReentrant\<close>.\<close>

fun leave :: "outcome \<Rightarrow> outcome" where
  "leave (Finishes st es) = Finishes (st\<lparr>peggy_entered := False\<rparr>) es"
| "leave out = out"

definition initialize ::
  "crypto \<Rightarrow> msg_ctx \<Rightarrow> hash \<Rightarrow> int \<Rightarrow> address list \<Rightarrow> int list \<Rightarrow> Peggy \<Rightarrow> outcome" where
  "initialize C ctx peggyId powerThreshold validators powers st =
     (if \<not> (peggy_initializing st \<or> \<not> peggy_initialized st) then Reverts
      else if \<not> validateValidatorSet validators powers powerThreshold then Reverts
      else if \<not> is_uint256 (state_lastEventNonce st + 1) then Reverts
      else let valset = \<lparr>va_Validators = validators, va_Powers = powers, va_ValsetNonce = 0,
             va_RewardAmount = Some 0, va_RewardToken = 0\<rparr>
        in Finishes (st\<lparr>peggy_initialized := (peggy_initialized st \<or> \<not> peggy_initializing st), peggy_owner := msg_sender ctx,
             peggy_deployTimestamp := block_timestamp ctx, state_peggyId := peggyId,
             state_powerThreshold := powerThreshold,
             state_lastValsetCheckpoint := makeCheckpoint (sol_keccak256 C) (sol_abi_encode C) valset peggyId,
             state_lastEventNonce := state_lastEventNonce st + 1\<rparr>)
           [OwnershipTransferred 0 (msg_sender ctx),
            ValsetUpdatedEvent (state_lastValsetNonce st) (state_lastEventNonce st + 1) 0 0 validators powers])"

definition valset_updated :: "ValsetArgs \<Rightarrow> Peggy \<Rightarrow> outcome" where
  "valset_updated new st = emit_event st (\<lambda>n. ValsetUpdatedEvent (va_ValsetNonce new) n
     (the (va_RewardAmount new)) (va_RewardToken new) (va_Validators new) (va_Powers new))"

definition updateValset ::
  "crypto \<Rightarrow> msg_ctx \<Rightarrow> ValsetArgs \<Rightarrow> ValsetArgs \<Rightarrow> u8 list \<Rightarrow> hash list \<Rightarrow> hash list \<Rightarrow> Peggy \<Rightarrow> outcome" where
  "updateValset C ctx new cur v r s st =
     (if peggy_paused st then Reverts
      else if \<not> updateValset_checks (sol_keccak256 C) (sol_abi_encode C) (sol_verifySig C) st new cur v r s
      then Reverts
      else let st1 = st\<lparr>state_lastValsetCheckpoint :=
                 makeCheckpoint (sol_keccak256 C) (sol_abi_encode C) new (state_peggyId st),
               state_lastValsetNonce := va_ValsetNonce new\<rparr>
        in if va_RewardToken new \<noteq> 0 \<and> va_RewardAmount new \<noteq> Some 0
           then CallsOut st1 (Transfer (va_RewardToken new) (msg_sender ctx) (the (va_RewardAmount new)))
                  (RewardSent new)
           else valset_updated new st1)"

definition batch_executed :: "BatchArgs \<Rightarrow> Peggy \<Rightarrow> outcome" where
  "batch_executed b st = leave (emit_event st
     (TransactionBatchExecutedEvent (ba_batchNonce b) (ba_tokenContract b)))"

text \<open>The loop over the transactions of a batch, from the \<open>i\<close>-th on, and the payment of the fee.\<close>

definition send_amounts :: "address \<Rightarrow> BatchArgs \<Rightarrow> nat \<Rightarrow> int \<Rightarrow> Peggy \<Rightarrow> outcome" where
  "send_amounts sender b i totalFee st =
     (if i < length (ba_amounts b) then
        CallsOut st ((if isInjectiveNativeToken st (ba_tokenContract b) then Mint else Transfer)
            (ba_tokenContract b) (ba_destinations b ! i) (ba_amounts b ! i)) (AmountSent sender b i totalFee)
      else if totalFee > 0 then
        CallsOut st (Transfer (ba_tokenContract b) sender totalFee) (FeeSent b)
      else batch_executed b st)"

definition submitBatch ::
  "crypto \<Rightarrow> msg_ctx \<Rightarrow> ValsetArgs \<Rightarrow> u8 list \<Rightarrow> hash list \<Rightarrow> hash list \<Rightarrow> BatchArgs \<Rightarrow> Peggy \<Rightarrow> outcome" where
  "submitBatch C ctx cur v r s b st =
     (if peggy_entered st then Reverts
      else if peggy_paused st then Reverts
      else if \<not> submitBatch_checks (sol_keccak256 C) (sol_abi_encode C) (sol_verifySig C) (block_number ctx)
             st cur v r s b then Reverts
      else send_amounts (msg_sender ctx) b 0 0 (st\<lparr>peggy_entered := True,
             state_lastBatchNonces := (state_lastBatchNonces st)(ba_tokenContract b := ba_batchNonce b)\<rparr>))"

definition deposited :: "address \<Rightarrow> address \<Rightarrow> hash \<Rightarrow> int \<Rightarrow> string \<Rightarrow> Peggy \<Rightarrow> outcome" where
  "deposited sender token destination transferAmount dat st = leave (emit_event st
     (\<lambda>n. SendToInjectiveEvent token sender destination transferAmount n dat))"

definition sendToInjective ::
  "msg_ctx \<Rightarrow> address \<Rightarrow> hash \<Rightarrow> int \<Rightarrow> string \<Rightarrow> int \<Rightarrow> Peggy \<Rightarrow> outcome" where
  "sendToInjective ctx token destination amount dat balanceBeforeTransfer st =
     (if peggy_paused st then Reverts
      else if peggy_entered st then Reverts
      else let st1 = st\<lparr>peggy_entered := True\<rparr>
        in if isInjectiveNativeToken st token
           then CallsOut st1 (Burn token (msg_sender ctx) amount) (Burned (msg_sender ctx) token destination amount dat)
           else CallsOut st1 (TransferFrom token (msg_sender ctx) amount)
                  (Received (msg_sender ctx) token destination dat balanceBeforeTransfer))"

definition deployERC20 :: "string \<Rightarrow> string \<Rightarrow> string \<Rightarrow> u8 \<Rightarrow> address \<Rightarrow> Peggy \<Rightarrow> outcome" where
  "deployERC20 cosmosDenom name symbol decimals erc20 st =
     emit_event (st\<lparr>isInjectiveNativeToken := (isInjectiveNativeToken st)(erc20 := True)\<rparr>)
       (ERC20DeployedEvent cosmosDenom erc20 name symbol decimals)"

definition emergencyPause :: "msg_ctx \<Rightarrow> Peggy \<Rightarrow> outcome" where
  "emergencyPause ctx st =
     (if peggy_owner st \<noteq> msg_sender ctx \<or> peggy_paused st then Reverts
      else Finishes (st\<lparr>peggy_paused := True\<rparr>) [Paused (msg_sender ctx)])"

definition emergencyUnpause :: "msg_ctx \<Rightarrow> Peggy \<Rightarrow> outcome" where
  "emergencyUnpause ctx st =
     (if peggy_owner st \<noteq> msg_sender ctx \<or> \<not> peggy_paused st then Reverts
      else Finishes (st\<lparr>peggy_paused := False\<rparr>) [Unpaused (msg_sender ctx)])"

definition renounce :: "Peggy \<Rightarrow> outcome" where
  "renounce st = Finishes (st\<lparr>peggy_owner := 0\<rparr>) [OwnershipTransferred (peggy_owner st) 0]"

definition renounceOwnership :: "msg_ctx \<Rightarrow> Peggy \<Rightarrow> outcome" where
  "renounceOwnership ctx st = (if peggy_owner st \<noteq> msg_sender ctx then Reverts else renounce st)"

definition isOwnershipExpired :: "msg_ctx \<Rightarrow> Peggy \<Rightarrow> bool" where
  "isOwnershipExpired ctx st \<longleftrightarrow> block_timestamp ctx > peggy_deployTimestamp st + 82 * 604800"

definition renounceOwnershipAfterExpiry :: "msg_ctx \<Rightarrow> Peggy \<Rightarrow> outcome" where
  "renounceOwnershipAfterExpiry ctx st =
     (if is_uint256 (peggy_deployTimestamp st + 82 * 604800) \<and> isOwnershipExpired ctx st then renounce st
      else Reverts)"

definition transferOwnership :: "msg_ctx \<Rightarrow> address \<Rightarrow> Peggy \<Rightarrow> outcome" where
  "transferOwnership ctx newOwner st =
     (if peggy_owner st \<noteq> msg_sender ctx \<or> newOwner = 0 then Reverts
      else Finishes (st\<lparr>peggy_owner := newOwner\<rparr>) [OwnershipTransferred (peggy_owner st) newOwner])"

text \<open>What runs when an outgoing call has returned; \<open>x\<close> is the balance read after it.\<close>

fun resume :: "continuation \<Rightarrow> int \<Rightarrow> Peggy \<Rightarrow> outcome" where
  "resume (RewardSent new) x st = valset_updated new st"
| "resume (AmountSent sender b i totalFee) x st =
     (if is_uint256 (totalFee + ba_fees b ! i) then send_amounts sender b (Suc i) (totalFee + ba_fees b ! i) st
      else Reverts)"
| "resume (FeeSent b) x st = batch_executed b st"
| "resume (Burned sender token destination amount dat) x st = deposited sender token destination amount dat st"
| "resume (Received sender token destination dat balanceBefore) x st =
     (if is_uint256 (x - balanceBefore) then deposited sender token destination (x - balanceBefore) dat st
      else Reverts)"

section \<open>Calls\<close>

text \<open>
  The external functions with their arguments. \<open>SendToInjective\<close> carries the token balance the
  contract reads first and \<open>DeployERC20\<close> the address the EVM gives the new token. The ABI decoder
  admits only arguments in the range of their types.
\<close>

datatype peggy_call =
    Initialize hash int "address list" "int list"
  | UpdateValset ValsetArgs ValsetArgs "u8 list" "hash list" "hash list"
  | SubmitBatch ValsetArgs "u8 list" "hash list" "hash list" BatchArgs
  | SendToInjective address hash int string int
  | DeployERC20 string string string u8 address
  | EmergencyPause
  | EmergencyUnpause
  | RenounceOwnership
  | RenounceOwnershipAfterExpiry
  | TransferOwnership address

definition valset_in_range :: "ValsetArgs \<Rightarrow> bool" where
  "valset_in_range a \<longleftrightarrow> list_all is_uint256 (va_Powers a) \<and> is_uint256 (va_ValsetNonce a) \<and>
     (case va_RewardAmount a of None \<Rightarrow> False | Some x \<Rightarrow> is_uint256 x)"

definition batch_in_range :: "BatchArgs \<Rightarrow> bool" where
  "batch_in_range b \<longleftrightarrow> list_all is_uint256 (ba_amounts b) \<and> list_all is_uint256 (ba_fees b) \<and>
     is_uint256 (ba_batchNonce b) \<and> is_uint256 (ba_batchTimeout b)"

fun args_in_range :: "peggy_call \<Rightarrow> bool" where
  "args_in_range (Initialize i thr vs ps) = (is_uint256 thr \<and> list_all is_uint256 ps)"
| "args_in_range (UpdateValset new cur v r s) = (valset_in_range new \<and> valset_in_range cur)"
| "args_in_range (SubmitBatch cur v r s b) = (valset_in_range cur \<and> batch_in_range b)"
| "args_in_range (SendToInjective t d amount dat bal) = (is_uint256 amount \<and> is_uint256 bal)"
| "args_in_range _ = True"

fun execute :: "crypto \<Rightarrow> msg_ctx \<Rightarrow> peggy_call \<Rightarrow> Peggy \<Rightarrow> outcome" where
  "execute C ctx (Initialize i thr vs ps) st = initialize C ctx i thr vs ps st"
| "execute C ctx (UpdateValset new cur v r s) st = updateValset C ctx new cur v r s st"
| "execute C ctx (SubmitBatch cur v r s b) st = submitBatch C ctx cur v r s b st"
| "execute C ctx (SendToInjective t d amount dat bal) st = sendToInjective ctx t d amount dat bal st"
| "execute C ctx (DeployERC20 denom name symbol decs erc20) st = deployERC20 denom name symbol decs erc20 st"
| "execute C ctx EmergencyPause st = emergencyPause ctx st"
| "execute C ctx EmergencyUnpause st = emergencyUnpause ctx st"
| "execute C ctx RenounceOwnership st = renounceOwnership ctx st"
| "execute C ctx RenounceOwnershipAfterExpiry st = renounceOwnershipAfterExpiry ctx st"
| "execute C ctx (TransferOwnership a) st = transferOwnership ctx a st"

section \<open>The chain around the contract\<close>

datatype action =
    Accepts msg_ctx peggy_call
  | Pays outcall
  | Emits int sol_event

record call_frame =
  fr_continuation :: "continuation option"
  fr_peggy :: Peggy
  fr_trace :: "action list"

record chain =
  ch_peggy :: Peggy
  ch_trace :: "action list"
  ch_stack :: "call_frame list"
  ch_block :: int
  ch_time :: int

datatype input =
    NewBlock int
  | Enter
  | Call address peggy_call
  | Return int
  | Fail

definition ctx_of :: "chain \<Rightarrow> address \<Rightarrow> msg_ctx" where
  "ctx_of m sender = \<lparr>msg_sender = sender, block_number = ch_block m, block_timestamp = ch_time m\<rparr>"

text \<open>
  The outcome of the code of a frame that started in \<open>st0\<close> with trace \<open>tr0\<close>; \<open>tr\<close> is the trace now
  and \<open>fs\<close> the frames below.
\<close>

fun settle :: "chain \<Rightarrow> Peggy \<Rightarrow> action list \<Rightarrow> call_frame list \<Rightarrow> action list \<Rightarrow> outcome \<Rightarrow> chain" where
  "settle m st0 tr0 fs tr Reverts = m\<lparr>ch_peggy := st0, ch_trace := tr0, ch_stack := fs\<rparr>"
| "settle m st0 tr0 fs tr (Finishes st es) =
     m\<lparr>ch_peggy := st, ch_trace := tr @ map (Emits (ch_block m)) es, ch_stack := fs\<rparr>"
| "settle m st0 tr0 fs tr (CallsOut st out k) =
     m\<lparr>ch_peggy := st, ch_trace := tr @ [Pays out],
       ch_stack := \<lparr>fr_continuation = Some k, fr_peggy = st0, fr_trace = tr0\<rparr> # fs\<rparr>"

text \<open>
  \<open>Enter\<close> is code of another contract starting, with a state to return to when it reverts. \<open>Call\<close>
  comes from a transaction or from such code, so also while a frame of the contract is open.
\<close>

fun step :: "crypto \<Rightarrow> chain \<Rightarrow> input \<Rightarrow> chain option" where
  "step C m (NewBlock t) = (if ch_stack m = [] \<and> t > ch_time m \<and> is_uint256 t
     then Some (m\<lparr>ch_block := ch_block m + 1, ch_time := t\<rparr>) else None)"
| "step C m Enter = Some (m\<lparr>ch_stack :=
     \<lparr>fr_continuation = None, fr_peggy = ch_peggy m, fr_trace = ch_trace m\<rparr> # ch_stack m\<rparr>)"
| "step C m (Call sender c) = (if args_in_range c
     then Some (settle m (ch_peggy m) (ch_trace m) (ch_stack m) (ch_trace m @ [Accepts (ctx_of m sender) c])
       (execute C (ctx_of m sender) c (ch_peggy m)))
     else None)"
| "step C m (Return x) = (case ch_stack m of [] \<Rightarrow> None
     | f # fs \<Rightarrow> (case fr_continuation f of
         None \<Rightarrow> Some (m\<lparr>ch_stack := fs\<rparr>)
       | Some k \<Rightarrow> if is_uint256 x
           then Some (settle m (fr_peggy f) (fr_trace f) fs (ch_trace m) (resume k x (ch_peggy m)))
           else None))"
| "step C m Fail = (case ch_stack m of [] \<Rightarrow> None
     | f # fs \<Rightarrow> Some (m\<lparr>ch_peggy := fr_peggy f, ch_trace := fr_trace f, ch_stack := fs\<rparr>))"

record genesis =
  g_peggyId :: hash
  g_powerThreshold :: int
  g_validators :: "address list"
  g_powers :: "int list"
  g_deployer :: address
  g_block :: int
  g_time :: int

definition blank :: Peggy where
  "blank = \<lparr>state_lastValsetCheckpoint = 0, state_lastBatchNonces = (\<lambda>_. 0),
     state_invalidationMapping = (\<lambda>_. 0), state_lastValsetNonce = 0, state_lastEventNonce = 0,
     state_peggyId = 0, state_powerThreshold = 0, isInjectiveNativeToken = (\<lambda>_. False),
     peggy_initialized = False, peggy_initializing = False, peggy_owner = 0, peggy_deployTimestamp = 0,
     peggy_paused = False, peggy_entered = False\<rparr>"

text \<open>The proxy is deployed and calls \<open>initialize\<close> in one transaction.\<close>

definition deploy :: "crypto \<Rightarrow> genesis \<Rightarrow> chain option" where
  "deploy C g =
     (let c = Initialize (g_peggyId g) (g_powerThreshold g) (g_validators g) (g_powers g);
          m = \<lparr>ch_peggy = blank, ch_trace = [], ch_stack = [], ch_block = g_block g, ch_time = g_time g\<rparr>
      in (case execute C (ctx_of m (g_deployer g)) c blank of
            Reverts \<Rightarrow> None
          | out \<Rightarrow> if args_in_range c then Some (settle m blank [] [] [Accepts (ctx_of m (g_deployer g)) c] out) else None))"

inductive reachable :: "crypto \<Rightarrow> genesis \<Rightarrow> chain \<Rightarrow> bool" for C :: crypto and g :: genesis where
  deployed: "deploy C g = Some m \<Longrightarrow> reachable C g m"
| stepped: "reachable C g m \<Longrightarrow> step C m i = Some m' \<Longrightarrow> reachable C g m'"

fun run :: "crypto \<Rightarrow> chain \<Rightarrow> input list \<Rightarrow> chain option" where
  "run C m [] = Some m"
| "run C m (i # is) = (case step C m i of None \<Rightarrow> None | Some m' \<Rightarrow> run C m' is)"

lemma run_reachable: "reachable C g m \<Longrightarrow> run C m is = Some m' \<Longrightarrow> reachable C g m'"
  by (induction "is" arbitrary: m) (auto split: option.splits intro: stepped)

section \<open>Invariants\<close>

text \<open>
  An invariant relates the block number, the state, the trace and the open continuations. It holds in
  every reachable state when deployment establishes it and the outcome of every call and of every
  continuation keeps it: reverting restores a state in which it held, code of other contracts does
  not touch what it speaks of.
\<close>

type_synonym peggy_pred = "int \<Rightarrow> Peggy \<Rightarrow> action list \<Rightarrow> continuation list \<Rightarrow> bool"

fun outcome_ok :: "peggy_pred \<Rightarrow> int \<Rightarrow> action list \<Rightarrow> continuation list \<Rightarrow> outcome \<Rightarrow> bool" where
  "outcome_ok P b tr ks Reverts = True"
| "outcome_ok P b tr ks (Finishes st es) = P b st (tr @ map (Emits b) es) ks"
| "outcome_ok P b tr ks (CallsOut st out k) = P b st (tr @ [Pays out]) (k # ks)"

definition continuations :: "call_frame list \<Rightarrow> continuation list" where
  "continuations fs = List.map_filter fr_continuation fs"

lemma continuations_simps [simp]:
  "continuations [] = []"
  "continuations (f # fs) = (case fr_continuation f of None \<Rightarrow> [] | Some k \<Rightarrow> [k]) @ continuations fs"
  by (simp_all add: continuations_def List.map_filter_simps split: option.splits)

fun frames_ok :: "peggy_pred \<Rightarrow> int \<Rightarrow> Peggy \<Rightarrow> action list \<Rightarrow> call_frame list \<Rightarrow> bool" where
  "frames_ok P b st tr [] = P b st tr []"
| "frames_ok P b st tr (f # fs) =
     (P b st tr (continuations (f # fs)) \<and> frames_ok P b (fr_peggy f) (fr_trace f) fs)"

lemma frames_okD: "frames_ok P b st tr fs \<Longrightarrow> P b st tr (continuations fs)"
  by (cases fs) simp_all

lemma frames_ok_replace: "frames_ok P b st tr fs \<Longrightarrow> P b st' tr' (continuations fs) \<Longrightarrow> frames_ok P b st' tr' fs"
  by (cases fs) simp_all

lemma settle_ok:
  assumes "frames_ok P (ch_block m) st0 tr0 fs" "outcome_ok P (ch_block m) tr (continuations fs) out"
    and "m' = settle m st0 tr0 fs tr out"
  shows "frames_ok P (ch_block m') (ch_peggy m') (ch_trace m') (ch_stack m')"
  using assms frames_ok_replace [OF assms(1)] by (cases out) auto

locale peggy_invariant =
  fixes C :: crypto and g :: genesis and P :: peggy_pred
  assumes initially: "deploy C g = Some m \<Longrightarrow> P (ch_block m) (ch_peggy m) (ch_trace m) []"
    and block: "P b st tr [] \<Longrightarrow> P (b + 1) st tr []"
    and calls: "P b st tr ks \<Longrightarrow> args_in_range c \<Longrightarrow> block_number ctx = b \<Longrightarrow>
      outcome_ok P b (tr @ [Accepts ctx c]) ks (execute C ctx c st)"
    and resumes: "P b st tr (k # ks) \<Longrightarrow> is_uint256 x \<Longrightarrow> outcome_ok P b tr ks (resume k x st)"
begin

lemma step_frames_ok:
  assumes "frames_ok P (ch_block m) (ch_peggy m) (ch_trace m) (ch_stack m)" "step C m i = Some m'"
  shows "frames_ok P (ch_block m') (ch_peggy m') (ch_trace m') (ch_stack m')"
proof (cases i)
  case (NewBlock t)
  then show ?thesis using assms by (auto simp: block split: if_splits)
next
  case Enter
  then show ?thesis using assms frames_okD [OF assms(1)] by auto
next
  case (Call sender c)
  have "args_in_range c" and m': "m' = settle m (ch_peggy m) (ch_trace m) (ch_stack m)
      (ch_trace m @ [Accepts (ctx_of m sender) c]) (execute C (ctx_of m sender) c (ch_peggy m))"
    using assms(2) Call by (auto split: if_splits)
  then show ?thesis
    by (intro settle_ok [OF assms(1) _ m'] calls frames_okD [OF assms(1)]) (simp_all add: ctx_of_def)
next
  case (Return x)
  then obtain f fs where fs: "ch_stack m = f # fs" using assms(2) by (auto split: list.splits)
  show ?thesis
  proof (cases "fr_continuation f")
    case None
    then have "m' = m\<lparr>ch_stack := fs\<rparr>" using assms(2) Return fs by simp
    moreover have "frames_ok P (ch_block m) (ch_peggy m) (ch_trace m) fs"
      using assms(1) None by (auto simp: fs intro: frames_ok_replace)
    ultimately show ?thesis by simp
  next
    case (Some k)
    have P: "P (ch_block m) (ch_peggy m) (ch_trace m) (k # continuations fs)"
      and rest: "frames_ok P (ch_block m) (fr_peggy f) (fr_trace f) fs"
      using assms(1) Some by (simp_all add: fs)
    have "is_uint256 x" and m': "m' = settle m (fr_peggy f) (fr_trace f) fs (ch_trace m) (resume k x (ch_peggy m))"
      using assms(2) Return fs Some by (auto split: if_splits)
    then show ?thesis by (intro settle_ok [OF rest _ m'] resumes [OF P])
  qed
next
  case Fail
  then show ?thesis using assms by (auto split: list.splits)
qed

lemma reachable_frames_ok:
  "reachable C g m \<Longrightarrow> frames_ok P (ch_block m) (ch_peggy m) (ch_trace m) (ch_stack m)"
proof (induction rule: reachable.induct)
  case (deployed m)
  then have "ch_stack m = []"
    by (auto simp: deploy_def initialize_def Let_def split: outcome.splits if_splits)
  with initially [OF deployed] show ?case by simp
next
  case (stepped m i m')
  then show ?case by (blast intro: step_frames_ok)
qed

lemma reachable_invariant:
  "reachable C g m \<Longrightarrow> P (ch_block m) (ch_peggy m) (ch_trace m) (continuations (ch_stack m))"
  by (rule frames_okD [OF reachable_frames_ok])

end

end
