(* ===== verification/PeggySafety.thy ===== *)
theory PeggySafety
  imports PeggyChain "HOL-Library.Multiset"
begin

text \<open>
  What holds in every reachable state of the Peggy contract (\<open>PeggyChain\<close>), each fact an interpretation of
  \<open>peggy_invariant\<close>: its events are numbered without gaps, its validator sets descend from the first one by
  quorum signatures, a batch is executed at most once and in the order of the nonces, and it pays exactly
  what the calls it accepted order.
\<close>

section \<open>The event log\<close>

fun event_of :: "action \<Rightarrow> (int \<times> sol_event) option" where
  "event_of (Emits b e) = Some (b, e)"
| "event_of _ = None"

definition event_log :: "action list \<Rightarrow> (int \<times> sol_event) list" where
  "event_log tr = List.map_filter event_of tr"

fun event_nonce :: "sol_event \<Rightarrow> int option" where
  "event_nonce (TransactionBatchExecutedEvent _ _ n) = Some n"
| "event_nonce (SendToInjectiveEvent _ _ _ _ n _) = Some n"
| "event_nonce (ERC20DeployedEvent _ _ _ _ _ n) = Some n"
| "event_nonce (ValsetUpdatedEvent _ n _ _ _ _) = Some n"
| "event_nonce _ = None"

definition event_nonces :: "sol_event list \<Rightarrow> int list" where
  "event_nonces es = List.map_filter event_nonce es"

lemma map_filter_append: "List.map_filter f (xs @ ys) = List.map_filter f xs @ List.map_filter f ys"
  by (simp add: List.map_filter_def)

lemma event_log_simps [simp]:
  "event_log [] = []" "event_log (tr @ tr') = event_log tr @ event_log tr'"
  "event_log (Accepts ctx c # tr) = event_log tr" "event_log (Pays out # tr) = event_log tr"
  "event_log (map (Emits b) es) = map (Pair b) es"
  by (simp_all add: event_log_def map_filter_append List.map_filter_simps)
    (simp add: List.map_filter_def comp_def)

lemma event_nonces_simps [simp]:
  "event_nonces [] = []" "event_nonces (es @ es') = event_nonces es @ event_nonces es'"
  "event_nonces (e # es) = (case event_nonce e of None \<Rightarrow> [] | Some n \<Rightarrow> [n]) @ event_nonces es"
  by (simp_all add: event_nonces_def map_filter_append List.map_filter_simps split: option.splits)

lemmas function_defs = initialize_def updateValset_def valset_updated_def submitBatch_def send_amounts_def
  batch_executed_def sendToInjective_def deposited_def deployERC20_def emergencyPause_def
  emergencyUnpause_def renounce_def renounceOwnership_def renounceOwnershipAfterExpiry_def
  transferOwnership_def emit_event_def Let_def

text \<open>The events of a run to the end are numbered on from the stored nonce; before, it does not change.\<close>

fun numbered :: "Peggy \<Rightarrow> outcome \<Rightarrow> bool" where
  "numbered st Reverts = True"
| "numbered st (Finishes st' es) = (state_lastEventNonce st \<le> state_lastEventNonce st' \<and>
     event_nonces es = [state_lastEventNonce st + 1 .. state_lastEventNonce st'])"
| "numbered st (CallsOut st' out k) = (state_lastEventNonce st' = state_lastEventNonce st)"

lemma execute_numbered: "numbered st (execute C ctx c st)"
  by (cases c) (simp_all add: function_defs)

lemma resume_numbered: "numbered st (resume k x st)"
  by (cases k) (simp_all add: function_defs)

definition log_inv :: "genesis \<Rightarrow> peggy_pred" where
  "log_inv g b st tr ks \<longleftrightarrow> g_block g \<le> b \<and> 0 \<le> state_lastEventNonce st \<and>
     event_nonces (map snd (event_log tr)) = [1 .. state_lastEventNonce st] \<and>
     sorted (map fst (event_log tr)) \<and> (\<forall>x \<in> set (event_log tr). g_block g \<le> fst x \<and> fst x \<le> b)"

lemma upto_append:
  fixes i j k :: int
  assumes "i \<le> j + 1" "j \<le> k"
  shows "[i .. j] @ [j + 1 .. k] = [i .. k]"
proof (cases "i \<le> j")
  case True
  then show ?thesis using assms(2) by (rule upto_split2 [symmetric])
next
  case False
  then have "i = j + 1" using assms(1) by simp
  then show ?thesis by simp
qed

lemma sorted_const: "sorted (map (\<lambda>x. b) xs)"
  by (induction xs) auto

lemma log_inv_outcome:
  assumes "log_inv g b st tr ks" "event_log tr' = event_log tr" "numbered st out"
  shows "outcome_ok (log_inv g) b tr' ks' out"
proof (cases out)
  case (Finishes st' es)
  have "event_nonces (map snd (event_log tr)) @ event_nonces es = [1 .. state_lastEventNonce st']"
    using assms(1,3) by (simp add: log_inv_def Finishes upto_append)
  moreover have "sorted (map fst (event_log tr @ map (Pair b) es))"
    using assms(1) by (auto simp: log_inv_def sorted_append comp_def sorted_const)
  ultimately show ?thesis using assms by (auto simp: log_inv_def Finishes comp_def)
qed (use assms in \<open>auto simp: log_inv_def\<close>)

lemma deploy_Some:
  assumes "deploy C g = Some m"
  obtains st es c where "execute C (ctx_of \<lparr>ch_peggy = blank, ch_trace = [], ch_stack = [], ch_block = g_block g,
      ch_time = g_time g\<rparr> (g_deployer g)) c blank = Finishes st es"
    "c = Initialize (g_peggyId g) (g_powerThreshold g) (g_validators g) (g_powers g)" "args_in_range c"
    "m = \<lparr>ch_peggy = st, ch_trace = Accepts (ctx_of m (g_deployer g)) c # map (Emits (g_block g)) es,
       ch_stack = [], ch_block = g_block g, ch_time = g_time g\<rparr>"
  using assms
  by (auto simp: deploy_def initialize_def Let_def ctx_of_def split: outcome.splits if_splits)

interpretation log: peggy_invariant C g "log_inv g" for C g
proof
  show "log_inv g (ch_block m) (ch_peggy m) (ch_trace m) []" if "deploy C g = Some m" for m
  proof (rule deploy_Some [OF that])
    fix st es c
    assume e: "execute C (ctx_of \<lparr>ch_peggy = blank, ch_trace = [], ch_stack = [], ch_block = g_block g,
        ch_time = g_time g\<rparr> (g_deployer g)) c blank = Finishes st es"
      and m: "m = \<lparr>ch_peggy = st, ch_trace = Accepts (ctx_of m (g_deployer g)) c # map (Emits (g_block g)) es,
       ch_stack = [], ch_block = g_block g, ch_time = g_time g\<rparr>"
    have "numbered blank (Finishes st es)" using execute_numbered [of blank] e by metis
    then have "outcome_ok (log_inv g) (g_block g) [Accepts (ctx_of m (g_deployer g)) c] [] (Finishes st es)"
      by (intro log_inv_outcome [where tr = "[]" and ks = "[]" and st = blank])
        (simp_all add: log_inv_def blank_def)
    then show ?thesis by (subst (1 2 3) m) simp
  qed
next
  show "log_inv g (b + 1) st tr []" if "log_inv g b st tr []" for b st tr
    using that by (force simp: log_inv_def)
next
  show "outcome_ok (log_inv g) b (tr @ [Accepts ctx c]) ks (execute C ctx c st)" if "log_inv g b st tr ks" for b st tr ks c ctx
    by (rule log_inv_outcome [OF that]) (simp_all add: execute_numbered)
next
  show "outcome_ok (log_inv g) b tr ks (resume k x st)" if "log_inv g b st tr (k # ks)" for b st tr k ks x
    by (rule log_inv_outcome [OF that]) (simp_all add: resume_numbered)
qed

text \<open>C8. However calls of the contract and of the tokens nest, return and revert, the bridge events in
  the contract's log are numbered 1, 2, 3, ... in the order of the log, up to \<open>state_lastEventNonce\<close>, and
  the blocks they are in never decrease.\<close>

theorem peggy_events_contiguous:
  assumes "reachable C g m"
  shows "event_nonces (map snd (event_log (ch_trace m))) = [1 .. state_lastEventNonce (ch_peggy m)] \<and>
    sorted (map fst (event_log (ch_trace m)))"
  using log.reachable_invariant [OF assms] by (simp add: log_inv_def)

section \<open>Chain of trust\<close>

text \<open>
  The abstract meaning of the contract's signature check: some members whose signatures verify have
  together more than the threshold of power. The loop of the contract stops early, in the order of the
  members.
\<close>

definition quorum ::
  "crypto \<Rightarrow> ValsetArgs \<Rightarrow> u8 list \<Rightarrow> hash list \<Rightarrow> hash list \<Rightarrow> int \<Rightarrow> hash \<Rightarrow> bool" where
  "quorum C cur v r s thr h \<longleftrightarrow> (\<exists>S \<subseteq> {..<length (va_Validators cur)}.
     (\<forall>i \<in> S. sol_verifySig C (va_Validators cur ! i) h (v ! i) (r ! i) (s ! i)) \<and>
     thr < (\<Sum>i \<in> S. va_Powers cur ! i))"

lemma checkValidatorSignatures_signers:
  "checkValidatorSignatures verifySig h thr l cum \<Longrightarrow>
     \<exists>S \<subseteq> {..<length l}. (\<forall>i \<in> S. case l ! i of (a, p, v, r, s) \<Rightarrow> verifySig a h v r s) \<and>
       thr < cum + (\<Sum>i \<in> S. fst (snd (l ! i)))"
proof (induction l arbitrary: cum)
  case Nil
  then show ?case by simp
next
  case (Cons x l)
  obtain a p v r s where x: "x = (a, p, v, r, s)" by (cases x)
  have shift: "(\<Sum>i \<in> Suc ` S. fst (snd ((x # l) ! i))) = (\<Sum>i \<in> S. fst (snd (l ! i)))" for S
    by (subst sum.reindex) auto
  show ?case
  proof (cases "v = 0")
    case True
    then obtain S where S: "S \<subseteq> {..<length l}" "\<forall>i \<in> S. case l ! i of (a, p, v, r, s) \<Rightarrow> verifySig a h v r s"
        "thr < cum + (\<Sum>i \<in> S. fst (snd (l ! i)))"
      using Cons.IH [of cum] Cons.prems by (auto simp: x)
    then show ?thesis
      by (intro exI [of _ "Suc ` S"] conjI) (auto simp: shift simp del: sum.reindex)
  next
    case False
    then have sig: "verifySig a h v r s" using Cons.prems by (simp add: x)
    have "\<exists>S \<subseteq> {..<length l}. (\<forall>i \<in> S. case l ! i of (a, p, v, r, s) \<Rightarrow> verifySig a h v r s) \<and>
        thr < cum + p + (\<Sum>i \<in> S. fst (snd (l ! i)))"
    proof (cases "cum + p > thr")
      case True
      then show ?thesis by (intro exI [of _ "{}"]) simp
    next
      case small: False
      then show ?thesis using Cons.IH [of "cum + p"] Cons.prems False by (auto simp: x)
    qed
    then obtain S where S: "S \<subseteq> {..<length l}" "\<forall>i \<in> S. case l ! i of (a, p, v, r, s) \<Rightarrow> verifySig a h v r s"
        "thr < cum + p + (\<Sum>i \<in> S. fst (snd (l ! i)))" by blast
    have "finite (Suc ` S)" using S(1) finite_subset by blast
    then have "(\<Sum>i \<in> insert 0 (Suc ` S). fst (snd ((x # l) ! i))) = p + (\<Sum>i \<in> S. fst (snd (l ! i)))"
      by (subst sum.insert) (auto simp: shift [unfolded x] x simp del: nth_Cons_Suc)
    with S sig show ?thesis
      by (intro exI [of _ "insert 0 (Suc ` S)"] conjI) (auto simp: x)
  qed
qed

lemma checkValidatorSignatures_quorum:
  assumes "checkValidatorSignatures (sol_verifySig C) h thr (zip5 cur v r s) 0"
    and "length (va_Validators cur) = length (va_Powers cur)" "length (va_Validators cur) = length v"
      "length (va_Validators cur) = length r" "length (va_Validators cur) = length s"
  shows "quorum C cur v r s thr h"
proof -
  obtain S where S: "S \<subseteq> {..<length (zip5 cur v r s)}"
    "\<forall>i \<in> S. case zip5 cur v r s ! i of (a, p, v, r, s) \<Rightarrow> sol_verifySig C a h v r s"
    "thr < 0 + (\<Sum>i \<in> S. fst (snd (zip5 cur v r s ! i)))"
    using checkValidatorSignatures_signers [OF assms(1)] by blast
  have len: "length (zip5 cur v r s) = length (va_Validators cur)"
    using assms(2-5) by (simp add: zip5_def)
  have nth: "zip5 cur v r s ! i = (va_Validators cur ! i, va_Powers cur ! i, v ! i, r ! i, s ! i)" if "i \<in> S" for i
    using that S(1) assms(2-5) by (auto simp: zip5_def)
  then have "(\<Sum>i \<in> S. fst (snd (zip5 cur v r s ! i))) = (\<Sum>i \<in> S. va_Powers cur ! i)"
    by (intro sum.cong) auto
  with S nth show ?thesis
    unfolding quorum_def len by (intro exI [of _ S]) auto
qed

definition checkpoint :: "crypto \<Rightarrow> genesis \<Rightarrow> ValsetArgs \<Rightarrow> hash" where
  "checkpoint C g a = makeCheckpoint (sol_keccak256 C) (sol_abi_encode C) a (g_peggyId g)"

definition genesis_valset :: "genesis \<Rightarrow> ValsetArgs" where
  "genesis_valset g = \<lparr>va_Validators = g_validators g, va_Powers = g_powers g, va_ValsetNonce = 0,
     va_RewardAmount = Some 0, va_RewardToken = 0\<rparr>"

text \<open>
  The validator sets that descend from the one of the deployment: each was signed by a quorum of one
  that the contract cannot tell from a set in the chain.
\<close>

inductive trusted :: "crypto \<Rightarrow> genesis \<Rightarrow> ValsetArgs \<Rightarrow> bool" for C :: crypto and g :: genesis where
  genesis_trusted: "trusted C g (genesis_valset g)"
| approved: "trusted C g old \<Longrightarrow> checkpoint C g old = checkpoint C g cur \<Longrightarrow>
    quorum C cur v r s (g_powerThreshold g) (checkpoint C g new) \<Longrightarrow> trusted C g new"

definition batch_approved ::
  "crypto \<Rightarrow> genesis \<Rightarrow> ValsetArgs \<Rightarrow> u8 list \<Rightarrow> hash list \<Rightarrow> hash list \<Rightarrow> BatchArgs \<Rightarrow> bool" where
  "batch_approved C g cur v r s b \<longleftrightarrow> (\<exists>old. trusted C g old \<and> checkpoint C g old = checkpoint C g cur) \<and>
     quorum C cur v r s (g_powerThreshold g)
       (batchHash (sol_keccak256 C) (sol_abi_encode C) b (g_peggyId g))"

fun action_approved :: "crypto \<Rightarrow> genesis \<Rightarrow> action \<Rightarrow> bool" where
  "action_approved C g (Accepts ctx (SubmitBatch cur v r s b)) = batch_approved C g cur v r s b"
| "action_approved C g (Accepts ctx (UpdateValset new cur v r s)) = trusted C g new"
| "action_approved C g (Emits b (ValsetUpdatedEvent n en amount token vs ps)) =
     trusted C g \<lparr>va_Validators = vs, va_Powers = ps, va_ValsetNonce = n, va_RewardAmount = Some amount,
       va_RewardToken = token\<rparr>"
| "action_approved C g _ = True"

fun continuation_approved :: "crypto \<Rightarrow> genesis \<Rightarrow> continuation \<Rightarrow> bool" where
  "continuation_approved C g (RewardSent new) = (trusted C g new \<and> va_RewardAmount new \<noteq> None)"
| "continuation_approved C g _ = True"

definition current_set :: "crypto \<Rightarrow> genesis \<Rightarrow> Peggy \<Rightarrow> ValsetArgs \<Rightarrow> bool" where
  "current_set C g st a \<longleftrightarrow> trusted C g a \<and> state_lastValsetCheckpoint st = checkpoint C g a \<and>
     va_ValsetNonce a = state_lastValsetNonce st \<and> valset_in_range a \<and>
     validateValidatorSet (va_Validators a) (va_Powers a) (g_powerThreshold g)"

definition trust_inv :: "crypto \<Rightarrow> genesis \<Rightarrow> peggy_pred" where
  "trust_inv C g b st tr ks \<longleftrightarrow> peggy_initialized st \<and> \<not> peggy_initializing st \<and>
     state_peggyId st = g_peggyId g \<and> state_powerThreshold st = g_powerThreshold g \<and>
     (\<exists>a. current_set C g st a) \<and> list_all (continuation_approved C g) ks \<and> list_all (action_approved C g) tr"

text \<open>What every function but \<open>updateValset\<close> leaves alone.\<close>

definition same_set :: "Peggy \<Rightarrow> Peggy \<Rightarrow> bool" where
  "same_set st st' \<longleftrightarrow> peggy_initialized st' = peggy_initialized st \<and>
     peggy_initializing st' = peggy_initializing st \<and> state_peggyId st' = state_peggyId st \<and>
     state_powerThreshold st' = state_powerThreshold st \<and>
     state_lastValsetCheckpoint st' = state_lastValsetCheckpoint st \<and>
     state_lastValsetNonce st' = state_lastValsetNonce st"

fun keeps_set :: "Peggy \<Rightarrow> outcome \<Rightarrow> bool" where
  "keeps_set st Reverts = True"
| "keeps_set st (Finishes st' es) = same_set st st'"
| "keeps_set st (CallsOut st' out k) = same_set st st'"

lemma execute_keeps_set:
  "peggy_initialized st \<Longrightarrow> \<not> peggy_initializing st \<Longrightarrow> \<nexists>new cur v r s. c = UpdateValset new cur v r s \<Longrightarrow>
     keeps_set st (execute C ctx c st)"
  by (cases c) (simp_all add: function_defs same_set_def)

lemma resume_keeps_set: "keeps_set st (resume k x st)"
  by (cases k) (simp_all add: function_defs same_set_def)

lemma trust_inv_keeps:
  assumes "trust_inv C g b st tr ks" "keeps_set st out"
    and "\<And>st' es. out = Finishes st' es \<Longrightarrow> list_all (action_approved C g) (map (Emits b') es)"
    and "\<And>st' oc k. out = CallsOut st' oc k \<Longrightarrow> continuation_approved C g k"
    and "list_all (action_approved C g) tr'" "list_all (continuation_approved C g) ks'"
  shows "outcome_ok (trust_inv C g) b' tr' ks' out"
  using assms by (cases out) (auto simp: trust_inv_def current_set_def same_set_def)

lemma updateValset_trust:
  assumes "trust_inv C g b st tr ks" "valset_in_range new"
  shows "outcome_ok (trust_inv C g) b (tr @ [Accepts ctx (UpdateValset new cur v r s)]) ks
    (updateValset C ctx new cur v r s st)"
proof (cases "peggy_paused st \<or>
    \<not> updateValset_checks (sol_keccak256 C) (sol_abi_encode C) (sol_verifySig C) st new cur v r s")
  case True
  then show ?thesis by (auto simp: updateValset_def)
next
  case False
  obtain a where a: "current_set C g st a" using assms(1) by (auto simp: trust_inv_def)
  have ids: "state_peggyId st = g_peggyId g" "state_powerThreshold st = g_powerThreshold g"
    using assms(1) by (simp_all add: trust_inv_def)
  have checks: "updateValset_checks (sol_keccak256 C) (sol_abi_encode C) (sol_verifySig C) st new cur v r s"
    using False by simp
  have "checkpoint C g a = checkpoint C g cur" "trusted C g a"
    using a checks ids by (simp_all add: updateValset_checks_def current_set_def checkpoint_def)
  moreover have "quorum C cur v r s (g_powerThreshold g) (checkpoint C g new)"
    using checks ids unfolding updateValset_checks_def checkpoint_def
    by (intro checkValidatorSignatures_quorum) simp_all
  ultimately have new: "trusted C g new" by (blast intro: approved)
  let ?st = "st\<lparr>state_lastValsetCheckpoint := checkpoint C g new, state_lastValsetNonce := va_ValsetNonce new\<rparr>"
  have "current_set C g ?st new"
    using new assms(2) checks ids by (simp add: current_set_def updateValset_checks_def)
  moreover obtain amount where "va_RewardAmount new = Some amount"
    using assms(2) by (auto simp: valset_in_range_def split: option.splits)
  moreover from this new have "trusted C g \<lparr>va_Validators = va_Validators new, va_Powers = va_Powers new,
      va_ValsetNonce = va_ValsetNonce new, va_RewardAmount = Some amount, va_RewardToken = va_RewardToken new\<rparr>"
    by (cases new) simp
  ultimately show ?thesis
    using False assms(1) new ids
    by (auto simp: updateValset_def valset_updated_def emit_event_def trust_inv_def current_set_def
        checkpoint_def Let_def)
qed

lemma submitBatch_trust:
  assumes "trust_inv C g b st tr ks" "submitBatch C ctx cur v r s ba st \<noteq> Reverts"
  shows "batch_approved C g cur v r s ba"
proof -
  obtain a where a: "current_set C g st a" using assms(1) by (auto simp: trust_inv_def)
  have ids: "state_peggyId st = g_peggyId g" "state_powerThreshold st = g_powerThreshold g"
    using assms(1) by (simp_all add: trust_inv_def)
  have checks: "submitBatch_checks (sol_keccak256 C) (sol_abi_encode C) (sol_verifySig C) (block_number ctx) st cur v r s ba"
    using assms(2) by (auto simp: submitBatch_def split: if_splits)
  then have "checkpoint C g a = checkpoint C g cur" "trusted C g a"
    using a ids by (simp_all add: submitBatch_checks_def current_set_def checkpoint_def)
  moreover have "quorum C cur v r s (g_powerThreshold g)
      (batchHash (sol_keccak256 C) (sol_abi_encode C) ba (g_peggyId g))"
    using checks ids unfolding submitBatch_checks_def
    by (intro checkValidatorSignatures_quorum) simp_all
  ultimately show ?thesis unfolding batch_approved_def by blast
qed

lemma execute_trust:
  assumes "trust_inv C g b st tr ks" "args_in_range c"
  shows "outcome_ok (trust_inv C g) b (tr @ [Accepts ctx c]) ks (execute C ctx c st)"
proof (cases "\<exists>new cur v r s. c = UpdateValset new cur v r s")
  case True
  then show ?thesis using updateValset_trust [OF assms(1)] assms(2) by auto
next
  case False
  have keep: "keeps_set st (execute C ctx c st)"
    using assms(1) False by (intro execute_keeps_set) (auto simp: trust_inv_def)
  have tr: "list_all (action_approved C g) tr" "list_all (continuation_approved C g) ks"
    using assms(1) by (simp_all add: trust_inv_def)
  have "execute C ctx c st \<noteq> Reverts \<Longrightarrow> action_approved C g (Accepts ctx c)"
    using False submitBatch_trust [OF assms(1)] by (cases c) auto
  moreover have "list_all (action_approved C g) (map (Emits b) es)" if "execute C ctx c st = Finishes st' es" for st' es
    using that False assms(1)
    by (cases c) (auto simp: function_defs trust_inv_def split: if_splits)
  moreover have "continuation_approved C g k" if "execute C ctx c st = CallsOut st' oc k" for st' oc k
    using that False by (cases c) (auto simp: function_defs split: if_splits)
  ultimately show ?thesis
    using tr by (cases "execute C ctx c st = Reverts") (auto intro: trust_inv_keeps [OF assms(1) keep])
qed

lemma resume_trust:
  assumes "trust_inv C g b st tr (k # ks)"
  shows "outcome_ok (trust_inv C g) b tr ks (resume k x st)"
proof (rule trust_inv_keeps [OF assms resume_keeps_set])
  have k: "continuation_approved C g k" using assms by (simp add: trust_inv_def)
  show "list_all (action_approved C g) (map (Emits b) es)" if "resume k x st = Finishes st' es" for st' es
  proof (cases k)
    case (RewardSent new)
    then obtain amount where "va_RewardAmount new = Some amount" "trusted C g new" using k by auto
    then show ?thesis using that RewardSent
      by (cases new) (auto simp: function_defs split: if_splits)
  qed (use that in \<open>auto simp: function_defs split: if_splits\<close>)
  show "continuation_approved C g k'" if "resume k x st = CallsOut st' oc k'" for st' oc k'
    using that by (cases k) (auto simp: function_defs split: if_splits)
qed (use assms in \<open>simp_all add: trust_inv_def\<close>)

lemma deploy_trust:
  assumes "deploy C g = Some m"
  shows "trust_inv C g (ch_block m) (ch_peggy m) (ch_trace m) []"
proof (rule deploy_Some [OF assms])
  fix st es c
  assume e: "execute C (ctx_of \<lparr>ch_peggy = blank, ch_trace = [], ch_stack = [], ch_block = g_block g,
        ch_time = g_time g\<rparr> (g_deployer g)) c blank = Finishes st es"
    and c: "c = Initialize (g_peggyId g) (g_powerThreshold g) (g_validators g) (g_powers g)" "args_in_range c"
    and m: "m = \<lparr>ch_peggy = st, ch_trace = Accepts (ctx_of m (g_deployer g)) c # map (Emits (g_block g)) es,
       ch_stack = [], ch_block = g_block g, ch_time = g_time g\<rparr>"
  have "current_set C g st (genesis_valset g)"
    using e c genesis_trusted [of C g]
    by (auto simp: function_defs blank_def current_set_def checkpoint_def genesis_valset_def
        valset_in_range_def is_uint256_def split: if_splits)
  moreover have "list_all (action_approved C g) (map (Emits (g_block g)) es)"
    using e c genesis_trusted [of C g]
    by (auto simp: function_defs blank_def genesis_valset_def split: if_splits)
  moreover have "peggy_initialized st" "\<not> peggy_initializing st" "state_peggyId st = g_peggyId g"
    "state_powerThreshold st = g_powerThreshold g"
    using e c by (auto simp: function_defs blank_def split: if_splits)
  ultimately show ?thesis by (subst (1 2 3) m) (auto simp: trust_inv_def c)
qed

interpretation trust: peggy_invariant C g "trust_inv C g" for C g
  by unfold_locales (simp_all add: deploy_trust execute_trust resume_trust, simp add: trust_inv_def)

text \<open>C7. In every reachable state the contract holds the checkpoint of a validator set that descends from the
  set of the deployment by quorum signatures, has the stored valset nonce, and has itself more than the
  threshold of power; every validator set it accepted or announced descends so; and every batch it
  accepted was signed by members of such a set who hold more than the threshold.\<close>

theorem peggy_chain_of_trust:
  assumes "reachable C g m"
  shows "(\<exists>a. current_set C g (ch_peggy m) a) \<and>
    (\<forall>ctx cur v r s b. Accepts ctx (SubmitBatch cur v r s b) \<in> set (ch_trace m) \<longrightarrow> batch_approved C g cur v r s b) \<and>
    (\<forall>ctx new cur v r s. Accepts ctx (UpdateValset new cur v r s) \<in> set (ch_trace m) \<longrightarrow> trusted C g new) \<and>
    (\<forall>b n en amount token vs ps. (b, ValsetUpdatedEvent n en amount token vs ps) \<in> set (event_log (ch_trace m)) \<longrightarrow>
       trusted C g \<lparr>va_Validators = vs, va_Powers = ps, va_ValsetNonce = n, va_RewardAmount = Some amount,
         va_RewardToken = token\<rparr>)"
proof -
  have inv: "trust_inv C g (ch_block m) (ch_peggy m) (ch_trace m) (continuations (ch_stack m))"
    by (rule trust.reachable_invariant [OF assms])
  have approved: "\<And>x. x \<in> set (ch_trace m) \<Longrightarrow> action_approved C g x"
    using inv by (auto simp: trust_inv_def list_all_iff)
  have logged: "(b, e) \<in> set (event_log tr) \<Longrightarrow> Emits b e \<in> set tr" for b e tr
    by (auto simp: event_log_def List.map_filter_def elim!: event_of.elims)
  show ?thesis
    using inv approved [of "Accepts _ _"] approved [OF logged]
    by (fastforce simp: trust_inv_def)
qed

section \<open>Order of batches and validator sets\<close>

fun accepted_batch :: "action \<Rightarrow> (address \<times> int) option" where
  "accepted_batch (Accepts ctx (SubmitBatch cur v r s b)) = Some (ba_tokenContract b, ba_batchNonce b)"
| "accepted_batch _ = None"

fun executed_batch :: "action \<Rightarrow> (address \<times> int) option" where
  "executed_batch (Emits b (TransactionBatchExecutedEvent n token en)) = Some (token, n)"
| "executed_batch _ = None"

fun open_batch :: "continuation \<Rightarrow> (address \<times> int) option" where
  "open_batch (AmountSent sender b i f) = Some (ba_tokenContract b, ba_batchNonce b)"
| "open_batch (FeeSent b) = Some (ba_tokenContract b, ba_batchNonce b)"
| "open_batch _ = None"

fun accepted_valset :: "action \<Rightarrow> int option" where
  "accepted_valset (Accepts ctx (UpdateValset new cur v r s)) = Some (va_ValsetNonce new)"
| "accepted_valset _ = None"

text \<open>The functions under the modifier \<open>nonReentrant\<close>.\<close>

fun guarded :: "continuation \<Rightarrow> bool" where
  "guarded (RewardSent new) = False"
| "guarded _ = True"

definition nonces_of :: "address \<Rightarrow> (address \<times> int) list \<Rightarrow> int list" where
  "nonces_of token bs = map snd (filter (\<lambda>x. fst x = token) bs)"

lemma nonces_of_snoc [simp]:
  "nonces_of token (bs @ [(t, n)]) = nonces_of token bs @ (if t = token then [n] else [])"
  by (simp add: nonces_of_def)

lemmas trace_simps = List.map_filter_simps map_filter_append

text \<open>At most one guarded function is open, and the batches accepted are those executed and, last, the open one.\<close>

definition guard_inv :: peggy_pred where
  "guard_inv b st tr ks \<longleftrightarrow> length (filter guarded ks) = (if peggy_entered st then 1 else 0) \<and>
     List.map_filter accepted_batch tr = List.map_filter executed_batch tr @ List.map_filter open_batch ks"

lemma open_guarded: "\<not> guarded k \<Longrightarrow> open_batch k = None"
  by (cases k) simp_all

lemma none_open: "filter guarded ks = [] \<Longrightarrow> List.map_filter open_batch ks = []"
  by (induction ks) (auto simp: trace_simps open_guarded split: if_splits)

lemma guard_calls: "guard_inv b st tr ks \<Longrightarrow> outcome_ok guard_inv b (tr @ [Accepts ctx c]) ks (execute C ctx c st)"
  by (cases c) (auto simp: function_defs guard_inv_def trace_simps none_open)

lemma guard_resumes: "guard_inv b st tr (k # ks) \<Longrightarrow> outcome_ok guard_inv b tr ks (resume k x st)"
  by (cases k) (auto simp: function_defs guard_inv_def trace_simps none_open split: if_splits)

interpretation guard: peggy_invariant C g guard_inv for C g
proof
  show "guard_inv (ch_block m) (ch_peggy m) (ch_trace m) []" if "deploy C g = Some m" for m
    using that by (auto simp: deploy_def initialize_def Let_def blank_def guard_inv_def trace_simps
        split: outcome.splits if_splits)
qed (simp_all add: guard_calls guard_resumes, simp add: guard_inv_def)

text \<open>
  The nonces of the accepted batches of a token increase, up to the stored one. So do those of the accepted
  validator sets when a checkpoint determines the nonce in it, as a hash without collisions does.
\<close>

definition nonce_binding :: "crypto \<Rightarrow> genesis \<Rightarrow> bool" where
  "nonce_binding C g \<longleftrightarrow> (\<forall>a b. valset_in_range a \<longrightarrow> valset_in_range b \<longrightarrow>
     checkpoint C g a = checkpoint C g b \<longrightarrow> va_ValsetNonce a = va_ValsetNonce b)"

definition order_inv :: "crypto \<Rightarrow> genesis \<Rightarrow> peggy_pred" where
  "order_inv C g b st tr ks \<longleftrightarrow> trust_inv C g b st tr ks \<and>
     (\<forall>token. sorted_wrt (<) (nonces_of token (List.map_filter accepted_batch tr)) \<and>
        (\<forall>n \<in> set (nonces_of token (List.map_filter accepted_batch tr)). n \<le> state_lastBatchNonces st token) \<and>
        0 \<le> state_lastBatchNonces st token) \<and>
     (nonce_binding C g \<longrightarrow> sorted_wrt (<) (0 # List.map_filter accepted_valset tr) \<and>
        last (0 # List.map_filter accepted_valset tr) = state_lastValsetNonce st)"

fun keeps_order :: "Peggy \<Rightarrow> outcome \<Rightarrow> bool" where
  "keeps_order st Reverts = True"
| "keeps_order st (Finishes st' es) = (state_lastBatchNonces st' = state_lastBatchNonces st \<and>
     state_lastValsetNonce st' = state_lastValsetNonce st)"
| "keeps_order st (CallsOut st' out k) = (state_lastBatchNonces st' = state_lastBatchNonces st \<and>
     state_lastValsetNonce st' = state_lastValsetNonce st)"

lemma map_filter_Emits [simp]:
  "List.map_filter accepted_batch (map (Emits b) es) = []" "List.map_filter accepted_valset (map (Emits b) es) = []"
  by (induction es) (simp_all add: trace_simps)

lemma order_inv_keeps:
  assumes "order_inv C g b st tr ks" "keeps_order st out" "outcome_ok (trust_inv C g) b tr' ks' out"
    and "List.map_filter accepted_batch tr' = List.map_filter accepted_batch tr"
    and "List.map_filter accepted_valset tr' = List.map_filter accepted_valset tr"
  shows "outcome_ok (order_inv C g) b tr' ks' out"
  using assms by (cases out) (auto simp: order_inv_def trace_simps)

lemma sorted_wrt_less_snoc: "sorted_wrt (<) (x # xs) \<Longrightarrow> last (x # xs) < y \<Longrightarrow> sorted_wrt (<) (x # xs @ [y])" for y :: int
proof -
  assume *: "sorted_wrt (<) (x # xs)" "last (x # xs) < y"
  have "z < y" if "z \<in> set (x # xs)" for z
    using * that by (induction xs arbitrary: x) (auto split: if_splits)
  with * show ?thesis by (auto simp: sorted_wrt_append)
qed

lemma updateValset_order:
  assumes "order_inv C g b st tr ks" "args_in_range c" "c = UpdateValset new cur v r s"
    "execute C ctx c st = out" "out = Finishes st' es \<or> out = CallsOut st' oc k"
    "outcome_ok (trust_inv C g) b (tr @ [Accepts ctx c]) ks out"
  shows "outcome_ok (order_inv C g) b (tr @ [Accepts ctx c]) ks out"
proof -
  have checks: "updateValset_checks (sol_keccak256 C) (sol_abi_encode C) (sol_verifySig C) st new cur v r s"
    and st': "state_lastValsetNonce st' = va_ValsetNonce new" "state_lastBatchNonces st' = state_lastBatchNonces st"
    using assms(3-5) by (auto simp: function_defs split: if_splits)
  obtain a where a: "current_set C g st a" using assms(1) by (auto simp: order_inv_def trust_inv_def)
  have "state_lastValsetNonce st < va_ValsetNonce new" if "nonce_binding C g"
  proof -
    have "checkpoint C g a = checkpoint C g cur"
      using a checks assms(1) by (simp add: updateValset_checks_def current_set_def checkpoint_def
          order_inv_def trust_inv_def)
    then have "va_ValsetNonce a = va_ValsetNonce cur"
      using that a assms(2,3) unfolding nonce_binding_def current_set_def by (metis args_in_range.simps(2))
    then show ?thesis using a checks by (simp add: current_set_def updateValset_checks_def)
  qed
  then have "sorted_wrt (<) (0 # List.map_filter accepted_valset tr @ [va_ValsetNonce new])" if "nonce_binding C g"
    using that assms(1) by (intro sorted_wrt_less_snoc) (simp_all add: order_inv_def)
  then show ?thesis
    using assms(1,5,6) st' by (elim disjE) (auto simp: order_inv_def trace_simps assms(3))
qed

lemma submitBatch_order:
  assumes "order_inv C g b st tr ks" "c = SubmitBatch cur v r s ba"
    "execute C ctx c st = out" "out = Finishes st' es \<or> out = CallsOut st' oc k"
    "outcome_ok (trust_inv C g) b (tr @ [Accepts ctx c]) ks out"
  shows "outcome_ok (order_inv C g) b (tr @ [Accepts ctx c]) ks out"
proof -
  have checks: "submitBatch_checks (sol_keccak256 C) (sol_abi_encode C) (sol_verifySig C) (block_number ctx) st cur v r s ba"
    and st': "state_lastValsetNonce st' = state_lastValsetNonce st"
      "state_lastBatchNonces st' = (state_lastBatchNonces st)(ba_tokenContract ba := ba_batchNonce ba)"
    using assms(2-4) by (auto simp: function_defs split: if_splits)
  have lt: "state_lastBatchNonces st (ba_tokenContract ba) < ba_batchNonce ba"
    using checks by (simp add: submitBatch_checks_def)
  moreover have "0 \<le> state_lastBatchNonces st (ba_tokenContract ba)" using assms(1) by (simp add: order_inv_def)
  ultimately have pos: "0 \<le> ba_batchNonce ba" by simp
  have below: "n < ba_batchNonce ba"
    if "n \<in> set (nonces_of (ba_tokenContract ba) (List.map_filter accepted_batch tr))" for n
    using that lt assms(1) by (force simp: order_inv_def)
  have "sorted_wrt (<) (nonces_of token (List.map_filter accepted_batch tr @ [(ba_tokenContract ba, ba_batchNonce ba)])) \<and>
      (\<forall>n \<in> set (nonces_of token (List.map_filter accepted_batch tr @ [(ba_tokenContract ba, ba_batchNonce ba)])).
         n \<le> state_lastBatchNonces st' token) \<and> 0 \<le> state_lastBatchNonces st' token" for token
    using assms(1) below st' pos by (cases "token = ba_tokenContract ba")
      (auto simp: order_inv_def sorted_wrt_append intro: less_imp_le)
  then show ?thesis
    using assms(1,4,5) st' by (elim disjE) (auto simp: order_inv_def trace_simps assms(2))
qed

lemma execute_order:
  assumes "order_inv C g b st tr ks" "args_in_range c"
  shows "outcome_ok (order_inv C g) b (tr @ [Accepts ctx c]) ks (execute C ctx c st)"
proof -
  have trust: "outcome_ok (trust_inv C g) b (tr @ [Accepts ctx c]) ks (execute C ctx c st)"
    using assms by (intro execute_trust) (simp_all add: order_inv_def)
  consider "execute C ctx c st = Reverts" | new cur v r s where "c = UpdateValset new cur v r s" "execute C ctx c st \<noteq> Reverts"
    | cur v r s ba where "c = SubmitBatch cur v r s ba" "execute C ctx c st \<noteq> Reverts"
    | "accepted_batch (Accepts ctx c) = None" "accepted_valset (Accepts ctx c) = None"
    by (cases c) auto
  then show ?thesis
  proof cases
    case 2
    then show ?thesis
      using updateValset_order [OF assms 2(1) refl _ trust] by (cases "execute C ctx c st") auto
  next
    case 3
    then show ?thesis
      using submitBatch_order [OF assms(1) 3(1) refl _ trust] by (cases "execute C ctx c st") auto
  next
    case 4
    then have "keeps_order st (execute C ctx c st)"
      using assms(1) by (cases c) (simp_all add: function_defs order_inv_def trust_inv_def)
    with 4 show ?thesis by (intro order_inv_keeps [OF assms(1) _ trust]) (simp_all add: trace_simps)
  qed simp
qed

lemma resume_order:
  assumes "order_inv C g b st tr (k # ks)"
  shows "outcome_ok (order_inv C g) b tr ks (resume k x st)"
proof (rule order_inv_keeps [OF assms])
  show "keeps_order st (resume k x st)" by (cases k) (simp_all add: function_defs)
  show "outcome_ok (trust_inv C g) b tr ks (resume k x st)"
    using assms by (intro resume_trust) (simp add: order_inv_def)
qed simp_all

lemma deploy_order:
  assumes "deploy C g = Some m"
  shows "order_inv C g (ch_block m) (ch_peggy m) (ch_trace m) []"
  using deploy_trust [OF assms] assms
  by (auto simp: order_inv_def deploy_def initialize_def Let_def blank_def nonces_of_def trace_simps
      split: outcome.splits if_splits)

interpretation order: peggy_invariant C g "order_inv C g" for C g
  by unfold_locales (simp_all add: deploy_order execute_order resume_order,
      simp add: order_inv_def trust_inv_def)

text \<open>C9. A batch is executed at most once: in every reachable state the batches of a token for which the contract
  announced the execution have strictly increasing nonces, and they are all the batches it accepted, in
  that order, once no call is open. Their nonces are at most the stored one, so the contract rejects
  each of them from then on.\<close>

theorem peggy_batches_once:
  assumes "reachable C g m"
  shows "(\<forall>token. sorted_wrt (<) (nonces_of token (List.map_filter executed_batch (ch_trace m))) \<and>
      (\<forall>n \<in> set (nonces_of token (List.map_filter executed_batch (ch_trace m))).
         n \<le> state_lastBatchNonces (ch_peggy m) token)) \<and>
    (ch_stack m = [] \<longrightarrow> List.map_filter executed_batch (ch_trace m) = List.map_filter accepted_batch (ch_trace m))"
proof -
  have acc: "List.map_filter accepted_batch (ch_trace m) =
      List.map_filter executed_batch (ch_trace m) @ List.map_filter open_batch (continuations (ch_stack m))"
    using guard.reachable_invariant [OF assms] by (simp add: guard_inv_def)
  have "sorted_wrt (<) (nonces_of token (List.map_filter accepted_batch (ch_trace m)))"
    "\<forall>n \<in> set (nonces_of token (List.map_filter accepted_batch (ch_trace m))). n \<le> state_lastBatchNonces (ch_peggy m) token"
    for token
    using order.reachable_invariant [OF assms] by (simp_all add: order_inv_def)
  then show ?thesis
    unfolding acc by (auto simp: nonces_of_def sorted_wrt_append trace_simps)
qed

text \<open>C36. When a checkpoint determines the nonce in it, the validator sets the contract accepts have strictly
  increasing nonces, and \<open>state_lastValsetNonce\<close> is the last of them: an old set never comes back.\<close>

theorem peggy_valset_nonces_increase:
  assumes "reachable C g m" "nonce_binding C g"
  shows "sorted_wrt (<) (0 # List.map_filter accepted_valset (ch_trace m)) \<and>
    last (0 # List.map_filter accepted_valset (ch_trace m)) = state_lastValsetNonce (ch_peggy m)"
  using order.reachable_invariant [OF assms(1)] assms(2) by (simp add: order_inv_def)

section \<open>Payments\<close>

type_synonym payment = "address \<times> address \<times> int"

fun payment_of :: "action \<Rightarrow> payment option" where
  "payment_of (Pays (Transfer token to amount)) = Some (token, to, amount)"
| "payment_of (Pays (Mint token to amount)) = Some (token, to, amount)"
| "payment_of _ = None"

definition fee_payment :: "address \<Rightarrow> BatchArgs \<Rightarrow> int \<Rightarrow> payment multiset" where
  "fee_payment sender b f = (if f > 0 then {#(ba_tokenContract b, sender, f)#} else {#})"

text \<open>What a batch still pays from its \<open>i\<close>-th transaction on, with \<open>f\<close> of fees collected.\<close>

definition batch_payments :: "address \<Rightarrow> BatchArgs \<Rightarrow> nat \<Rightarrow> int \<Rightarrow> payment multiset" where
  "batch_payments sender b i f =
     mset (map (\<lambda>(to, amount). (ba_tokenContract b, to, amount)) (drop i (zip (ba_destinations b) (ba_amounts b)))) +
     fee_payment sender b (f + sum_list (drop i (ba_fees b)))"

text \<open>What an accepted call orders to be paid: the reward of a validator set to the caller, the transactions
  of a batch and their fees to the caller.\<close>

fun ordered :: "action \<Rightarrow> payment multiset" where
  "ordered (Accepts ctx (UpdateValset new cur v r s)) =
     (if va_RewardToken new \<noteq> 0 \<and> va_RewardAmount new \<noteq> Some 0
      then {#(va_RewardToken new, msg_sender ctx, the (va_RewardAmount new))#} else {#})"
| "ordered (Accepts ctx (SubmitBatch cur v r s b)) = batch_payments (msg_sender ctx) b 0 0"
| "ordered _ = {#}"

fun owed :: "continuation \<Rightarrow> payment multiset" where
  "owed (AmountSent sender b i f) = batch_payments sender b (Suc i) (f + ba_fees b ! i)"
| "owed _ = {#}"

fun batch_position :: "continuation \<Rightarrow> bool" where
  "batch_position (AmountSent sender b i f) = (i < length (ba_amounts b) \<and>
     length (ba_amounts b) = length (ba_destinations b) \<and> length (ba_amounts b) = length (ba_fees b))"
| "batch_position _ = True"

definition pay_inv :: peggy_pred where
  "pay_inv b st tr ks \<longleftrightarrow> list_all batch_position ks \<and>
     mset (List.map_filter payment_of tr) + sum_list (map owed ks) = sum_list (map ordered tr)"

text \<open>An outcome pays, now or later, the amount \<open>M\<close>.\<close>

fun pays_out :: "payment multiset \<Rightarrow> outcome \<Rightarrow> bool" where
  "pays_out M Reverts = True"
| "pays_out M (Finishes st es) = (M = {#})"
| "pays_out M (CallsOut st out k) = (batch_position k \<and>
     M = mset (List.map_filter payment_of [Pays out]) + owed k)"

lemma pay_inv_outcome:
  assumes "mset (List.map_filter payment_of tr) + (M + sum_list (map owed ks)) = sum_list (map ordered tr)"
    "list_all batch_position ks" "pays_out M out"
  shows "outcome_ok pay_inv b tr ks out"
proof (cases out)
  case (Finishes st es)
  have "List.map_filter payment_of (map (Emits b) es) = []" "sum_list (map ordered (map (Emits b) es)) = {#}"
    by (induction es) (simp_all add: trace_simps)
  then show ?thesis using assms by (simp add: Finishes pay_inv_def trace_simps comp_def)
next
  case (CallsOut st oc k)
  then show ?thesis using assms by (simp add: pay_inv_def trace_simps add.assoc split: option.splits)
qed simp

lemma send_amounts_pays:
  assumes "length (ba_amounts b) = length (ba_destinations b)" "length (ba_amounts b) = length (ba_fees b)"
    "i \<le> length (ba_amounts b)"
  shows "pays_out (batch_payments sender b i f) (send_amounts sender b i f st)"
proof (cases "i < length (ba_amounts b)")
  case True
  have "drop i (zip (ba_destinations b) (ba_amounts b)) =
      (ba_destinations b ! i, ba_amounts b ! i) # drop (Suc i) (zip (ba_destinations b) (ba_amounts b))"
    using True assms by (simp add: Cons_nth_drop_Suc [symmetric])
  moreover have "drop i (ba_fees b) = ba_fees b ! i # drop (Suc i) (ba_fees b)"
    using True assms by (simp add: Cons_nth_drop_Suc)
  ultimately show ?thesis
    using True assms by (simp add: send_amounts_def batch_payments_def trace_simps add.assoc)
next
  case False
  then show ?thesis
    using assms by (simp add: send_amounts_def batch_payments_def fee_payment_def trace_simps
        batch_executed_def emit_event_def Let_def)
qed

lemma execute_pays: "args_in_range c \<Longrightarrow> pays_out (ordered (Accepts ctx c)) (execute C ctx c st)"
proof (cases c)
  case (SubmitBatch cur v r s b)
  then show ?thesis
    using send_amounts_pays [of b 0] by (auto simp: submitBatch_def submitBatch_checks_def)
qed (auto simp: function_defs trace_simps)

lemma resume_pays:
  assumes "batch_position k"
  shows "pays_out (owed k) (resume k x st)"
proof (cases k)
  case (AmountSent sender b i f)
  then show ?thesis using assms send_amounts_pays [of b "Suc i"] by simp
qed (auto simp: function_defs)

interpretation pay: peggy_invariant C g pay_inv for C g
proof
  show "pay_inv (ch_block m) (ch_peggy m) (ch_trace m) []" if "deploy C g = Some m" for m
    using that by (auto simp: deploy_def initialize_def Let_def pay_inv_def trace_simps
        split: outcome.splits if_splits)
next
  show "outcome_ok pay_inv b (tr @ [Accepts ctx c]) ks (execute C ctx c st)"
    if "pay_inv b st tr ks" "args_in_range c" for b st tr ks c ctx
  proof (rule pay_inv_outcome [OF _ _ execute_pays [OF that(2)]])
    show "list_all batch_position ks" using that(1) by (simp add: pay_inv_def)
    have "List.map_filter payment_of (tr @ [Accepts ctx c]) = List.map_filter payment_of tr"
      by (simp add: trace_simps)
    then show "mset (List.map_filter payment_of (tr @ [Accepts ctx c])) +
        (ordered (Accepts ctx c) + sum_list (map owed ks)) = sum_list (map ordered (tr @ [Accepts ctx c]))"
      using that(1) by (simp add: pay_inv_def ac_simps)
  qed
next
  show "outcome_ok pay_inv b tr ks (resume k x st)" if "pay_inv b st tr (k # ks)" for b st tr k ks x
    using that by (intro pay_inv_outcome [OF _ _ resume_pays]) (simp_all add: pay_inv_def)
qed (simp add: pay_inv_def)

text \<open>C10. Between transactions, the tokens the contract has transferred or minted are exactly those ordered by the
  batches and validator sets it accepted, each payment made as often as it was ordered: the amounts of a
  batch to their destinations, its fees in one sum to the caller, and the reward of a validator set to
  the caller.\<close>

theorem peggy_payments_exact:
  assumes "reachable C g m" "ch_stack m = []"
  shows "mset (List.map_filter payment_of (ch_trace m)) = sum_list (map ordered (ch_trace m))"
  using pay.reachable_invariant [OF assms(1)] assms(2) by (simp add: pay_inv_def)

section \<open>A concrete run\<close>

text \<open>A hash that keeps only the nonce of a validator set, and a verifier that accepts every signature.\<close>

fun toy_encode :: encoder where
  "toy_encode [_, _, AbiUint (Some n), _, _, _, _] = replicate (nat n) 0"
| "toy_encode _ = []"

definition nonce_crypto :: crypto where
  "nonce_crypto = \<lparr>sol_keccak256 = (\<lambda>b. of_nat (length b)), sol_abi_encode = toy_encode,
     sol_verifySig = (\<lambda>_ _ _ _ _. True)\<rparr>"

definition toy_genesis :: genesis where
  "toy_genesis = \<lparr>g_peggyId = 77, g_powerThreshold = 100, g_validators = [2], g_powers = [150], g_deployer = 9,
     g_block = 10, g_time = 1000\<rparr>"

definition toy_set :: "int \<Rightarrow> address \<Rightarrow> ValsetArgs" where
  "toy_set n token = \<lparr>va_Validators = [2], va_Powers = [150], va_ValsetNonce = n, va_RewardAmount = Some 7,
     va_RewardToken = token\<rparr>"

definition toy_batch :: BatchArgs where
  "toy_batch = \<lparr>ba_amounts = [30, 40], ba_destinations = [5, 6], ba_fees = [1, 2], ba_batchNonce = 1,
     ba_tokenContract = 8, ba_batchTimeout = 100\<rparr>"

text \<open>
  The set changes with a reward; during its payment the token submits a batch, and during the first
  transfer of that another contract deploys a token and is rolled back. Then a deposit fails and one succeeds.
\<close>

definition toy_inputs :: "input list" where
  "toy_inputs =
     [NewBlock 1012,
      Call 3 (UpdateValset (toy_set 1 4) (toy_set 0 0) [27] [1] [1]),
      Call 4 (SubmitBatch (toy_set 1 0) [27] [1] [1] toy_batch),
      Enter, Call 4 (DeployERC20 ''d'' ''n'' ''s'' 6 55), Fail,
      Return 0, Return 0, Return 0, Return 0,
      NewBlock 1024,
      Call 3 (SendToInjective 8 1 50 ''x'' 500), Fail,
      Call 3 (SendToInjective 8 1 50 ''x'' 500), Return 550]"

definition toy_start :: chain where
  "toy_start = (case deploy nonce_crypto toy_genesis of Some m \<Rightarrow> m)"

lemma toy_deploy: "deploy nonce_crypto toy_genesis = Some toy_start"
proof -
  have "deploy nonce_crypto toy_genesis \<noteq> None" by code_simp
  then show ?thesis by (auto simp: toy_start_def)
qed

lemma toy_run:
  "map_option (\<lambda>m. (event_nonces (map snd (event_log (ch_trace m))), ch_stack m = [],
      List.map_filter executed_batch (ch_trace m), List.map_filter accepted_valset (ch_trace m),
      List.map_filter payment_of (ch_trace m))) (run nonce_crypto toy_start toy_inputs) =
   Some ([1, 2, 3, 4], True, [(8, 1)], [1], [(4, 3, 7), (8, 5, 30), (8, 6, 40), (8, 4, 3)])"
  by code_simp

lemma toy_end:
  obtains m where "run nonce_crypto toy_start toy_inputs = Some m" "reachable nonce_crypto toy_genesis m"
    "event_nonces (map snd (event_log (ch_trace m))) = [1, 2, 3, 4]" "ch_stack m = []"
    "List.map_filter executed_batch (ch_trace m) = [(8, 1)]" "List.map_filter accepted_valset (ch_trace m) = [1]"
    "List.map_filter payment_of (ch_trace m) = [(4, 3, 7), (8, 5, 30), (8, 6, 40), (8, 4, 3)]"
  using toy_run run_reachable [OF deployed [OF toy_deploy]] by auto

theorem peggy_events_contiguous_witness:
  "\<exists>m. run nonce_crypto toy_start toy_inputs = Some m \<and> state_lastEventNonce (ch_peggy m) = 4"
proof (rule toy_end)
  fix m
  assume m: "run nonce_crypto toy_start toy_inputs = Some m" "reachable nonce_crypto toy_genesis m"
    "event_nonces (map snd (event_log (ch_trace m))) = [1, 2, 3, 4]"
  have "[1 .. state_lastEventNonce (ch_peggy m)] = [1, 2, 3, 4]"
    using peggy_events_contiguous [OF m(2)] m(3) by simp
  then have "length [1 .. state_lastEventNonce (ch_peggy m)] = 4" by simp
  with m(1) show ?thesis by auto
qed

theorem peggy_chain_of_trust_witness:
  "\<exists>m. run nonce_crypto toy_start toy_inputs = Some m \<and> (\<exists>a. current_set nonce_crypto toy_genesis (ch_peggy m) a)"
proof (rule toy_end)
  fix m
  assume "run nonce_crypto toy_start toy_inputs = Some m" "reachable nonce_crypto toy_genesis m"
  with peggy_chain_of_trust [OF this(2), THEN conjunct1] show ?thesis by blast
qed

theorem peggy_batches_once_witness:
  "\<exists>m. run nonce_crypto toy_start toy_inputs = Some m \<and> List.map_filter accepted_batch (ch_trace m) = [(8, 1)] \<and>
     1 \<le> state_lastBatchNonces (ch_peggy m) 8"
proof (rule toy_end)
  fix m
  assume "run nonce_crypto toy_start toy_inputs = Some m" "reachable nonce_crypto toy_genesis m" "ch_stack m = []"
    "List.map_filter executed_batch (ch_trace m) = [(8, 1)]"
  with peggy_batches_once [OF this(2), THEN conjunct1, THEN spec, of 8]
    peggy_batches_once [OF this(2), THEN conjunct2] show ?thesis by (auto simp: nonces_of_def)
qed

lemma toy_binding: "nonce_binding nonce_crypto toy_genesis"
proof -
  have "va_ValsetNonce a = va_ValsetNonce b"
    if r: "valset_in_range a" "valset_in_range b"
      and eq: "checkpoint nonce_crypto toy_genesis a = checkpoint nonce_crypto toy_genesis b" for a b
  proof -
    have "(of_nat (nat (va_ValsetNonce a)) :: hash) = of_nat (nat (va_ValsetNonce b))"
      using eq by (simp add: checkpoint_def makeCheckpoint_def nonce_crypto_def)
    then have "(word_of_int (va_ValsetNonce a) :: hash) = word_of_int (va_ValsetNonce b)"
      using r by (simp add: valset_in_range_def is_uint256_def)
    then have "uint (word_of_int (va_ValsetNonce a) :: hash) = uint (word_of_int (va_ValsetNonce b) :: hash)"
      by simp
    then show ?thesis
      using r by (simp add: uint_word_of_int valset_in_range_def is_uint256_def)
  qed
  then show ?thesis unfolding nonce_binding_def by blast
qed

theorem peggy_valset_nonces_increase_witness:
  "\<exists>m. run nonce_crypto toy_start toy_inputs = Some m \<and> state_lastValsetNonce (ch_peggy m) = 1"
proof (rule toy_end)
  fix m
  assume "run nonce_crypto toy_start toy_inputs = Some m" "reachable nonce_crypto toy_genesis m"
    "List.map_filter accepted_valset (ch_trace m) = [1]"
  with peggy_valset_nonces_increase [OF this(2) toy_binding] show ?thesis by auto
qed

theorem peggy_payments_exact_witness:
  "\<exists>m. run nonce_crypto toy_start toy_inputs = Some m \<and>
     sum_list (map ordered (ch_trace m)) = {#(4, 3, 7), (8, 5, 30), (8, 6, 40), (8, 4, 3)#}"
proof (rule toy_end)
  fix m
  assume m: "run nonce_crypto toy_start toy_inputs = Some m" "reachable nonce_crypto toy_genesis m" "ch_stack m = []"
    "List.map_filter payment_of (ch_trace m) = [(4, 3, 7), (8, 5, 30), (8, 6, 40), (8, 4, 3)]"
  from peggy_payments_exact [OF m(2,3)] m(1,4) show ?thesis by auto
qed

end
