(* ===== verification/PeggyRelay.thy ===== *)
theory PeggyRelay
  imports PeggySafety
begin

text \<open>
  The calls the relayer submits (\<open>orchestrator/ethereum/peggy\<close>), run by the contract: when the signatures are there
  and the tokens' calls return, a batch is executed and a validator set is installed.
\<close>

section \<open>The relayer's calls run to the end\<close>

lemma reachable_simps:
  assumes "reachable C g m" "ch_stack m = []"
  shows "\<not> peggy_entered (ch_peggy m)" "0 \<le> state_lastEventNonce (ch_peggy m)"
proof -
  show "\<not> peggy_entered (ch_peggy m)"
    using guard.reachable_invariant [OF assms(1)] assms(2) by (simp add: guard_inv_def split: if_splits)
  show "0 \<le> state_lastEventNonce (ch_peggy m)"
    using log.reachable_invariant [OF assms(1)] by (simp add: log_inv_def)
qed

text \<open>When every token call returns, the loop over a batch ends with the announcement.\<close>

definition batch_done :: "BatchArgs \<Rightarrow> Peggy \<Rightarrow> call_frame list \<Rightarrow> chain \<Rightarrow> bool" where
  "batch_done b st fs m \<longleftrightarrow> ch_stack m = fs \<and>
     ch_peggy m = st\<lparr>state_lastEventNonce := state_lastEventNonce st + 1, peggy_entered := False\<rparr> \<and>
     last (ch_trace m) = Emits (ch_block m) (TransactionBatchExecutedEvent (ba_batchNonce b) (ba_tokenContract b)
       (state_lastEventNonce st + 1))"

lemma batch_executed_done:
  assumes "is_uint256 (state_lastEventNonce st + 1)"
  shows "batch_done b st fs (settle m st0 tr0 fs tr (batch_executed b st))"
  using assms by (simp add: batch_executed_def emit_event_def Let_def batch_done_def)

lemma send_amounts_done:
  assumes "is_uint256 (state_lastEventNonce st + 1)" "list_all is_uint256 (ba_fees b)" "0 \<le> f"
    "f + sum_list (drop i (ba_fees b)) < 2 ^ 256" "length (ba_amounts b) = length (ba_fees b)"
  shows "\<exists>k m'. run C (settle m st0 tr0 fs tr (send_amounts sender b i f st)) (replicate k (Return 0)) = Some m' \<and>
    batch_done b st fs m'"
  using assms
proof (induction "length (ba_amounts b) - i" arbitrary: i f m tr)
  case (Suc n)
  have i: "i < length (ba_amounts b)" and n: "n = length (ba_amounts b) - Suc i" using Suc.hyps(2) by simp_all
  let ?oc = "(if isInjectiveNativeToken st (ba_tokenContract b) then Mint else Transfer)
      (ba_tokenContract b) (ba_destinations b ! i) (ba_amounts b ! i)"
  let ?m = "settle m st0 tr0 fs tr (send_amounts sender b i f st)"
  have drop: "drop i (ba_fees b) = ba_fees b ! i # drop (Suc i) (ba_fees b)"
    using i Suc.prems(5) by (simp add: Cons_nth_drop_Suc)
  have fees: "0 \<le> ba_fees b ! i" "0 \<le> sum_list (drop (Suc i) (ba_fees b))"
    using Suc.prems(2,5) i by (auto simp: list_all_iff is_uint256_def intro!: sum_list_nonneg dest: in_set_dropD)
  have "step C ?m (Return 0) =
      Some (settle ?m st0 tr0 fs (tr @ [Pays ?oc]) (send_amounts sender b (Suc i) (f + ba_fees b ! i) st))"
    using i Suc.prems(3,4) fees by (simp add: send_amounts_def [of _ _ i] is_uint256_def drop)
  moreover obtain k m' where "run C (settle ?m st0 tr0 fs (tr @ [Pays ?oc])
      (send_amounts sender b (Suc i) (f + ba_fees b ! i) st)) (replicate k (Return 0)) = Some m'" "batch_done b st fs m'"
    using Suc.hyps(1) [of "Suc i" "f + ba_fees b ! i" ?m "tr @ [Pays ?oc]"] n Suc.prems fees by (auto simp: drop)
  ultimately show ?case by (intro exI [of _ "Suc k"]) auto
next
  case 0
  have i: "\<not> i < length (ba_amounts b)" using 0 by simp
  show ?case
  proof (cases "f > 0")
    case True
    let ?m = "settle m st0 tr0 fs tr (send_amounts sender b i f st)"
    have "step C ?m (Return 0) = Some (settle ?m st0 tr0 fs (ch_trace ?m) (batch_executed b st))"
      using i True by (simp add: send_amounts_def is_uint256_def)
    then show ?thesis
      using batch_executed_done [OF assms(1)] by (intro exI [of _ "Suc 0"]) simp
  next
    case False
    then show ?thesis
      using i batch_executed_done [OF assms(1)] by (intro exI [of _ 0]) (simp add: send_amounts_def)
  qed
qed

definition contract_crypto :: "abi_lib \<Rightarrow> encoder \<Rightarrow> verifier \<Rightarrow> crypto" where
  "contract_crypto A enc verifySig =
     \<lparr>sol_keccak256 = Keccak256Hash A, sol_abi_encode = enc, sol_verifySig = verifySig\<rparr>"

lemma submitBatch_runs:
  assumes "submitBatch_checks (sol_keccak256 C) (sol_abi_encode C) (sol_verifySig C) (ch_block m) (ch_peggy m) cur v r s b"
    and "args_in_range (SubmitBatch cur v r s b)" "sum_list (ba_fees b) < 2 ^ 256"
    and "\<not> peggy_entered (ch_peggy m)" "\<not> peggy_paused (ch_peggy m)" "is_uint256 (state_lastEventNonce (ch_peggy m) + 1)"
  shows "\<exists>k m'. run C m (Call sender (SubmitBatch cur v r s b) # replicate k (Return 0)) = Some m' \<and>
    batch_done b ((ch_peggy m)\<lparr>peggy_entered := True, state_lastBatchNonces :=
      (state_lastBatchNonces (ch_peggy m))(ba_tokenContract b := ba_batchNonce b)\<rparr>) (ch_stack m) m'"
proof -
  let ?st = "(ch_peggy m)\<lparr>peggy_entered := True, state_lastBatchNonces :=
      (state_lastBatchNonces (ch_peggy m))(ba_tokenContract b := ba_batchNonce b)\<rparr>"
  have "execute C (ctx_of m sender) (SubmitBatch cur v r s b) (ch_peggy m) = send_amounts sender b 0 0 ?st"
    using assms by (simp add: submitBatch_def ctx_of_def)
  then have "step C m (Call sender (SubmitBatch cur v r s b)) = Some (settle m (ch_peggy m) (ch_trace m) (ch_stack m)
      (ch_trace m @ [Accepts (ctx_of m sender) (SubmitBatch cur v r s b)]) (send_amounts sender b 0 0 ?st))"
    using assms(2) by simp
  moreover have "\<exists>k m'. run C (settle m (ch_peggy m) (ch_trace m) (ch_stack m)
      (ch_trace m @ [Accepts (ctx_of m sender) (SubmitBatch cur v r s b)]) (send_amounts sender b 0 0 ?st))
      (replicate k (Return 0)) = Some m' \<and> batch_done b ?st (ch_stack m) m'"
    using assms by (intro send_amounts_done) (simp_all add: batch_in_range_def submitBatch_checks_def)
  ultimately show ?thesis by auto
qed

lemma updateValset_runs:
  assumes "updateValset_checks (sol_keccak256 C) (sol_abi_encode C) (sol_verifySig C) (ch_peggy m) new cur v r s"
    and "args_in_range (UpdateValset new cur v r s)" "\<not> peggy_paused (ch_peggy m)"
    and "is_uint256 (state_lastEventNonce (ch_peggy m) + 1)"
  shows "\<exists>k m'. run C m (Call sender (UpdateValset new cur v r s) # replicate k (Return 0)) = Some m' \<and>
    ch_stack m' = ch_stack m \<and> ch_peggy m' = (ch_peggy m)\<lparr>state_lastValsetCheckpoint :=
        makeCheckpoint (sol_keccak256 C) (sol_abi_encode C) new (state_peggyId (ch_peggy m)),
      state_lastValsetNonce := va_ValsetNonce new, state_lastEventNonce := state_lastEventNonce (ch_peggy m) + 1\<rparr> \<and>
    last (ch_trace m') = Emits (ch_block m') (ValsetUpdatedEvent (va_ValsetNonce new)
      (state_lastEventNonce (ch_peggy m) + 1) (the (va_RewardAmount new)) (va_RewardToken new)
      (va_Validators new) (va_Powers new))"
proof (cases "va_RewardToken new \<noteq> 0 \<and> va_RewardAmount new \<noteq> Some 0")
  case True
  then show ?thesis
    using assms by (intro exI [of _ "Suc 0"])
      (simp add: updateValset_def Let_def valset_updated_def emit_event_def is_uint256_def [of 0])
next
  case False
  then show ?thesis
    using assms by (intro exI [of _ 0]) (auto simp: updateValset_def Let_def valset_updated_def emit_event_def)
qed

lemma genesis_in_range: "reachable C g m \<Longrightarrow> 0 \<le> g_powerThreshold g"
  by (induction rule: reachable.induct)
    (auto simp: deploy_def initialize_def Let_def is_uint256_def split: outcome.splits if_splits)

lemma reachable_state:
  assumes "reachable C g m"
  shows "state_peggyId (ch_peggy m) = g_peggyId g" "state_powerThreshold (ch_peggy m) = g_powerThreshold g"
    "0 \<le> state_lastBatchNonces (ch_peggy m) token" "0 \<le> state_lastEventNonce (ch_peggy m)"
  using trust.reachable_invariant [OF assms] order.reachable_invariant [OF assms] log.reachable_invariant [OF assms]
  by (auto simp: trust_inv_def order_inv_def log_inv_def)



section \<open>Concrete runs\<close>

text \<open>The relayer's sample batch and validator set, on a contract deployed with the sample validators.\<close>

definition sample_genesis :: genesis where
  "sample_genesis = \<lparr>g_peggyId = 77, g_powerThreshold = 2834678415,
     g_validators = va_Validators (new_valset_args unary_geth sample_valset),
     g_powers = va_Powers (new_valset_args unary_geth sample_valset), g_deployer = 9, g_block = 10, g_time = 1000\<rparr>"

abbreviation sample_crypto :: crypto where
  "sample_crypto \<equiv> contract_crypto sample_abi sample_enc (\<lambda>_ _ _ _ _. True)"

definition sample_start :: chain where
  "sample_start = (case deploy sample_crypto sample_genesis of Some m \<Rightarrow> m)"

lemma sample_deploy: "deploy sample_crypto sample_genesis = Some sample_start"
proof -
  have "deploy sample_crypto sample_genesis \<noteq> None" by code_simp
  then show ?thesis by (auto simp: sample_start_def)
qed

lemma sample_reachable: "reachable sample_crypto sample_genesis sample_start"
  by (rule deployed [OF sample_deploy])

lemma deploy_batch_nonces: "deploy C g = Some m \<Longrightarrow> state_lastBatchNonces (ch_peggy m) = (\<lambda>_. 0)"
  by (auto simp: deploy_def initialize_def Let_def blank_def split: outcome.splits if_splits)

lemma sample_start_sel:
  "ch_stack sample_start = []" "\<not> peggy_paused (ch_peggy sample_start)"
  "state_lastEventNonce (ch_peggy sample_start) = 1" "ch_block sample_start = 10"
  "state_lastBatchNonces (ch_peggy sample_start) token = 0"
  "state_lastValsetCheckpoint (ch_peggy sample_start) = 1"
proof -
  show "ch_stack sample_start = []" "\<not> peggy_paused (ch_peggy sample_start)"
    "state_lastEventNonce (ch_peggy sample_start) = 1" "ch_block sample_start = 10"
    "state_lastValsetCheckpoint (ch_peggy sample_start) = 1"
    by code_simp+
  show "state_lastBatchNonces (ch_peggy sample_start) token = 0"
    using deploy_batch_nonces [OF sample_deploy] by simp
qed

lemma sample_checkpoint: "checkpoint sample_crypto g x = 1"
  by (simp add: checkpoint_def makeCheckpoint_def contract_crypto_def sample_abi_def sample_enc_def)

lemma sample_args_in_range:
  "laid_out unary_geth sigOf (vs_Members sample_valset) a \<Longrightarrow>
     valset_in_range (valset_args unary_geth sample_valset (rp_validators a) (rp_powers a))"
  "valset_in_range (new_valset_args unary_geth sample_new_valset)"
  by (simp_all add: laid_out_def laid_out_args valset_in_range_def new_valset_args_sel valset_args_def
      sample_valset_def sample_new_valset_def is_uint256_def big_SetUint64_def new_valset_args_def validatorsAndPowers_def)



end
