(* ===== verification/OracleProgress.thy ===== *)
theory OracleProgress
  imports Orchestrator
begin

text \<open>
  What the oracle (\<open>orchestrator/oracle.go\<close>) achieves over many iterations, beside nodes that answer as the two
  chains do. A \<open>chain_view\<close> observes the outside: the events the contract has emitted, the last block that is
  final on Ethereum, and the nonce of the validator's last claim on Injective. The laws state what the
  Ethereum node and Injective's peggy module document; the oracle's code is the one of \<open>Oracle\<close>.
\<close>

section \<open>Views of the two chains\<close>

record 'e chain_view =
  cv_events :: "event list"
  cv_final :: "'e \<Rightarrow> u64"
  cv_claimed :: "'e \<Rightarrow> u64"

fun event_height :: "event \<Rightarrow> u64" where
  "event_height (oldDeposit e) = sc_BlockNumber e"
| "event_height (deposit e) = si_BlockNumber e"
| "event_height (valsetUpdate e) = vu_BlockNumber e"
| "event_height (withdrawal e) = be_BlockNumber e"
| "event_height (erc20Deployment e) = ed_BlockNumber e"

text \<open>Finality and claims are not taken back.\<close>

definition advances :: "'e chain_view \<Rightarrow> 'e \<Rightarrow> 'e \<Rightarrow> bool" where
  "advances V x x' \<longleftrightarrow> cv_final V x \<le> cv_final V x' \<and> cv_claimed V x \<le> cv_claimed V x'"

definition grows :: "'e chain_view \<Rightarrow> 'e world \<Rightarrow> 'e world \<Rightarrow> bool" where
  "grows V w w' \<longleftrightarrow> advances V (outside w) (outside w')"

interpretation grows: env_frame "grows V" "advances V" for V
  by unfold_locales (auto simp: grows_def advances_def pause_in_def)

text \<open>The contract numbers its events from 1, in the order of the blocks they are in.\<close>

definition well_numbered :: "event list \<Rightarrow> bool" where
  "well_numbered es \<longleftrightarrow> map (\<lambda>e. uint (Nonce e)) es = [1 .. int (length es)] \<and> sorted (map event_height es)"

definition range_events :: "event list \<Rightarrow> u64 \<Rightarrow> u64 \<Rightarrow> event list" where
  "range_events es x y = filter (\<lambda>e. x \<le> event_height e \<and> event_height e \<le> y) es"

text \<open>
  A filter call of the bound contract answers, for a range of final blocks, with a subscription that ends without
  error and whose logs are those of the contract's events of one kind in that range: the parser reads them so.
\<close>

definition filter_laws ::
  "'e chain_view \<Rightarrow> 'e eth_network \<Rightarrow> (event \<Rightarrow> 'ev option) \<Rightarrow> ('e bind_contract \<Rightarrow> types_Log \<Rightarrow> goerr + 'ev) \<Rightarrow>
     string \<Rightarrow> abi_value list list \<Rightarrow> bool" where
  "filter_laws V n sel parse name rules \<longleftrightarrow> (\<forall>c x y s.
     NewPeggyFilterer (en_bind n) (peggyAddress (en_PeggyContract n)) (evmProvider (EVMCommitter (en_PeggyContract n))) = Inr c \<longrightarrow>
     (let (r, s') = ct_FilterLogs c \<lparr>opts_Start = x, opts_End = Some y\<rparr> name rules s in advances V s s' \<and>
       (\<forall>ch sub. r = Inr (ch, sub) \<longrightarrow> (\<forall>s. advances V s (Unsubscribe sub s)) \<and>
         (y \<le> cv_final V s \<longrightarrow> (\<exists>lgs rest. ch = channel lgs None rest \<and>
            map (parse c) (lgs @ rest) = map Inr (List.map_filter sel (range_events (cv_events V) x y)))))))"

fun as_oldDeposit :: "event \<Rightarrow> PeggySendToCosmosEvent option" where
  "as_oldDeposit (oldDeposit e) = Some e" | "as_oldDeposit _ = None"

fun as_deposit :: "event \<Rightarrow> PeggySendToInjectiveEvent option" where
  "as_deposit (deposit e) = Some e" | "as_deposit _ = None"

fun as_valsetUpdate :: "event \<Rightarrow> PeggyValsetUpdatedEvent option" where
  "as_valsetUpdate (valsetUpdate e) = Some e" | "as_valsetUpdate _ = None"

fun as_withdrawal :: "event \<Rightarrow> PeggyTransactionBatchExecutedEvent option" where
  "as_withdrawal (withdrawal e) = Some e" | "as_withdrawal _ = None"

fun as_erc20Deployment :: "event \<Rightarrow> PeggyERC20DeployedEvent option" where
  "as_erc20Deployment (erc20Deployment e) = Some e" | "as_erc20Deployment _ = None"

text \<open>The Ethereum node; a block with 12 blocks on top is final.\<close>

definition node_laws :: "'e chain_view \<Rightarrow> 'e eth_network \<Rightarrow> bool" where
  "node_laws V n \<longleftrightarrow>
     (\<forall>s. let (r, s') = HeaderByNumber (en_node n) s in advances V s s' \<and>
        (\<forall>h. r = Inr h \<longrightarrow> 0 \<le> h \<and> h < 2 ^ 64 \<and> h - 12 \<le> uint (cv_final V s'))) \<and>
     filter_laws V n as_oldDeposit ParseSendToCosmosEvent ''SendToCosmosEvent'' [[], [], []] \<and>
     filter_laws V n as_deposit ParseSendToInjectiveEvent ''SendToInjectiveEvent'' [[], [], []] \<and>
     filter_laws V n as_withdrawal ParseTransactionBatchExecutedEvent ''TransactionBatchExecutedEvent'' [[], []] \<and>
     filter_laws V n as_erc20Deployment ParseERC20DeployedEvent ''ERC20DeployedEvent'' [[]] \<and>
     filter_laws V n as_valsetUpdate ParseValsetUpdatedEvent ''ValsetUpdatedEvent'' [[]]"

text \<open>
  Injective: the query for the last claim answers with its nonce and the height of that event, or with height 0
  when there is none; an accepted claim is counted.
\<close>

definition claim_laws :: "'e chain_view \<Rightarrow> string \<Rightarrow> 'e peggytypes_QueryClient \<Rightarrow> 'e broadcastClient \<Rightarrow> bool" where
  "claim_laws V addr q b \<longleftrightarrow>
     (\<forall>s. advances V s (snd (q_CurrentValset q s))) \<and>
     (\<forall>s. let (r, s') = q_LastEventByAddr q addr s in advances V s s' \<and>
        (\<forall>c. r = Inr (Some (Some c)) \<longrightarrow> lc_EthereumEventNonce c = cv_claimed V s' \<and>
           (lc_EthereumEventHeight c = 0 \<or> (\<exists>e \<in> set (cv_events V). Nonce e = lc_EthereumEventNonce c \<and>
              event_height e = lc_EthereumEventHeight c)))) \<and>
     (\<forall>msg s. let (r, s') = BroadcastMsg (ChainClient b) msg s in advances V s s' \<and>
        (\<forall>raw k. r = Inr (0, raw) \<longrightarrow> claim_nonce msg = Some k \<longrightarrow> k \<le> cv_claimed V s')) \<and>
     (\<forall>d s. advances V s (time_Sleep (ChainClient b) d s))"

definition honest_nodes ::
  "'e chain_view \<Rightarrow> 'e Orchestrator \<Rightarrow> 'e peggytypes_QueryClient \<Rightarrow> 'e broadcastClient \<Rightarrow> ('e, 'tx, 'vals) rpcClient \<Rightarrow>
     'e eth_network \<Rightarrow> bool" where
  "honest_nodes V l q b t n \<longleftrightarrow> injective l = network_of q b t \<and> ethereum l = eth_of n \<and>
     node_laws V n \<and> claim_laws V (AccAddressString (bc_sdk b) (CosmosAddr (cfg l))) q b \<and>
     retry_laws_in (advances V) (retry_Do l) \<and> (\<forall>d s. advances V s (o_sleep l d s))"

definition bridge_laws ::
  "'e chain_view \<Rightarrow> 'e Orchestrator \<Rightarrow> 'e peggytypes_QueryClient \<Rightarrow> 'e broadcastClient \<Rightarrow> ('e, 'tx, 'vals) rpcClient \<Rightarrow>
     'e eth_network \<Rightarrow> bool" where
  "bridge_laws V l q b t n \<longleftrightarrow> well_numbered (cv_events V) \<and> honest_nodes V l q b t n"

section \<open>The oracle's calls\<close>

lemma lib_grows:
  assumes "\<And>x. advances V x (snd (f x))"
  shows "keeps (grows V) (lib f)"
proof (rule keepsI)
  fix w r w'
  assume "lib f w = (r, w')"
  then show "grows V w w'"
    using assms [of "outside w"] by (auto simp: io_simps grows_def split: prod.splits sum.splits)
qed

lemma convert_grows: "keeps (grows V) (convert_bytes32 out)"
  by (rule keepsI) (auto dest: convert_same simp: grows.P_refl)

lemma query_grows: "(\<And>x. advances V x (snd (f x))) \<Longrightarrow> keeps (grows V) (query msg f)"
  unfolding query_def by (intro grows.keeps_rules lib_grows)

lemma filter_lawsD:
  assumes "filter_laws V n sel parse name rules"
    and "NewPeggyFilterer (en_bind n) (peggyAddress (en_PeggyContract n)) (evmProvider (EVMCommitter (en_PeggyContract n))) = Inr c"
    and "ct_FilterLogs c \<lparr>opts_Start = x, opts_End = Some y\<rparr> name rules s = (r, s')"
  shows "advances V s s'"
    and "r = Inr (ch, sub) \<Longrightarrow> advances V z (Unsubscribe sub z)"
    and "r = Inr (ch, sub) \<Longrightarrow> y \<le> cv_final V s \<Longrightarrow> \<exists>lgs rest. ch = channel lgs None rest \<and>
      map (parse c) (lgs @ rest) = map Inr (List.map_filter sel (range_events (cv_events V) x y))"
  using assms(1) [unfolded filter_laws_def, rule_format, OF assms(2), of x y s] assms(3) by auto

lemma get_events_grows:
  assumes laws: "filter_laws V n sel parse name rules"
    and filterEvent: "\<And>c opts. filterEvent c opts = new_iterator c name opts rules"
  shows "keeps (grows V) (get_events n msg filterEvent (it_Next K) x y)"
proof (rule keepsI)
  fix w r w'
  assume "get_events n msg filterEvent (it_Next K) x y w = (r, w')"
  from this filterEvent show "grows V w w'"
  proof (cases rule: get_events_cases)
    case none
    then show ?thesis by (simp add: grows.P_refl)
  next
    case (error c err s)
    with filter_lawsD(1) [OF laws error(1,2)] show ?thesis by (simp add: grows_def)
  next
    case (loops c ch sub s)
    with filter_lawsD(1) [OF laws loops(1,2)] show ?thesis by (simp add: grows_def)
  next
    case (closes c ch sub s es)
    with filter_lawsD(1) [OF laws closes(1,2)] filter_lawsD(2) [OF laws closes(1,2) refl, of s]
    show ?thesis by (auto simp: grows_def advances_def)
  qed
qed

lemma get_events_Ok:
  assumes laws: "filter_laws V n sel parse name rules"
    and filterEvent: "\<And>c opts. filterEvent c opts = new_iterator c name opts rules"
    and parse: "\<And>c. parse c = parse_log K c name"
    and run: "get_events n msg filterEvent (it_Next K) x y w = (Ok es, w')" and final: "y \<le> cv_final V (outside w)"
  shows "es = List.map_filter sel (range_events (cv_events V) x y)"
  using run filterEvent
proof (cases rule: get_events_cases)
  case (closes c ch sub s es')
  then obtain lgs rest where ch: "ch = channel lgs None rest"
    "map (parse_log K c name) (lgs @ rest) = map Inr (List.map_filter sel (range_events (cv_events V) x y))"
    using filter_lawsD(3) [OF laws closes(1,2) refl final] parse by auto
  show ?thesis
    using get_events_channel [where filterEvent = filterEvent, OF closes(1) filterEvent closes(2) [unfolded ch(1)], of msg K]
      run ch(2) by simp
qed (blast | simp)+

lemma bridge_lawsD:
  assumes "bridge_laws V l q b t n"
  shows "injective l = network_of q b t" "ethereum l = eth_of n" "well_numbered (cv_events V)"
    "retry_laws (retry_Do l)" "retry_laws_in (advances V) (retry_Do l)" "advances V s (o_sleep l d s)"
    "filter_laws V n as_oldDeposit ParseSendToCosmosEvent ''SendToCosmosEvent'' [[], [], []]"
    "filter_laws V n as_deposit ParseSendToInjectiveEvent ''SendToInjectiveEvent'' [[], [], []]"
    "filter_laws V n as_withdrawal ParseTransactionBatchExecutedEvent ''TransactionBatchExecutedEvent'' [[], []]"
    "filter_laws V n as_erc20Deployment ParseERC20DeployedEvent ''ERC20DeployedEvent'' [[]]"
    "filter_laws V n as_valsetUpdate ParseValsetUpdatedEvent ''ValsetUpdatedEvent'' [[]]"
    "advances V s (snd (HeaderByNumber (en_node n) s))" "advances V s (snd (q_CurrentValset q s))"
    "advances V s (snd (q_LastEventByAddr q (AccAddressString (bc_sdk b) (CosmosAddr (cfg l))) s))"
    "advances V s (snd (BroadcastMsg (ChainClient b) msg s))" "advances V s (time_Sleep (ChainClient b) d s)"
  using assms retry_laws_any
  by (auto simp: bridge_laws_def honest_nodes_def node_laws_def claim_laws_def Let_def case_prod_beta)

lemma mem_selected:
  "e \<in> set (map oldDeposit (List.map_filter as_oldDeposit es) @ map deposit (List.map_filter as_deposit es) @
     map withdrawal (List.map_filter as_withdrawal es) @ map valsetUpdate (List.map_filter as_valsetUpdate es) @
     map erc20Deployment (List.map_filter as_erc20Deployment es)) \<longleftrightarrow> e \<in> set es"
proof (induction es)
  case (Cons x es)
  then show ?case by (cases x) (auto simp: List.map_filter_simps)
qed (simp add: List.map_filter_simps)

definition scan_events :: "'e Orchestrator \<Rightarrow> u64 \<Rightarrow> u64 \<Rightarrow> ('e world, captured) io" where
  "scan_events l x y =
     bindE (e_GetSendToCosmosEvents (ethereum l) x y) (\<lambda>oldDepositEvents.
     bindE (e_GetSendToInjectiveEvents (ethereum l) x y) (\<lambda>depositEvents.
     bindE (e_GetTransactionBatchExecutedEvents (ethereum l) x y) (\<lambda>withdrawalEvents.
     bindE (e_GetPeggyERC20DeployedEvents (ethereum l) x y) (\<lambda>erc20DeploymentEvents.
     bindE (e_GetValsetUpdatedEvents (ethereum l) x y) (\<lambda>valsetUpdateEvents.
       ret (EventsVar (map oldDeposit oldDepositEvents @ map deposit depositEvents @
         map withdrawal withdrawalEvents @ map valsetUpdate valsetUpdateEvents @
         map erc20Deployment erc20DeploymentEvents)))))))"

lemma getters_grow:
  assumes "bridge_laws V l q b t n"
  shows "keeps (grows V) (e_GetSendToCosmosEvents (ethereum l) x y)"
    and "keeps (grows V) (e_GetSendToInjectiveEvents (ethereum l) x y)"
    and "keeps (grows V) (e_GetTransactionBatchExecutedEvents (ethereum l) x y)"
    and "keeps (grows V) (e_GetPeggyERC20DeployedEvents (ethereum l) x y)"
    and "keeps (grows V) (e_GetValsetUpdatedEvents (ethereum l) x y)"
  unfolding bridge_lawsD(2) [OF assms] eth_of_def eth_Network.simps get_events_defs next_defs
  by (rule get_events_grows, rule bridge_lawsD [OF assms], simp add: filter_defs)+

lemma getters_Ok:
  assumes "bridge_laws V l q b t n" "y \<le> cv_final V (outside w)"
  shows "e_GetSendToCosmosEvents (ethereum l) x y w = (Ok r1, w1) \<Longrightarrow> r1 = List.map_filter as_oldDeposit (range_events (cv_events V) x y)"
    and "e_GetSendToInjectiveEvents (ethereum l) x y w = (Ok r2, w2) \<Longrightarrow> r2 = List.map_filter as_deposit (range_events (cv_events V) x y)"
    and "e_GetTransactionBatchExecutedEvents (ethereum l) x y w = (Ok r3, w3) \<Longrightarrow> r3 = List.map_filter as_withdrawal (range_events (cv_events V) x y)"
    and "e_GetPeggyERC20DeployedEvents (ethereum l) x y w = (Ok r4, w4) \<Longrightarrow> r4 = List.map_filter as_erc20Deployment (range_events (cv_events V) x y)"
    and "e_GetValsetUpdatedEvents (ethereum l) x y w = (Ok r5, w5) \<Longrightarrow> r5 = List.map_filter as_valsetUpdate (range_events (cv_events V) x y)"
  unfolding bridge_lawsD(2) [OF assms(1)] eth_of_def eth_Network.simps get_events_defs next_defs
  by (rule bridge_lawsD(7-11) [OF assms(1), THEN get_events_Ok, OF _ _ _ assms(2)];
      simp add: filter_defs parse_defs fun_eq_iff)+

lemma scan_events_grows: "bridge_laws V l q b t n \<Longrightarrow> keeps (grows V) (scan_events l x y)"
  unfolding scan_events_def by (intro grows.keeps_rules getters_grow)

lemma grows_final: "grows V w w' \<Longrightarrow> y \<le> cv_final V (outside w) \<Longrightarrow> y \<le> cv_final V (outside w')"
  by (auto simp: grows_def advances_def)

lemma grows_claimed: "grows V w w' \<Longrightarrow> y \<le> cv_claimed V (outside w) \<Longrightarrow> y \<le> cv_claimed V (outside w')"
  by (auto simp: grows_def advances_def)

lemma scan_events_Ok:
  assumes laws: "bridge_laws V l q b t n" and run: "scan_events l x y w = (Ok (EventsVar es), w')"
    and final: "y \<le> cv_final V (outside w)"
  shows "set es = set (range_events (cv_events V) x y)"
proof -
  obtain r1 w1 r2 w2 r3 w3 r4 w4 r5 where runs:
    "e_GetSendToCosmosEvents (ethereum l) x y w = (Ok r1, w1)"
    "e_GetSendToInjectiveEvents (ethereum l) x y w1 = (Ok r2, w2)"
    "e_GetTransactionBatchExecutedEvents (ethereum l) x y w2 = (Ok r3, w3)"
    "e_GetPeggyERC20DeployedEvents (ethereum l) x y w3 = (Ok r4, w4)"
    "e_GetValsetUpdatedEvents (ethereum l) x y w4 = (Ok r5, w')"
    and es: "es = map oldDeposit r1 @ map deposit r2 @ map withdrawal r3 @ map valsetUpdate r5 @ map erc20Deployment r4"
    using run unfolding scan_events_def by (auto elim!: io_elims)
  have f1: "y \<le> cv_final V (outside w1)" by (rule grows_final [OF keepsD [OF getters_grow(1) [OF laws] runs(1)] final])
  have f2: "y \<le> cv_final V (outside w2)" by (rule grows_final [OF keepsD [OF getters_grow(2) [OF laws] runs(2)] f1])
  have f3: "y \<le> cv_final V (outside w3)" by (rule grows_final [OF keepsD [OF getters_grow(3) [OF laws] runs(3)] f2])
  have f4: "y \<le> cv_final V (outside w4)" by (rule grows_final [OF keepsD [OF getters_grow(4) [OF laws] runs(4)] f3])
  show ?thesis
    unfolding es getters_Ok(1) [OF laws final runs(1)] getters_Ok(2) [OF laws f1 runs(2)] getters_Ok(3) [OF laws f2 runs(3)]
      getters_Ok(4) [OF laws f3 runs(4)] getters_Ok(5) [OF laws f4 runs(5)]
    using mem_selected by blast
qed

lemma getEthEvents_grows: "bridge_laws V l q b t n \<Longrightarrow> keeps (grows V) (getEthEvents l x y)"
  unfolding getEthEvents_def Let_def scan_events_def [symmetric]
  by (intro grows.keeps_rules grows.keeps_retry scan_events_grows) (simp_all add: bridge_lawsD(5))

text \<open>A scan of final blocks finds exactly the events in them.\<close>

lemma getEthEvents_complete:
  assumes laws: "bridge_laws V l q b t n" and run: "getEthEvents l x y w = (Ok es, w')"
    and final: "y \<le> cv_final V (outside w)"
  shows "set es = set (range_events (cv_events V) x y)"
proof -
  obtain v where v: "retry l (scan_events l x y) w = (Ok v, w')" "es = as_events v"
    using run unfolding getEthEvents_def Let_def scan_events_def by (auto elim!: io_elims)
  obtain w1 where w1: "grows V w w1" "scan_events l x y w1 = (Ok v, w')"
    by (rule grows.retry_success [OF bridge_lawsD(5) [OF laws] scan_events_grows [OF laws] v(1)])
  obtain es' where "v = EventsVar es'"
    using w1(2) unfolding scan_events_def by (auto elim!: io_elims)
  with v(2) scan_events_Ok [OF laws _ grows_final [OF w1(1) final]] w1(2) show ?thesis by simp
qed

lemma getLatestEthHeight_grows: "bridge_laws V l q b t n \<Longrightarrow> keeps (grows V) (getLatestEthHeight l)"
  unfolding getLatestEthHeight_def
  by (intro grows.keeps_rules grows.keeps_retry grows.keeps_capture)
    (simp_all add: bridge_lawsD(2,5,12) eth_of_def GetHeaderByNumber_def lib_grows)

lemma getLatestEthHeight_header:
  assumes laws: "bridge_laws V l q b t n" and run: "getLatestEthHeight l w = (Ok head, w')"
  obtains h s where "HeaderByNumber (en_node n) s = (Inr h, outside w')" "uint head = h" "h - 12 \<le> uint (cv_final V (outside w'))"
proof -
  let ?m = "capture (\<lambda>h. HeightVar (big_Uint64 h)) (wrapE ''failed to get latest ethereum header''
      (e_GetHeaderByNumber (ethereum l)))"
  have grows: "keeps (grows V) ?m"
    using laws by (intro grows.keeps_capture grows.keeps_wrapE)
      (simp add: bridge_lawsD(2,12) eth_of_def GetHeaderByNumber_def lib_grows)
  obtain v where v: "retry l ?m w = (Ok v, w')" "head = as_height v"
    using run unfolding getLatestEthHeight_def by (auto elim!: io_elims)
  obtain w1 where "?m w1 = (Ok v, w')"
    by (rule grows.retry_success [OF bridge_lawsD(5) [OF laws] grows v(1)])
  then obtain h where h: "HeaderByNumber (en_node n) (outside w1) = (Inr h, outside w')" "v = HeightVar (big_Uint64 h)"
    using laws by (auto simp: bridge_lawsD(2) eth_of_def GetHeaderByNumber_def io_simps split: prod.splits sum.splits res.splits)
  have range: "0 \<le> h" "h < 2 ^ 64" "h - 12 \<le> uint (cv_final V (outside w'))"
    using laws h(1) by (auto simp: bridge_laws_def honest_nodes_def node_laws_def Let_def case_prod_beta dest: spec [of _ "outside w1"])
  then have "uint head = h"
    using v(2) h(2) by (simp add: big_Uint64_def uint_word_of_int)
  with h(1) range(3) show thesis using that by blast
qed

lemma confirmed_height:
  assumes "ethBlockConfirmationDelay < head"
  shows "uint (head - ethBlockConfirmationDelay) = uint head - 12"
  using assms by (simp add: uint_minus_simple_alt [symmetric] uint_sub_if' ethBlockConfirmationDelay_def word_less_def word_le_def)

lemma getLatestEthHeight_final:
  assumes laws: "bridge_laws V l q b t n" and run: "getLatestEthHeight l w = (Ok head, w')"
    and "ethBlockConfirmationDelay < head"
  shows "head - ethBlockConfirmationDelay \<le> cv_final V (outside w')"
  by (rule getLatestEthHeight_header [OF laws run]) (simp add: word_le_def confirmed_height [OF assms(3)])

lemma lastClaim_grows:
  "bridge_laws V l q b t n \<Longrightarrow> keeps (grows V) (n_LastClaimEventByAddr (injective l) (CosmosAddr (cfg l)))"
  by (simp add: bridge_lawsD(1,14) network_sel LastClaimEventByAddr_def query_grows)

definition claim_seen :: "'e chain_view \<Rightarrow> LastClaimEvent \<Rightarrow> 'e \<Rightarrow> bool" where
  "claim_seen V c s \<longleftrightarrow> lc_EthereumEventNonce c = cv_claimed V s \<and>
     (lc_EthereumEventHeight c = 0 \<or> (\<exists>e \<in> set (cv_events V). Nonce e = lc_EthereumEventNonce c \<and>
        event_height e = lc_EthereumEventHeight c))"

lemma lastClaim_seen:
  assumes laws: "bridge_laws V l q b t n"
    and "n_LastClaimEventByAddr (injective l) (CosmosAddr (cfg l)) w = (Ok (Some c), w')"
  shows "claim_seen V c (outside w')"
proof -
  have "q_LastEventByAddr q (AccAddressString (bc_sdk b) (CosmosAddr (cfg l))) (outside w) = (Inr (Some (Some c)), outside w')"
    using assms(2) laws by (auto simp: bridge_lawsD(1) network_sel LastClaimEventByAddr_def query_eq
        split: prod.splits sum.splits option.splits)
  then show ?thesis
    using laws by (force simp: bridge_laws_def honest_nodes_def claim_laws_def claim_seen_def Let_def case_prod_beta dest: spec [of _ "outside w"])
qed

lemma getLastClaimEvent_grows: "bridge_laws V l q b t n \<Longrightarrow> keeps (grows V) (getLastClaimEvent l)"
  unfolding getLastClaimEvent_def
  by (intro grows.keeps_rules grows.keeps_retry grows.keeps_capture lastClaim_grows bridge_lawsD(5))

lemma getLastClaimEvent_seen:
  assumes laws: "bridge_laws V l q b t n" and run: "getLastClaimEvent l w = (Ok (Some c), w')"
  shows "claim_seen V c (outside w')"
proof -
  let ?m = "capture ClaimVar (n_LastClaimEventByAddr (injective l) (CosmosAddr (cfg l)))"
  obtain v where v: "retry l ?m w = (Ok v, w')" "Some c = as_claim v"
    using run unfolding getLastClaimEvent_def by (auto elim!: io_elims)
  obtain w1 where "?m w1 = (Ok v, w')"
    by (rule grows.retry_success [OF bridge_lawsD(5) [OF laws] grows.keeps_capture [OF lastClaim_grows [OF laws]] v(1)])
  then obtain c' where "n_LastClaimEventByAddr (injective l) (CosmosAddr (cfg l)) w1 = (Ok c', w')" "v = ClaimVar c'"
    by (auto simp: io_simps split: prod.splits res.splits)
  with v(2) lastClaim_seen [OF laws] show ?thesis by auto
qed

section \<open>Claims that are sent are counted\<close>

lemma broadcast_msg_grows:
  assumes "bridge_laws V l q b t n"
  shows "keeps (grows V) (broadcast_msg b name msg)"
proof (rule keepsI)
  fix w r w'
  assume "broadcast_msg b name msg w = (r, w')"
  then have "outside w' = time_Sleep (ChainClient b) broadcastMsgSleepDuration (snd (BroadcastMsg (ChainClient b) msg (outside w)))"
    by (auto simp: broadcast_msg_def Let_def split: prod.splits sum.splits if_splits)
  then show "grows V w w'"
    using bridge_lawsD(15) [OF assms, of "outside w" msg]
      bridge_lawsD(16) [OF assms, of "snd (BroadcastMsg (ChainClient b) msg (outside w))" broadcastMsgSleepDuration]
    by (auto simp: grows_def advances_def)
qed

lemma broadcast_msg_claims:
  assumes laws: "bridge_laws V l q b t n" and "broadcast_msg b name msg w = (Ok (), w')" "claim_nonce msg = Some k"
  shows "k \<le> cv_claimed V (outside w')"
proof -
  obtain raw s' where s': "BroadcastMsg (ChainClient b) msg (outside w) = (Inr (0, raw), s')"
    "outside w' = time_Sleep (ChainClient b) broadcastMsgSleepDuration s'"
    using assms(2) by (auto simp: broadcast_msg_def Let_def split: prod.splits sum.splits if_splits)
  have "let (r, s') = BroadcastMsg (ChainClient b) msg (outside w) in advances V (outside w) s' \<and>
      (\<forall>raw k. r = Inr (0, raw) \<longrightarrow> claim_nonce msg = Some k \<longrightarrow> k \<le> cv_claimed V s')"
    using laws unfolding bridge_laws_def honest_nodes_def claim_laws_def by blast
  then have "k \<le> cv_claimed V s'" using s'(1) assms(3) by simp
  also have "\<dots> \<le> cv_claimed V (outside w')"
    unfolding s'(2) using bridge_lawsD(16) [OF laws] by (simp add: advances_def)
  finally show ?thesis .
qed

lemmas claim_defs = network_of_def SendOldDepositClaim_def SendDepositClaim_def SendWithdrawalClaim_def
  SendValsetClaim_def SendERC20DeployedClaim_def old_deposit_msg_def deposit_msg_def withdrawal_msg_def
  valset_msg_def erc20_msg_def Let_def

lemma sendEthEventClaim_grows:
  assumes "bridge_laws V l q b t n"
  shows "keeps (grows V) (sendEthEventClaim l e)"
proof (cases e)
  case (valsetUpdate v)
  then show ?thesis
    unfolding sendEthEventClaim.simps bridge_lawsD(1) [OF assms] network_of_def Let_def Network.simps SendValsetClaim_def valsetUpdate
    by (intro grows.keeps_rules broadcast_msg_grows [OF assms])
qed (simp_all add: bridge_lawsD(1) [OF assms] claim_defs broadcast_msg_grows [OF assms])

lemma sendEthEventClaim_claims:
  assumes "bridge_laws V l q b t n" "sendEthEventClaim l e w = (Ok (), w')"
  shows "Nonce e \<le> cv_claimed V (outside w')"
proof -
  obtain name msg w1 where "broadcast_msg b name msg w1 = (Ok (), w')" "claim_nonce msg = Some (Nonce e)"
  proof (cases e)
    case (valsetUpdate v)
    then obtain members where "broadcast_msg b ''MsgValsetUpdatedClaim'' (valset_msg b v members) w = (Ok (), w')"
      using assms(2) by (auto simp: bridge_lawsD(1) [OF assms(1)] network_of_def Let_def SendValsetClaim_def io_simps
          elim!: io_elims split: res.splits)
    then show ?thesis using that valsetUpdate by (auto simp: valset_msg_def)
  qed (use assms(2) that in \<open>force simp: bridge_lawsD(1) [OF assms(1)] claim_defs\<close>)+
  then show ?thesis by (rule broadcast_msg_claims [OF assms(1)])
qed

lemma send_claims_grows: "bridge_laws V l q b t n \<Longrightarrow> keeps (grows V) (send_claims l es)"
  unfolding send_claims_def
  by (intro grows.keeps_rules grows.keeps_sleep_in sendEthEventClaim_grows bridge_lawsD(6))

lemma send_claims_claimed:
  assumes laws: "bridge_laws V l q b t n"
  shows "send_claims l es w = (Ok (), w') \<Longrightarrow> e \<in> set es \<Longrightarrow> Nonce e \<le> cv_claimed V (outside w')"
proof (induction es arbitrary: w)
  case (Cons x es)
  from Cons.prems(1) obtain w1 w2 where
    1: "sendEthEventClaim l x w = (Ok (), w1)" "sleep l (1100 * 1000000) w1 = (Ok (), w2)" "send_claims l es w2 = (Ok (), w')"
    by (auto simp: send_claims_def elim!: io_elims)
  have "grows V w1 w2"
    using keepsD [OF grows.keeps_sleep_in [OF bridge_lawsD(6) [OF laws]] 1(2)] .
  moreover have "grows V w2 w'" using keepsD [OF send_claims_grows [OF laws] 1(3)] .
  ultimately have "Nonce x \<le> cv_claimed V (outside w')"
    using sendEthEventClaim_claims [OF laws 1(1)] by (blast intro: grows_claimed)
  then show ?case using Cons.IH [OF 1(3)] Cons.prems(2) by auto
qed simp

lemma sendEventsFn_grows: "bridge_laws V l q b t n \<Longrightarrow> keeps (grows V) (sendEventsFn l es)"
  unfolding sendEventsFn_def Let_def by (intro grows.keeps_rules lastClaim_grows send_claims_grows)

lemma sendNewEventClaims_grows: "bridge_laws V l q b t n \<Longrightarrow> keeps (grows V) (sendNewEventClaims l es)"
  unfolding sendNewEventClaims_def
  by (intro grows.keeps_rules grows.keeps_retry grows.keeps_capture sendEventsFn_grows bridge_lawsD(5))

lemma sendNewEventClaims_claimed:
  assumes laws: "bridge_laws V l q b t n" and run: "sendNewEventClaims l es w = (Ok (), w')" and e: "e \<in> set es"
  shows "Nonce e \<le> cv_claimed V (outside w')"
proof -
  obtain v where "retry l (capture (\<lambda>_. NoVar) (sendEventsFn l es)) w = (Ok v, w')"
    using run by (auto simp: sendNewEventClaims_def elim!: io_elims)
  then obtain w1 where "capture (\<lambda>_. NoVar) (sendEventsFn l es) w1 = (Ok v, w')"
    using grows.retry_success [OF bridge_lawsD(5) [OF laws] grows.keeps_capture [OF sendEventsFn_grows [OF laws]]] by metis
  then have "sendEventsFn l es w1 = (Ok (), w')"
    by (auto simp: io_simps split: prod.splits res.splits)
  then obtain c w2 where c: "n_LastClaimEventByAddr (injective l) (CosmosAddr (cfg l)) w1 = (Ok (Some c), w2)"
    and rest: "filterEvents es (lc_EthereumEventNonce c) = [] \<and> w' = w2 \<or>
      send_claims l (filterEvents es (lc_EthereumEventNonce c)) w2 = (Ok (), w')"
    by (auto simp: sendEventsFn_def Let_def elim!: io_elims split: if_splits)
  have seen: "lc_EthereumEventNonce c = cv_claimed V (outside w2)"
    using lastClaim_seen [OF laws c] by (simp add: claim_seen_def)
  have "grows V w2 w'" using rest keepsD [OF send_claims_grows [OF laws]] grows.P_refl by blast
  then show ?thesis
  proof (cases "Nonce e \<le> lc_EthereumEventNonce c")
    case True
    then show ?thesis using grows_claimed [OF \<open>grows V w2 w'\<close>] seen by simp
  next
    case False
    then have "e \<in> set (filterEvents es (lc_EthereumEventNonce c))" using e by (simp add: filterEvents_def not_le)
    then show ?thesis using rest send_claims_claimed [OF laws] by force
  qed
qed

section \<open>No confirmed event is missed\<close>

text \<open>The invariant: every event below the observed height is claimed.\<close>

definition covered :: "'e chain_view \<Rightarrow> oracle_state \<Rightarrow> 'e world \<Rightarrow> bool" where
  "covered V s w \<longleftrightarrow> (\<forall>e \<in> set (cv_events V). event_height e < lastObservedEthHeight s \<longrightarrow>
     Nonce e \<le> cv_claimed V (outside w))"

lemma covered_grows: "covered V s w \<Longrightarrow> grows V w w' \<Longrightarrow> covered V s w'"
  unfolding covered_def by (blast intro: grows_claimed)

lemma well_numbered_nth:
  assumes "well_numbered es" "i < length es"
  shows "uint (Nonce (es ! i)) = int i + 1"
proof -
  have "map (\<lambda>e. uint (Nonce e)) es ! i = [1 .. int (length es)] ! i" using assms(1) by (simp add: well_numbered_def)
  then show ?thesis using assms(2) by simp
qed

lemma well_numbered_height:
  assumes "well_numbered es" "e \<in> set es" "e' \<in> set es" "Nonce e \<le> Nonce e'"
  shows "event_height e \<le> event_height e'"
proof -
  obtain i j where ij: "e = es ! i" "i < length es" "e' = es ! j" "j < length es"
    using assms(2,3) by (metis in_set_conv_nth)
  then have "i \<le> j" using assms(1,4) by (simp add: word_le_def well_numbered_nth)
  then show ?thesis
    using assms(1) ij sorted_nth_mono [of "map event_height es" i j] by (simp add: well_numbered_def)
qed

lemma well_numbered_next:
  assumes "well_numbered es" "e \<in> set es" "c < Nonce e"
  obtains e' where "e' \<in> set es" "Nonce e' = c + 1" "Nonce e' \<le> Nonce e" "c < Nonce e'"
proof -
  obtain j where j: "e = es ! j" "j < length es" using assms(2) by (metis in_set_conv_nth)
  let ?i = "unat c"
  have "uint c < int j + 1" using assms(1,3) j by (simp add: word_less_def well_numbered_nth)
  then have "int ?i < int j + 1" by simp
  then have i: "?i < length es" using j(2) by linarith
  have n: "uint (Nonce (es ! ?i)) = uint c + 1" using well_numbered_nth [OF assms(1) i] by simp
  have "uint (c + 1) = uint c + 1"
    using n uint_bounded [of "Nonce (es ! ?i)"] by (simp add: uint_word_ariths mod_pos_pos_trivial)
  then have "Nonce (es ! ?i) = c + 1" using n by (simp add: word_uint_eq_iff)
  moreover have "Nonce (es ! ?i) \<le> Nonce e" using n j \<open>uint c < int j + 1\<close> assms(1) by (simp add: word_le_def well_numbered_nth)
  moreover have "c < Nonce (es ! ?i)" using n by (simp add: word_less_def)
  ultimately show thesis using that i nth_mem by blast
qed

text \<open>
  The first unclaimed event found is the next one to claim: an earlier unclaimed one is not below the observed
  height, by the invariant, nor above the range, by the order of the heights.
\<close>

lemma no_gap:
  assumes laws: "bridge_laws V l q b t n" and cov: "covered V s w"
    and es: "set es = set (range_events (cv_events V) (lastObservedEthHeight s) y)"
    and c: "claim_seen V c (outside w')" and "grows V w w'" and new: "new_events es c \<noteq> []"
  shows "Nonce (hd (new_events es c)) = lc_EthereumEventNonce c + 1"
proof -
  let ?c = "lc_EthereumEventNonce c" and ?h = "hd (new_events es c)"
  have h: "?h \<in> set es" "?c < Nonce ?h"
    using hd_in_set [OF new] new_events_set [of es c] by auto
  then have "?h \<in> set (cv_events V)" "event_height ?h \<le> y" using es by (auto simp: range_events_def)
  then obtain e where e: "e \<in> set (cv_events V)" "Nonce e = ?c + 1" "Nonce e \<le> Nonce ?h" "?c < Nonce e"
    using well_numbered_next [OF bridge_lawsD(3) [OF laws] _ h(2)] by blast
  have up: "event_height e \<le> y"
    using well_numbered_height [OF bridge_lawsD(3) [OF laws] e(1) \<open>?h \<in> set (cv_events V)\<close> e(3)]
      \<open>event_height ?h \<le> y\<close> by simp
  have claimed: "?c = cv_claimed V (outside w')" using c by (simp add: claim_seen_def)
  note lt = e(4)
  have "\<not> event_height e < lastObservedEthHeight s"
  proof
    assume "event_height e < lastObservedEthHeight s"
    then have "Nonce e \<le> cv_claimed V (outside w')"
      using cov e(1) grows_claimed [OF \<open>grows V w w'\<close>] by (auto simp: covered_def)
    with lt claimed show False by simp
  qed
  then have "e \<in> set es" using e(1) up es by (simp add: range_events_def)
  then have "e \<in> set (new_events es c)" using lt new_events_set [of es c] by simp
  then have "Nonce ?h \<le> Nonce e"
    using new_events_sorted [of es c] new by (cases "new_events es c") auto
  then show ?thesis using e(2,3) by simp
qed

lemma range_covered:
  assumes "bridge_laws V l q b t n" "covered V s w" "grows V w w'"
    and "\<And>e. e \<in> set (range_events (cv_events V) (lastObservedEthHeight s) y) \<Longrightarrow> Nonce e \<le> cv_claimed V (outside w')"
  shows "covered V (s\<lparr>lastObservedEthHeight := y\<rparr>) w'"
proof -
  have "Nonce e \<le> cv_claimed V (outside w')" if "e \<in> set (cv_events V)" "event_height e < y" for e
  proof (cases "event_height e < lastObservedEthHeight s")
    case True
    then show ?thesis using covered_grows [OF assms(2,3)] that(1) by (simp add: covered_def)
  next
    case False
    then show ?thesis using assms(4) [of e] that by (simp add: range_events_def not_less order_less_imp_le)
  qed
  then show ?thesis by (simp add: covered_def)
qed

lemma scan_range_covered:
  assumes laws: "bridge_laws V l q b t n" and cov: "covered V s w" and final: "y \<le> cv_final V (outside w)"
    and run: "scan_range l s y w = (Ok s', w')"
  shows "s' = s\<lparr>lastObservedEthHeight := y\<rparr> \<and> covered V s' w'"
  using bridge_lawsD(1,2,4) [OF laws] run
proof (cases rule: scan_range_cases)
  case failed
  then show ?thesis using failed(2) [of s'] by simp
next
  case (nothing_new es c w1 w2)
  have es: "set es = set (range_events (cv_events V) (lastObservedEthHeight s) y)"
    by (rule getEthEvents_complete [OF laws nothing_new(1) final])
  have seen: "claim_seen V c (outside w')" using getLastClaimEvent_seen [OF laws nothing_new(2)] nothing_new(6) by simp
  have "grows V w w'"
    using grows.P_trans [OF keepsD [OF getEthEvents_grows [OF laws] nothing_new(1)]
        keepsD [OF getLastClaimEvent_grows [OF laws] nothing_new(2)]] nothing_new(6) by simp
  moreover have "Nonce e \<le> cv_claimed V (outside w')" if "e \<in> set es" for e
    using nothing_new(4) new_events_set [of es c] seen that by (auto simp: claim_seen_def not_less)
  ultimately show ?thesis
    using nothing_new(5) range_covered [OF laws cov] es by simp
next
  case (gap es c w1 w2)
  have "set es = set (range_events (cv_events V) (lastObservedEthHeight s) y)"
    by (rule getEthEvents_complete [OF laws gap(1) final])
  from no_gap [OF laws cov this getLastClaimEvent_seen [OF laws gap(2)] _ gap(4)]
  have "Nonce (hd (new_events es c)) = lc_EthereumEventNonce c + 1"
    using grows.P_trans [OF keepsD [OF getEthEvents_grows [OF laws] gap(1)]
        keepsD [OF getLastClaimEvent_grows [OF laws] gap(2)]] by blast
  with gap(5) show ?thesis by simp
next
  case (claiming es c w1 w2 r1)
  have r1: "r1 = Ok ()" and s': "s' = s\<lparr>lastObservedEthHeight := y\<rparr>" using claiming(7) [OF refl] by simp_all
  have es: "set es = set (range_events (cv_events V) (lastObservedEthHeight s) y)"
    by (rule getEthEvents_complete [OF laws claiming(1) final])
  have w2: "grows V w w2"
    using grows.P_trans [OF keepsD [OF getEthEvents_grows [OF laws] claiming(1)]
        keepsD [OF getLastClaimEvent_grows [OF laws] claiming(2)]] .
  have sent: "grows V w2 w'" using keepsD [OF sendNewEventClaims_grows [OF laws] claiming(6)] .
  have seen: "lc_EthereumEventNonce c = cv_claimed V (outside w2)"
    using getLastClaimEvent_seen [OF laws claiming(2)] by (simp add: claim_seen_def)
  have "Nonce e \<le> cv_claimed V (outside w')" if "e \<in> set es" for e
  proof (cases "Nonce e \<le> lc_EthereumEventNonce c")
    case True
    then show ?thesis using grows_claimed [OF sent] seen by simp
  next
    case False
    then have "e \<in> set (new_events es c)" using that new_events_set [of es c] by (simp add: not_le)
    then show ?thesis by (rule sendNewEventClaims_claimed [OF laws claiming(6) [unfolded r1]])
  qed
  then show ?thesis
    using s' range_covered [OF laws cov grows.P_trans [OF w2 sent]] es by simp
qed

lemma valset_grows: "bridge_laws V l q b t n \<Longrightarrow> keeps (grows V) (n_CurrentValset (injective l))"
  by (simp add: bridge_lawsD(1,13) network_sel CurrentValset_def query_grows)

lemma observe_grows: "bridge_laws V l q b t n \<Longrightarrow> keeps (grows V) (observeEthEvents l s)"
  unfolding observeEthEvents_def scan_range_def Let_def
  by (intro grows.keeps_rules valset_grows getLatestEthHeight_grows getEthEvents_grows getLastClaimEvent_grows
      sendNewEventClaims_grows)

text \<open>A successful iteration leaves the oracle where it is, or moves it to the end of the range it scanned.\<close>

lemma observe_covered:
  assumes laws: "bridge_laws V l q b t n" and cov: "covered V s w"
    and run: "observeEthEvents l s w = (Ok s', w')"
  shows "covered V s' w' \<and> (s' = s \<or> (\<exists>head. lastObservedEthHeight s < head - 12 \<and>
    s' = s\<lparr>lastObservedEthHeight := scan_end (lastObservedEthHeight s) (head - 12)\<rparr>))"
  using bridge_lawsD(1,2,4) [OF laws] run
proof (cases rule: observeEthEvents_cases)
  case idle
  then show ?thesis using covered_grows [OF cov keepsD [OF observe_grows [OF laws] run]] by simp
next
  case (scans vs head w1 w2)
  let ?y = "scan_end (lastObservedEthHeight s) (head - ethBlockConfirmationDelay)"
  have w2: "grows V w w2"
    using grows.P_trans [OF keepsD [OF valset_grows [OF laws] scans(7)]
        keepsD [OF getLatestEthHeight_grows [OF laws] scans(2)]] .
  have "?y \<le> head - ethBlockConfirmationDelay" by (simp add: scan_end_def order_less_imp_le)
  then have "?y \<le> cv_final V (outside w2)"
    using getLatestEthHeight_final [OF laws scans(2,4)] by simp
  from scan_range_covered [OF laws covered_grows [OF cov w2] this scans(6)] scans(5) show ?thesis
    unfolding ethBlockConfirmationDelay_def by blast
qed

section \<open>Runs of the oracle\<close>

text \<open>
  The oracle's iterations that end without error, one after the other, from one state to another. In between, and
  while it sleeps, the rest of the process and the two chains go on.
\<close>

inductive oracle_iterates ::
  "'e chain_view \<Rightarrow> 'e Orchestrator \<Rightarrow> oracle_state \<Rightarrow> 'e world \<Rightarrow> nat \<Rightarrow> oracle_state \<Rightarrow> 'e world \<Rightarrow> bool"
  for V :: "'e chain_view" and l :: "'e Orchestrator" and s :: oracle_state and w :: "'e world" where
  begins: "oracle_iterates V l s w 0 s w"
| waits: "oracle_iterates V l s w k s1 w1 \<Longrightarrow> grows V w1 w2 \<Longrightarrow> oracle_iterates V l s w k s1 w2"
| iterates: "oracle_iterates V l s w k s1 w1 \<Longrightarrow> observeEthEvents l s1 w1 = (Ok s2, w2) \<Longrightarrow>
    oracle_iterates V l s w (Suc k) s2 w2"

lemma oracle_iterates_covered:
  assumes "oracle_iterates V l s w k s' w'" "bridge_laws V l q b t n" "covered V s w"
  shows "covered V s' w'"
  using assms
proof induction
  case (waits k s1 w1 w2)
  then show ?case by (blast intro: covered_grows)
next
  case (iterates k s1 w1 s2 w2)
  then show ?case using observe_covered by blast
qed

text \<open>Where the oracle starts: the height of the last claim, or the one the bridge was deployed at.\<close>

definition start_laws :: "'e chain_view \<Rightarrow> 'e peggytypes_QueryClient \<Rightarrow> 'e eth_network \<Rightarrow> bool" where
  "start_laws V q n \<longleftrightarrow>
     (\<forall>s. let (r, s') = q_Params q s in advances V s s' \<and>
        (\<forall>p. r = Inr (Some p) \<longrightarrow> (\<forall>e \<in> set (cv_events V). pp_BridgeContractStartHeight p \<le> event_height e))) \<and>
     (\<forall>opts s. advances V s (snd (ct_Call (ethPeggy (en_PeggyContract n)) opts ''state_peggyId'' [] s)))"

lemma claim_height_covered:
  assumes "bridge_laws V l q b t n" "claim_seen V c (outside w)"
  shows "covered V \<lparr>lastResyncWithInjective = x, lastObservedEthHeight = lc_EthereumEventHeight c\<rparr> w"
proof (cases "lc_EthereumEventHeight c = 0")
  case False
  then obtain e' where e': "e' \<in> set (cv_events V)" "Nonce e' = cv_claimed V (outside w)"
      "event_height e' = lc_EthereumEventHeight c" using assms(2) by (auto simp: claim_seen_def)
  have "Nonce e \<le> Nonce e'" if "e \<in> set (cv_events V)" "event_height e < event_height e'" for e
    using well_numbered_height [OF bridge_lawsD(3) [OF assms(1)] e'(1) that(1)] that(2) by (meson leD linear)
  then show ?thesis using e' by (auto simp: covered_def)
qed (simp add: covered_def)

lemma start_covered:
  assumes laws: "bridge_laws V l q b t n" "start_laws V q n"
    and run: "startValidatorMode l (injective l) (ethereum l) w = (Ok (loops, height, pid), w')"
  shows "covered V \<lparr>lastResyncWithInjective = x, lastObservedEthHeight = height\<rparr> w'"
proof -
  obtain h w1 w2 where 1: "value_or 0 (getLastClaimBlockHeight l (injective l)) w = (Ok h, w1)"
    and 2: "(if h = 0 then bindE (attempt (n_PeggyParams (injective l))) (\<lambda>r. case r of
        Inl _ \<Rightarrow> fatal | Inr p \<Rightarrow> ret (pp_BridgeContractStartHeight p)) else ret h) w1 = (Ok height, w2)"
    and 3: "grows V w2 w'"
  proof -
    have id: "keeps (grows V) (e_GetPeggyID (ethereum l))"
      using laws unfolding bridge_lawsD(2) [OF laws(1)] eth_of_def net_GetPeggyID_def GetPeggyID_def StatePeggyId_def
      by (simp add: start_laws_def lib_grows convert_grows grows.keeps_wrapE grows.keeps_bindE)
    obtain h w1 w2 r where *: "value_or 0 (getLastClaimBlockHeight l (injective l)) w = (Ok h, w1)"
      "(if h = 0 then bindE (attempt (n_PeggyParams (injective l))) (\<lambda>r. case r of
        Inl _ \<Rightarrow> fatal | Inr p \<Rightarrow> ret (pp_BridgeContractStartHeight p)) else ret h) w1 = (Ok height, w2)"
      "attempt (e_GetPeggyID (ethereum l)) w2 = (Ok r, w')"
      using run unfolding startValidatorMode_def
      by (auto elim!: bindE_OkE simp: fatal_simp split: sum.splits)
    show thesis using that [OF *(1,2) keepsD [OF grows.keeps_attempt [OF id] *(3)]] .
  qed
  have "covered V \<lparr>lastResyncWithInjective = x, lastObservedEthHeight = height\<rparr> w2"
  proof (cases "h = 0")
    case True
    then obtain p where "q_Params q (outside w1) = (Inr (Some p), outside w2)" "height = pp_BridgeContractStartHeight p"
      using 2 by (auto simp: bridge_lawsD(1) [OF laws(1)] network_sel PeggyParams_def query_eq fatal_simp io_simps
          split: prod.splits sum.splits option.splits res.splits)
    then have "\<forall>e \<in> set (cv_events V). height \<le> event_height e"
      using laws(2) by (auto simp: start_laws_def Let_def case_prod_beta dest: spec [of _ "outside w1"])
    then show ?thesis by (auto simp: covered_def)
  next
    case False
    then have h: "height = h" "w2 = w1" using 2 by simp_all
    then obtain c where "n_LastClaimEventByAddr (injective l) (CosmosAddr (cfg l)) w = (Ok (Some c), w2)"
      "height = lc_EthereumEventHeight c"
      using 1 False unfolding value_or_def getLastClaimBlockHeight_def
      by (auto elim!: bindE_OkE attempt_OkE split: sum.splits)
    then show ?thesis using claim_height_covered [OF laws(1) lastClaim_seen [OF laws(1)]] by simp
  qed
  then show ?thesis by (rule covered_grows [OF _ 3])
qed


section \<open>Every confirmed event is claimed\<close>

text \<open>The validator stays in the active set, and the Ethereum node has seen the block \<open>H\<close>.\<close>

definition keeps_up :: "'e Orchestrator \<Rightarrow> 'e peggytypes_QueryClient \<Rightarrow> 'e eth_network \<Rightarrow> int \<Rightarrow> bool" where
  "keeps_up l q n H \<longleftrightarrow> 12 < H \<and>
     (\<forall>s vs. fst (q_CurrentValset q s) = Inr (Some (Some vs)) \<longrightarrow> bonded l vs) \<and>
     (\<forall>s h. fst (HeaderByNumber (en_node n) s) = Inr h \<longrightarrow> H \<le> h \<and> h < 2 ^ 63)"

lemma observe_progress:
  assumes laws: "bridge_laws V l q b t n" and cov: "covered V s w" and up: "keeps_up l q n H"
    and run: "observeEthEvents l s w = (Ok s', w')" and small: "uint (lastObservedEthHeight s) < 2 ^ 63"
  shows "(H - 12 \<le> uint (lastObservedEthHeight s') \<or>
      uint (lastObservedEthHeight s) + 2000 \<le> uint (lastObservedEthHeight s')) \<and>
    uint (lastObservedEthHeight s) \<le> uint (lastObservedEthHeight s') \<and> uint (lastObservedEthHeight s') < 2 ^ 63"
proof -
  let ?obs = "lastObservedEthHeight s"
  obtain vs w1 where vs: "n_CurrentValset (injective l) w = (Ok (Some vs), w1)"
    and rest: "(if \<not> bonded l vs then ret s else bindE (getLatestEthHeight l) (\<lambda>head.
      if head \<le> ethBlockConfirmationDelay then ret s else
      if head - ethBlockConfirmationDelay \<le> ?obs then ret s else
      scan_range l s (scan_end ?obs (head - ethBlockConfirmationDelay)))) w1 = (Ok s', w')"
    using run unfolding observeEthEvents_def by (auto elim!: io_elims)
  have "fst (q_CurrentValset q (outside w)) = Inr (Some (Some vs))"
    using vs by (auto simp: bridge_lawsD(1) [OF laws] network_sel CurrentValset_def query_eq
        split: prod.splits sum.splits option.splits)
  then have "bonded l vs" using up by (simp add: keeps_up_def)
  then obtain head w2 where head: "getLatestEthHeight l w1 = (Ok head, w2)"
    and rest: "(if head \<le> ethBlockConfirmationDelay then ret s else
      if head - ethBlockConfirmationDelay \<le> ?obs then ret s else
      scan_range l s (scan_end ?obs (head - ethBlockConfirmationDelay))) w2 = (Ok s', w')"
    using rest by (auto elim!: io_elims)
  obtain h x where h: "HeaderByNumber (en_node n) x = (Inr h, outside w2)" "uint head = h"
    by (rule getLatestEthHeight_header [OF laws head])
  then have H: "12 < H" "H \<le> uint head" "uint head < 2 ^ 63"
    using up unfolding keeps_up_def by (metis fst_conv)+
  then have d: "ethBlockConfirmationDelay < head" by (simp add: ethBlockConfirmationDelay_def word_less_def)
  have u: "uint (head - ethBlockConfirmationDelay) = uint head - 12" by (rule confirmed_height [OF d])
  show ?thesis
  proof (cases "head - ethBlockConfirmationDelay \<le> ?obs")
    case True
    then have "s' = s" using rest d by (auto split: if_splits)
    then show ?thesis using True u H small by (simp add: word_le_def)
  next
    case False
    then have scan: "scan_range l s (scan_end ?obs (head - ethBlockConfirmationDelay)) w2 = (Ok s', w')"
      using rest d by (auto split: if_splits)
    have w2: "grows V w w2"
      using grows.P_trans [OF keepsD [OF valset_grows [OF laws] vs] keepsD [OF getLatestEthHeight_grows [OF laws] head]] .
    have b: "?obs < scan_end ?obs (head - ethBlockConfirmationDelay)"
      "scan_end ?obs (head - ethBlockConfirmationDelay) \<le> head - ethBlockConfirmationDelay"
      using scan_end_bounds [of ?obs "head - ethBlockConfirmationDelay"] False small by simp_all
    have "scan_end ?obs (head - ethBlockConfirmationDelay) \<le> cv_final V (outside w2)"
      using b(2) getLatestEthHeight_final [OF laws head d] by simp
    from scan_range_covered [OF laws covered_grows [OF cov w2] this scan]
    have s': "lastObservedEthHeight s' = scan_end ?obs (head - ethBlockConfirmationDelay)" by simp
    have "uint (?obs + 2000) = uint ?obs + 2000"
      using small by (simp add: uint_word_ariths mod_pos_pos_trivial)
    then show ?thesis
      using b s' u H by (auto simp: scan_end_def defaultBlocksToSearch_def word_less_def word_le_def)
  qed
qed

lemma oracle_iterates_progress:
  assumes "oracle_iterates V l s w k s' w'" "bridge_laws V l q b t n" "covered V s w" "keeps_up l q n H"
    and "uint (lastObservedEthHeight s) < 2 ^ 63"
  shows "(H - 12 \<le> uint (lastObservedEthHeight s') \<or>
      uint (lastObservedEthHeight s) + 2000 * int k \<le> uint (lastObservedEthHeight s')) \<and>
    uint (lastObservedEthHeight s') < 2 ^ 63"
  using assms
proof induction
  case (iterates k s1 w1 s2 w2)
  have "covered V s1 w1" using oracle_iterates_covered [OF iterates.hyps(1) iterates.prems(1,2)] .
  from observe_progress [OF iterates.prems(1) this iterates.prems(3) iterates.hyps(2)] iterates.IH iterates.prems
  show ?case by (auto simp: algebra_simps)
qed auto


section \<open>A concrete run\<close>

text \<open>
  Two chains with one event, the one of the deployment: the outside is the number of claims Injective has counted, and the Ethereum node
  answers from the list of the contract's events.
\<close>

definition one_event :: event where
  "one_event = valsetUpdate \<lparr>vu_NewValsetNonce = 0, vu_EventNonce = 1, vu_RewardAmount = 0, vu_RewardToken = 0,
     vu_Validators = [2], vu_Powers = [150], vu_BlockNumber = 10\<rparr>"

definition one_view :: "nat chain_view" where
  "one_view = \<lparr>cv_events = [one_event], cv_final = (\<lambda>_. 88), cv_claimed = (\<lambda>k. if k = 0 then 0 else 1)\<rparr>"

definition one_emitted :: emitted where
  "one_emitted = no_events\<lparr>em_ValsetUpdatedEvents := List.map_filter as_valsetUpdate [one_event]\<rparr>"

definition one_eth :: "nat eth_network" where
  "one_eth = sample_eth\<lparr>en_bind := sample_bindings one_emitted\<rparr>"

definition one_queries :: "nat peggytypes_QueryClient" where
  "one_queries = sample_queries\<lparr>q_LastEventByAddr := (\<lambda>_ k. (Inr (Some (Some
     (if k = 0 then \<lparr>lc_EthereumEventNonce = 0, lc_EthereumEventHeight = 0\<rparr>
      else \<lparr>lc_EthereumEventNonce = 1, lc_EthereumEventHeight = 10\<rparr>))), k))\<rparr>"

definition one_broadcaster :: "nat broadcastClient" where
  "one_broadcaster = sample_broadcaster\<lparr>ChainClient := (ChainClient sample_broadcaster)
     \<lparr>BroadcastMsg := (\<lambda>msg k. if claim_nonce msg \<in> {Some 0, Some 1} then (Inr (0, []), k + 1) else (Inr (1, []), k))\<rparr>\<rparr>"

definition one_orchestrator :: "nat Orchestrator" where
  "one_orchestrator = sample_orchestrator\<lparr>injective := network_of one_queries one_broadcaster sample_rpc,
     ethereum := eth_of one_eth\<rparr>"

definition one_start :: oracle_state where
  "one_start = \<lparr>lastResyncWithInjective = 0, lastObservedEthHeight = 3\<rparr>"

lemma one_run:
  "fst (startValidatorMode one_orchestrator (injective one_orchestrator) (ethereum one_orchestrator) (sample_world (0 :: nat))) =
     Ok ({OracleLoop, SignerLoop, BatchCreatorLoop} \<union> relayer_loop one_orchestrator, 3, 77)"
  "outside (snd (startValidatorMode one_orchestrator (injective one_orchestrator) (ethereum one_orchestrator)
     (sample_world (0 :: nat)))) = 0"
  by code_simp+

lemma one_observes:
  "fst (observeEthEvents one_orchestrator one_start
     (snd (startValidatorMode one_orchestrator (injective one_orchestrator) (ethereum one_orchestrator) (sample_world (0 :: nat))))) =
     Ok (one_start\<lparr>lastObservedEthHeight := 88\<rparr>)"
  by code_simp

lemma one_filter_laws: "node_laws one_view one_eth"
proof -
  let ?c = "listed_contract sample_answer one_emitted :: nat bind_contract"
  have c: "NewPeggyFilterer (en_bind one_eth) a p = Inr c \<longleftrightarrow> c = ?c" for a p c
    by (auto simp: one_eth_def sample_bindings_def NewPeggyFilterer_def bindPeggy_def)
  have logs: "ct_FilterLogs ?c opts name rules s = (Inr (channel (filter (\<lambda>lg. height_in opts (log_BlockNumber lg))
      (emitted_logs one_emitted name)) None [], \<lparr>Unsubscribe = (\<lambda>s. s)\<rparr>), s)" for opts name rules s
    by (simp add: listed_contract_def)
  have law: "filter_laws one_view one_eth sel parse name rules"
    if "\<And>x y. map (parse ?c) (filter (\<lambda>lg. height_in \<lparr>opts_Start = x, opts_End = Some y\<rparr> (log_BlockNumber lg))
        (emitted_logs one_emitted name)) = map Inr (List.map_filter sel (range_events [one_event] x y))"
    for sel :: "event \<Rightarrow> 'ev option" and parse name rules
    unfolding filter_laws_def
  proof (intro allI impI)
    fix c x y s
    assume "NewPeggyFilterer (en_bind one_eth) (peggyAddress (en_PeggyContract one_eth))
      (evmProvider (EVMCommitter (en_PeggyContract one_eth))) = Inr c"
    with that [of x y] show "let (r, s') = ct_FilterLogs c \<lparr>opts_Start = x, opts_End = Some y\<rparr> name rules s in
      advances one_view s s' \<and> (\<forall>ch sub. r = Inr (ch, sub) \<longrightarrow> (\<forall>s. advances one_view s (Unsubscribe sub s)) \<and>
        (y \<le> cv_final one_view s \<longrightarrow> (\<exists>lgs rest. ch = channel lgs None rest \<and>
          map (parse c) (lgs @ rest) = map Inr (List.map_filter sel (range_events (cv_events one_view) x y)))))"
      by (force simp: c logs one_view_def advances_def)
  qed
  have "List.map_filter as_oldDeposit (range_events [one_event] x y) = []"
    "List.map_filter as_deposit (range_events [one_event] x y) = []"
    "List.map_filter as_withdrawal (range_events [one_event] x y) = []"
    "List.map_filter as_erc20Deployment (range_events [one_event] x y) = []" for x y
    by (simp_all add: range_events_def one_event_def List.map_filter_simps)
  moreover have "List.map_filter as_valsetUpdate (range_events [one_event] x y) =
      filter (\<lambda>ev. height_in \<lparr>opts_Start = x, opts_End = Some y\<rparr> (vu_BlockNumber ev)) (em_ValsetUpdatedEvents one_emitted)" for x y
    by (simp add: range_events_def one_event_def List.map_filter_simps height_in_def one_emitted_def no_events_def)
  moreover have "HeaderByNumber (en_node one_eth) s = (Inr 100, s)" for s
    by (simp add: one_eth_def sample_eth_def sample_node_def)
  ultimately show ?thesis
    unfolding node_laws_def
    by (intro conjI law) (simp_all add: listed_events, simp_all add: one_view_def advances_def one_emitted_def no_events_def)
qed

lemma one_laws:
  "bridge_laws one_view one_orchestrator one_queries one_broadcaster sample_rpc one_eth"
  "start_laws one_view one_queries one_eth"
  "keeps_up one_orchestrator one_queries one_eth 100"
proof -
  have "well_numbered [one_event]" by (simp add: well_numbered_def one_event_def big_Uint64_def)
  moreover note one_filter_laws
  moreover have "claim_laws one_view a one_queries one_broadcaster" for a
    by (auto simp: claim_laws_def one_view_def advances_def one_queries_def one_broadcaster_def sample_queries_def
        sample_broadcaster_def one_event_def big_Uint64_def)
  ultimately show "bridge_laws one_view one_orchestrator one_queries one_broadcaster sample_rpc one_eth"
    by (simp add: bridge_laws_def honest_nodes_def one_orchestrator_def one_view_def sample_orchestrator_def NewOrchestrator_def
        simple_retry_laws advances_def)
  show "start_laws one_view one_queries one_eth"
    by (simp add: start_laws_def one_view_def advances_def one_queries_def sample_queries_def one_eth_def sample_eth_def
        sample_contract_def listed_contract_def one_event_def)
  have "bonded one_orchestrator sample_active" by code_simp
  then show "keeps_up one_orchestrator one_queries one_eth 100"
    by (simp add: keeps_up_def one_queries_def sample_queries_def one_eth_def sample_eth_def sample_node_def)
qed

lemma one_iterates:
  obtains loops pid w0 w' where
    "startValidatorMode one_orchestrator (injective one_orchestrator) (ethereum one_orchestrator) (sample_world (0 :: nat)) =
       (Ok (loops, 3, pid), w0)"
    "oracle_iterates one_view one_orchestrator \<lparr>lastResyncWithInjective = 0, lastObservedEthHeight = 3\<rparr> w0 1
       (one_start\<lparr>lastObservedEthHeight := 88\<rparr>) w'"
proof -
  obtain loops pid w0 where w0: "startValidatorMode one_orchestrator (injective one_orchestrator) (ethereum one_orchestrator)
      (sample_world (0 :: nat)) = (Ok (loops, 3, pid), w0)"
    using one_run(1) by (metis prod.collapse)
  then obtain w' where "observeEthEvents one_orchestrator one_start w0 = (Ok (one_start\<lparr>lastObservedEthHeight := 88\<rparr>), w')"
    using one_observes by (metis prod.collapse snd_conv)
  then have "oracle_iterates one_view one_orchestrator one_start w0 (Suc 0) (one_start\<lparr>lastObservedEthHeight := 88\<rparr>) w'"
    by (rule iterates [OF begins])
  with w0 show thesis by (intro that) (simp_all add: one_start_def)
qed



end
