(* ===== verification/Bridge.thy ===== *)
theory Bridge
  imports PeggyRelay OracleProgress
begin

text \<open>
  The two sides of the bridge together: the log of the Peggy contract (\<open>PeggyChain\<close>), decoded as the generated
  bindings do, is the list of events the oracle (\<open>OracleProgress\<close>) works on. The contract numbers its events
  without gaps, which is what the oracle needs to claim them all.
\<close>

section \<open>The log as the bindings decode it\<close>

fun decode_event :: "int \<times> sol_event \<Rightarrow> event option" where
  "decode_event (h, SendToInjectiveEvent token sender destination amount n dat) = Some (deposit
     \<lparr>si_TokenContract = token, si_Sender = sender, si_Destination = hash_bytes destination, si_Amount = amount,
      si_EventNonce = n, si_Data = dat, si_BlockNumber = of_int h\<rparr>)"
| "decode_event (h, TransactionBatchExecutedEvent batchNonce token n) = Some (withdrawal
     \<lparr>be_BatchNonce = batchNonce, be_Token = token, be_EventNonce = n, be_BlockNumber = of_int h\<rparr>)"
| "decode_event (h, ERC20DeployedEvent denom token name symbol decimals n) = Some (erc20Deployment
     \<lparr>ed_CosmosDenom = denom, ed_TokenContract = token, ed_Name = name, ed_Symbol = symbol, ed_Decimals = decimals,
      ed_EventNonce = n, ed_BlockNumber = of_int h\<rparr>)"
| "decode_event (h, ValsetUpdatedEvent nonce n amount token vs ps) = Some (valsetUpdate
     \<lparr>vu_NewValsetNonce = nonce, vu_EventNonce = n, vu_RewardAmount = amount, vu_RewardToken = token,
      vu_Validators = vs, vu_Powers = ps, vu_BlockNumber = of_int h\<rparr>)"
| "decode_event _ = None"

definition contract_events :: "chain \<Rightarrow> event list" where
  "contract_events m = List.map_filter decode_event (event_log (ch_trace m))"

lemma decode_event_Some:
  "decode_event (h, e) = Some ev \<Longrightarrow> event_height ev = of_int h \<and>
     (\<exists>n. event_nonce e = Some n \<and> Nonce ev = big_Uint64 n)"
  by (cases e) auto

lemma decode_event_None: "decode_event (h, e) = None \<longleftrightarrow> event_nonce e = None"
  by (cases e) auto

lemma map_filter_Cons: "List.map_filter f (x # xs) = (case f x of None \<Rightarrow> [] | Some y \<Rightarrow> [y]) @ List.map_filter f xs"
  by (simp add: List.map_filter_simps split: option.splits)

lemma mem_map_filter: "y \<in> set (List.map_filter f xs) \<longleftrightarrow> (\<exists>x \<in> set xs. f x = Some y)"
  by (induction xs) (auto simp: map_filter_Cons List.map_filter_simps split: option.splits)

lemma decoded_nonces:
  assumes "\<forall>n \<in> set (event_nonces (map snd es)). 0 \<le> n \<and> n < 2 ^ 64"
  shows "map (\<lambda>e. uint (Nonce e)) (List.map_filter decode_event es) = event_nonces (map snd es)"
  using assms
proof (induction es)
  case (Cons x es)
  obtain h e where x: "x = (h, e)" by (cases x)
  show ?case
  proof (cases "decode_event x")
    case None
    then have "event_nonce e = None" by (simp add: x decode_event_None)
    with None show ?thesis using Cons by (simp add: map_filter_Cons x)
  next
    case (Some ev)
    then obtain n where "event_nonce e = Some n" "Nonce ev = big_Uint64 n" using decode_event_Some x by blast
    then show ?thesis using Cons Some by (simp add: map_filter_Cons x big_Uint64_def uint_word_of_int)
  qed
qed (simp add: List.map_filter_simps)

lemma uint_of_int_u64: "0 \<le> x \<Longrightarrow> x < 2 ^ 64 \<Longrightarrow> uint (of_int x :: u64) = x"
  by (simp add: unsigned_of_int take_bit_int_eq_self)

lemma of_int_mono_u64: "0 \<le> x \<Longrightarrow> x \<le> y \<Longrightarrow> y < 2 ^ 64 \<Longrightarrow> (of_int x :: u64) \<le> of_int y"
  by (simp add: word_le_def uint_of_int_u64)

lemma decoded_heights:
  assumes "sorted (map fst es)" "\<forall>x \<in> set es. 0 \<le> fst x \<and> fst x < 2 ^ 64"
  shows "sorted (map event_height (List.map_filter decode_event es))"
  using assms
proof (induction es)
  case (Cons x es)
  obtain h e where x: "x = (h, e)" by (cases x)
  have "of_int h \<le> event_height ev" if mem: "ev \<in> set (List.map_filter decode_event es)" for ev
  proof -
    obtain y where y: "y \<in> set es" "decode_event y = Some ev"
      using mem by (auto simp: mem_map_filter)
    then have "event_height ev = of_int (fst y)" using decode_event_Some by (metis prod.collapse)
    then show ?thesis using Cons.prems y(1) x of_int_mono_u64 by auto
  qed
  then show ?case
    using Cons x decode_event_Some by (auto simp: map_filter_Cons split: option.splits)
qed (simp add: List.map_filter_simps)

text \<open>The contract's log, decoded, is well numbered while its nonces and block numbers fit 64 bits.\<close>

lemma contract_well_numbered:
  assumes "reachable C g m" "0 \<le> g_block g" "ch_block m < 2 ^ 64" "state_lastEventNonce (ch_peggy m) < 2 ^ 64"
  shows "well_numbered (contract_events m)"
proof -
  have inv: "log_inv g (ch_block m) (ch_peggy m) (ch_trace m) (continuations (ch_stack m))"
    by (rule log.reachable_invariant [OF assms(1)])
  have nonces: "map (\<lambda>e. uint (Nonce e)) (contract_events m) = [1 .. state_lastEventNonce (ch_peggy m)]"
    using inv assms(4) decoded_nonces [of "event_log (ch_trace m)"] by (auto simp: log_inv_def contract_events_def)
  then have "length (contract_events m) = length [1 .. state_lastEventNonce (ch_peggy m)]" by (metis length_map)
  then have "int (length (contract_events m)) = state_lastEventNonce (ch_peggy m)" using inv by (simp add: log_inv_def)
  moreover have "sorted (map event_height (contract_events m))"
    using inv assms(2,3) unfolding contract_events_def by (intro decoded_heights) (force simp: log_inv_def)+
  ultimately show ?thesis using nonces by (simp add: well_numbered_def)
qed

section \<open>Deposits reach Injective\<close>


section \<open>A concrete run\<close>

lemma toy_events: "contract_events toy_start = [one_event]"
  by code_simp


end
